(* ===== verification/Prelude.thy ===== *)
theory Prelude
  imports Complex_Main "HOL-Library.Word" "HOL-Library.Char_ord" "HOL-Library.List_Lexorder"
begin

text \<open>
  Shared vocabulary of the development: the machine integer types of the C++ sources, the
  result type that stands for \<^verbatim>\<open>std::expected\<close> and for exceptions, the string
  operations of \<^verbatim>\<open>std::string\<close> that several components use, and the generic
  lemmas about them.  A C++ \<^verbatim>\<open>std::string\<close> is a list of bytes, which is
  exactly \<^typ>\<open>string\<close>.
\<close>

section \<open>Types\<close>

type_synonym u8 = "8 word"
type_synonym u16 = "16 word"
type_synonym u32 = "32 word"
type_synonym u64 = "64 word"
type_synonym i32 = "32 word"

text \<open>
  \<^verbatim>\<open>std::chrono\<close> values.  A \<open>time_point\<close> counts nanoseconds from the epoch of its
  clock, a \<open>seconds\<close> value counts seconds; both are 64-bit signed counters and are kept
  as \<^typ>\<open>int\<close>.
\<close>

type_synonym time_point = int
type_synonym seconds = int
type_synonym path = string

definition ns_per_sec :: int where
  "ns_per_sec = 1000000000"

text \<open>\<^verbatim>\<open>std::expected\<close>, and code that may throw: \<open>Inl\<close> carries the error.\<close>

type_synonym ('e, 'a) expected = "'e + 'a"

fun bind_ex :: "('e, 'a) expected \<Rightarrow> ('a \<Rightarrow> ('e, 'b) expected) \<Rightarrow> ('e, 'b) expected" where
  "bind_ex (Inl e) f = Inl e"
| "bind_ex (Inr a) f = f a"

named_theorems to_string_simps \<open>the tables of the enum-to-string conversions\<close>
named_theorems default_simps \<open>default member values of the structs\<close>
named_theorems frame_simps \<open>fields an operation leaves alone\<close>

section \<open>Strings\<close>

text \<open>\<^verbatim>\<open>s.rfind(p, 0) == 0\<close> and \<^verbatim>\<open>s.find(p) == 0\<close>: \<open>p\<close> is a prefix of \<open>s\<close>.\<close>

fun starts_with :: "string \<Rightarrow> string \<Rightarrow> bool" where
  "starts_with [] s = True"
| "starts_with (c # p) [] = False"
| "starts_with (c # p) (d # s) = (c = d \<and> starts_with p s)"

lemma starts_with_iff: "starts_with p s \<longleftrightarrow> (\<exists>r. s = p @ r)"
  by (induction p s rule: starts_with.induct) auto

lemma starts_with_append [simp]: "starts_with p (p @ r)"
  by (simp add: starts_with_iff)

text \<open>A loop that pops characters off the back while they satisfy \<open>P\<close>.\<close>

definition trim_back :: "('a \<Rightarrow> bool) \<Rightarrow> 'a list \<Rightarrow> 'a list" where
  "trim_back P s = rev (dropWhile P (rev s))"

lemma trim_back_Nil [simp]: "trim_back P [] = []"
  by (simp add: trim_back_def)

lemma length_trim_back: "length (trim_back P s) \<le> length s"
  by (metis length_dropWhile_le length_rev trim_back_def)

lemma trim_back_last: "trim_back P s \<noteq> [] \<Longrightarrow> \<not> P (last (trim_back P s))"
  by (simp add: trim_back_def last_rev hd_dropWhile)

lemma trim_back_prefix: "\<exists>r. s = trim_back P s @ r \<and> (\<forall>c\<in>set r. P c)"
proof -
  have "rev s = takeWhile P (rev s) @ dropWhile P (rev s)" by simp
  then have "s = trim_back P s @ rev (takeWhile P (rev s))"
    by (metis rev_append rev_rev_ident trim_back_def)
  moreover have "\<forall>c\<in>set (rev (takeWhile P (rev s))). P c"
    by (metis set_rev set_takeWhileD)
  ultimately show ?thesis by blast
qed

lemma trim_back_idle: "s = [] \<or> \<not> P (last s) \<Longrightarrow> trim_back P s = s"
  by (cases s rule: rev_cases) (auto simp: trim_back_def)

text \<open>Decimal and hexadecimal digits, \<^verbatim>\<open>std::to_string\<close> on unsigned and signed integers.\<close>

definition digit_char :: "nat \<Rightarrow> char" where
  "digit_char d = (if d < 10 then char_of (48 + d) else char_of (87 + d))"

fun show_nat :: "nat \<Rightarrow> string" where
  "show_nat n = (if n < 10 then [digit_char n] else show_nat (n div 10) @ [digit_char (n mod 10)])"

declare show_nat.simps [simp del]

definition show_int :: "int \<Rightarrow> string" where
  "show_int i = (if i < 0 then ''-'' @ show_nat (nat (- i)) else show_nat (nat i))"

fun read_digits :: "nat \<Rightarrow> string \<Rightarrow> nat" where
  "read_digits acc [] = acc"
| "read_digits acc (c # cs) = read_digits (10 * acc + (of_char c - 48)) cs"

lemma of_char_digit_char: "d < 10 \<Longrightarrow> of_char (digit_char d) = 48 + d"
  by (simp add: digit_char_def)

lemma read_digits_append: "read_digits acc (xs @ ys) = read_digits (read_digits acc xs) ys"
  by (induction xs arbitrary: acc) simp_all

lemma read_show_nat: "read_digits 0 (show_nat n) = n"
proof (induction n rule: show_nat.induct)
  case (1 n)
  show ?case
  proof (cases "n < 10")
    case True
    then show ?thesis by (simp add: show_nat.simps [of n] of_char_digit_char)
  next
    case False
    with "1.IH" show ?thesis
      by (simp add: show_nat.simps [of n] read_digits_append of_char_digit_char)
  qed
qed

lemma show_nat_inject [simp]: "show_nat m = show_nat n \<longleftrightarrow> m = n"
  by (metis read_show_nat)

lemma show_nat_nonempty [simp]: "show_nat n \<noteq> []"
  by (simp add: show_nat.simps [of n])

text \<open>\<^verbatim>\<open>std::isspace\<close>, \<^verbatim>\<open>std::isalnum\<close> and \<^verbatim>\<open>std::tolower\<close> in the C locale.\<close>

definition is_space :: "char \<Rightarrow> bool" where
  "is_space c \<longleftrightarrow> (let n = of_char c :: nat in n = 32 \<or> (9 \<le> n \<and> n \<le> 13))"

definition is_digit :: "char \<Rightarrow> bool" where
  "is_digit c \<longleftrightarrow> (let n = of_char c :: nat in 48 \<le> n \<and> n \<le> 57)"

definition is_alnum :: "char \<Rightarrow> bool" where
  "is_alnum c \<longleftrightarrow> (let n = of_char c :: nat in
     (48 \<le> n \<and> n \<le> 57) \<or> (65 \<le> n \<and> n \<le> 90) \<or> (97 \<le> n \<and> n \<le> 122))"

definition to_lower :: "char \<Rightarrow> char" where
  "to_lower c = (let n = of_char c :: nat in if 65 \<le> n \<and> n \<le> 90 then char_of (n + 32) else c)"

lemma to_lower_idem [simp]: "to_lower (to_lower c) = to_lower c"
  by (auto simp: to_lower_def Let_def)

section \<open>Lists\<close>

lemma filter_take_length: "length (take n (filter P xs)) \<le> n"
  by simp

lemma distinct_map_filter_key: "distinct (map f xs) \<Longrightarrow> distinct (map f (filter P xs))"
  by (induction xs) auto

section \<open>Words\<close>

lemma unat_of_nat_small: "n < 2 ^ LENGTH('a::len) \<Longrightarrow> unat (of_nat n :: 'a word) = n"
  by (simp add: unat_of_nat take_bit_eq_mod)

lemma word_of_nat_mono:
  "m \<le> n \<Longrightarrow> n < 2 ^ LENGTH('a::len) \<Longrightarrow> (of_nat m :: 'a word) \<le> of_nat n"
  by (simp add: word_le_nat_alt unat_of_nat_small)

lemma unat_ucast_up:
  assumes "LENGTH('a::len) \<le> LENGTH('b::len)"
  shows "unat (ucast (w :: 'a word) :: 'b word) = unat w"
proof -
  have "unat w < 2 ^ LENGTH('a)" by (rule unsigned_less)
  also have "(2 :: nat) ^ LENGTH('a) \<le> 2 ^ LENGTH('b)" using assms by (simp add: power_increasing)
  finally show ?thesis by (simp add: unsigned_ucast_eq take_bit_nat_eq_self)
qed

lemma ucast_up_le_iff:
  "LENGTH('a::len) \<le> LENGTH('b::len) \<Longrightarrow>
   (ucast (v :: 'a word) :: 'b word) \<le> ucast (w :: 'a word) \<longleftrightarrow> v \<le> w"
  by (simp add: word_le_nat_alt unat_ucast_up)

lemma sint_word_of_int_small:
  assumes "- (2 ^ (LENGTH('a::len) - 1)) \<le> i" "i < 2 ^ (LENGTH('a) - 1)"
  shows "sint (word_of_int i :: 'a word) = i"
proof -
  have "sint (word_of_int i :: 'a word) = signed_take_bit (LENGTH('a) - Suc 0) i"
    by (simp add: signed_of_int)
  also have "\<dots> = i" using assms by (intro signed_take_bit_int_eq_self) simp_all
  finally show ?thesis .
qed

section \<open>Handlers that keep an invariant\<close>

text \<open>
  A handler of inputs that keeps an invariant of the state, and what follows for a sequence of
  inputs.
\<close>

locale invariant_handler =
  fixes handle :: "'i \<Rightarrow> 's \<Rightarrow> 's"
    and inv :: "'s \<Rightarrow> bool"
  assumes handle_inv: "inv s \<Longrightarrow> inv (handle i s)"
begin

lemma fold_inv: "inv s \<Longrightarrow> inv (fold handle is s)"
  by (induction "is" arbitrary: s) (simp_all add: handle_inv)

end

end
