(* ===== verification/Float64.thy ===== *)
theory Float64
  imports Prelude
begin

text \<open>
  The C++ \<^verbatim>\<open>double\<close> of the sources: IEEE 754 binary64 with rounding to
  nearest, ties to even.  A value is a rational, an infinity or NaN; the two zeros are
  identified, which no comparison of the sources can tell apart.  The arithmetic the sources
  use (division, multiplication, comparison, \<^verbatim>\<open>std::isnan\<close>,
  \<^verbatim>\<open>std::isinf\<close>) is defined exactly, and rounding is shown to be monotone,
  so that threshold tests on rounded values are monotone too.
\<close>

section \<open>Values and comparison\<close>

datatype double = Fin rat | PInf | NInf | NaN

fun d_le :: "double \<Rightarrow> double \<Rightarrow> bool" where
  "d_le NaN _ = False"
| "d_le _ NaN = False"
| "d_le NInf _ = True"
| "d_le _ PInf = True"
| "d_le (Fin x) (Fin y) = (x \<le> y)"
| "d_le (Fin x) NInf = False"
| "d_le PInf _ = False"

abbreviation d_ge :: "double \<Rightarrow> double \<Rightarrow> bool" where
  "d_ge a b \<equiv> d_le b a"

lemma d_le_trans: "d_le a b \<Longrightarrow> d_le b c \<Longrightarrow> d_le a c"
  by (cases a; cases b; cases c) auto

lemma d_le_total: "a \<noteq> NaN \<Longrightarrow> b \<noteq> NaN \<Longrightarrow> d_le a b \<or> d_le b a"
  by (cases a; cases b) auto

lemma d_le_NaN [simp]: "\<not> d_le a NaN" "\<not> d_le NaN a"
  by (cases a, auto)+

definition d_of_u8 :: "u8 \<Rightarrow> double" where
  "d_of_u8 w = Fin (of_nat (unat w))"

fun is_finite :: "double \<Rightarrow> bool" where
  "is_finite (Fin _) = True"
| "is_finite _ = False"

section \<open>Rounding to nearest, ties to even\<close>

text \<open>The binary logarithm, rounded down, of a positive natural number and of a rational.\<close>

fun ilog2 :: "nat \<Rightarrow> nat" where
  "ilog2 n = (if n < 2 then 0 else Suc (ilog2 (n div 2)))"

declare ilog2.simps [simp del]

definition expo :: "rat \<Rightarrow> int" where
  "expo q = (let (n, d) = quotient_of \<bar>q\<bar>; k = int (ilog2 (nat n)) - int (ilog2 (nat d))
             in if 2 powi k \<le> \<bar>q\<bar> then k else k - 1)"

definition round_half_even :: "rat \<Rightarrow> int" where
  "round_half_even x = (let f = \<lfloor>x\<rfloor>; r = x - of_int f in
     if r < 1 / 2 then f else if 1 / 2 < r then f + 1 else if even f then f else f + 1)"

text \<open>
  The unit in the last place of \<open>q\<close> has exponent \<open>expo q - 52\<close>, or -1074 in the
  subnormal range.
\<close>

definition ulp_expo :: "rat \<Rightarrow> int" where
  "ulp_expo q = max (expo q - 52) (- 1074)"

definition round_rat :: "rat \<Rightarrow> rat" where
  "round_rat q = (if q = 0 then 0
     else of_int (round_half_even (q / 2 powi ulp_expo q)) * 2 powi ulp_expo q)"

text \<open>The first magnitude that no finite value reaches.\<close>

definition d_limit :: rat where
  "d_limit = 2 ^ 1024"

lemma d_limit_pos: "0 < d_limit"
  by (simp add: d_limit_def)

definition round64 :: "rat \<Rightarrow> double" where
  "round64 q = (let v = round_rat q in
     if d_limit \<le> v then PInf else if v \<le> - d_limit then NInf else Fin v)"

fun d_mul :: "double \<Rightarrow> double \<Rightarrow> double" where
  "d_mul (Fin x) (Fin y) = round64 (x * y)"
| "d_mul NaN _ = NaN"
| "d_mul _ NaN = NaN"
| "d_mul (Fin x) PInf = (if x = 0 then NaN else if 0 < x then PInf else NInf)"
| "d_mul (Fin x) NInf = (if x = 0 then NaN else if 0 < x then NInf else PInf)"
| "d_mul PInf (Fin y) = (if y = 0 then NaN else if 0 < y then PInf else NInf)"
| "d_mul NInf (Fin y) = (if y = 0 then NaN else if 0 < y then NInf else PInf)"
| "d_mul PInf PInf = PInf"
| "d_mul PInf NInf = NInf"
| "d_mul NInf PInf = NInf"
| "d_mul NInf NInf = PInf"

fun d_div :: "double \<Rightarrow> double \<Rightarrow> double" where
  "d_div (Fin x) (Fin y) =
     (if y = 0 then (if x = 0 then NaN else if 0 < x then PInf else NInf) else round64 (x / y))"
| "d_div NaN _ = NaN"
| "d_div _ NaN = NaN"
| "d_div (Fin x) PInf = Fin 0"
| "d_div (Fin x) NInf = Fin 0"
| "d_div PInf (Fin y) = (if 0 \<le> y then PInf else NInf)"
| "d_div NInf (Fin y) = (if 0 \<le> y then NInf else PInf)"
| "d_div PInf _ = NaN"
| "d_div NInf _ = NaN"

section \<open>Rounding is monotone\<close>

lemma ilog2_bounds: "0 < n \<Longrightarrow> 2 ^ ilog2 n \<le> n \<and> n < 2 ^ Suc (ilog2 n)"
proof (induction n rule: ilog2.induct)
  case (1 n)
  show ?case
  proof (cases "n < 2")
    case True
    with "1.prems" show ?thesis by (simp add: ilog2.simps [of n])
  next
    case False
    then have "0 < n div 2" by simp
    with "1.IH" False have IH: "2 ^ ilog2 (n div 2) \<le> n div 2" "n div 2 < 2 ^ Suc (ilog2 (n div 2))"
      by blast+
    then have "2 * 2 ^ ilog2 (n div 2) \<le> n" and "n < 2 * 2 ^ Suc (ilog2 (n div 2))"
      by linarith+
    with False show ?thesis by (simp add: ilog2.simps [of n])
  qed
qed

lemma expo_bounds:
  assumes "q \<noteq> 0"
  shows "2 powi expo q \<le> \<bar>q\<bar>" and "\<bar>q\<bar> < 2 powi (expo q + 1)"
proof -
  obtain n d where nd: "quotient_of \<bar>q\<bar> = (n, d)" by (metis surj_pair)
  have d0: "0 < d" using nd by (metis quotient_of_denom_pos)
  have q: "\<bar>q\<bar> = of_int n / of_int d" using nd by (rule quotient_of_div)
  have n0: "0 < n"
  proof -
    have "0 < \<bar>q\<bar>" using assms by simp
    with q d0 show ?thesis by (simp add: zero_less_divide_iff)
  qed
  define a b where "a = ilog2 (nat n)" and "b = ilog2 (nat d)"
  define k where "k = int a - int b"
  have bn: "2 ^ a \<le> nat n" "nat n < 2 ^ Suc a"
    using ilog2_bounds [of "nat n"] n0 by (auto simp: a_def)
  have bd: "2 ^ b \<le> nat d" "nat d < 2 ^ Suc b"
    using ilog2_bounds [of "nat d"] d0 by (auto simp: b_def)
  have n_lo: "(2::rat) ^ a \<le> of_int n" and n_hi: "of_int n < (2::rat) ^ Suc a"
    using bn n0 by (metis of_int_le_iff of_int_numeral of_int_power of_nat_le_iff of_nat_numeral
        of_nat_power zero_less_imp_eq_int nat_int,
        metis bn(2) n0 of_int_less_iff of_int_numeral of_int_power of_nat_less_iff of_nat_numeral
        of_nat_power zero_less_imp_eq_int nat_int)
  have d_lo: "(2::rat) ^ b \<le> of_int d" and d_hi: "of_int d < (2::rat) ^ Suc b"
    using bd d0 by (metis of_int_le_iff of_int_numeral of_int_power of_nat_le_iff of_nat_numeral
        of_nat_power zero_less_imp_eq_int nat_int,
        metis bd(2) d0 of_int_less_iff of_int_numeral of_int_power of_nat_less_iff of_nat_numeral
        of_nat_power zero_less_imp_eq_int nat_int)
  have pk: "(2::rat) powi k = 2 ^ a / 2 ^ b"
    by (simp add: k_def power_int_diff)
  have pk1: "(2::rat) powi (k - 1) = 2 ^ a / 2 ^ Suc b"
    by (simp add: k_def power_int_diff)
  have pk2: "(2::rat) powi (k + 1) = 2 ^ Suc a / 2 ^ b"
    by (simp add: k_def power_int_diff power_int_add)
  have lo: "(2::rat) powi (k - 1) \<le> \<bar>q\<bar>"
    unfolding q pk1 using n_lo d_hi d0 n0 by (intro frac_le) auto
  have hi: "\<bar>q\<bar> < (2::rat) powi (k + 1)"
    unfolding q pk2 using n_hi d_lo d0 n0 by (intro frac_less) auto
  have e: "expo q = (if 2 powi k \<le> \<bar>q\<bar> then k else k - 1)"
    by (simp add: expo_def nd a_def b_def k_def Let_def)
  show "2 powi expo q \<le> \<bar>q\<bar>" and "\<bar>q\<bar> < 2 powi (expo q + 1)"
    using lo hi e by auto
qed


lemma expo_abs [simp]: "expo \<bar>q\<bar> = expo q" and expo_minus [simp]: "expo (- q) = expo q"
  by (simp_all add: expo_def)

lemma expo_mono:
  assumes "0 < x" "x \<le> y"
  shows "expo x \<le> expo y"
proof (rule ccontr)
  assume "\<not> expo x \<le> expo y"
  then have "expo y + 1 \<le> expo x" by simp
  then have "(2::rat) powi (expo y + 1) \<le> 2 powi expo x"
    by (simp add: power_int_increasing)
  moreover have "\<bar>y\<bar> < 2 powi (expo y + 1)" and "2 powi expo x \<le> \<bar>x\<bar>"
    using assms expo_bounds(2) [of y] expo_bounds(1) [of x] by simp_all
  ultimately show False using assms by simp
qed

lemma round_half_even_ge: "of_int k \<le> x \<Longrightarrow> k \<le> round_half_even x"
proof -
  assume "of_int k \<le> x"
  then have "k \<le> \<lfloor>x\<rfloor>" by (simp add: le_floor_iff)
  then show ?thesis by (auto simp: round_half_even_def Let_def)
qed

lemma round_half_even_le: "x \<le> of_int k \<Longrightarrow> round_half_even x \<le> k"
proof (cases "x = of_int k")
  case False
  assume "x \<le> of_int k"
  with False have "\<lfloor>x\<rfloor> < k" by (simp add: floor_less_iff)
  then show ?thesis by (auto simp: round_half_even_def Let_def)
qed (simp add: round_half_even_def)

lemma round_half_even_mono: "x \<le> y \<Longrightarrow> round_half_even x \<le> round_half_even y"
proof (cases "\<lfloor>x\<rfloor> = \<lfloor>y\<rfloor>")
  case True
  assume "x \<le> y"
  with True show ?thesis by (auto simp: round_half_even_def Let_def)
next
  case False
  assume "x \<le> y"
  with False have lt: "\<lfloor>x\<rfloor> + 1 \<le> \<lfloor>y\<rfloor>" using floor_mono [of x y] by linarith
  have "round_half_even x \<le> \<lfloor>x\<rfloor> + 1" by (auto simp: round_half_even_def Let_def)
  moreover have "\<lfloor>y\<rfloor> \<le> round_half_even y" by (rule round_half_even_ge) simp
  ultimately show ?thesis using lt by linarith
qed

lemma round_half_even_minus: "round_half_even (- x) = - round_half_even x"
proof (cases "x \<in> \<int>")
  case True
  then obtain k where "x = of_int k" by (auto elim: Ints_cases)
  then show ?thesis by (simp add: round_half_even_def Let_def)
next
  case False
  then have c: "\<lfloor>- x\<rfloor> = - \<lfloor>x\<rfloor> - 1"
    by (metis False Ints_of_int ceiling_altdef ceiling_def add_uminus_conv_diff minus_add_distrib
        minus_minus)
  show ?thesis by (auto simp: round_half_even_def Let_def c)
qed

lemma round_half_even_of_int: "round_half_even (of_int k) = k"
  by (simp add: round_half_even_def)

lemma ulp_expo_minus [simp]: "ulp_expo (- q) = ulp_expo q"
  by (simp add: ulp_expo_def)

lemma round_rat_minus: "round_rat (- q) = - round_rat q"
  by (simp add: round_rat_def round_half_even_minus)

lemma round_rat_nonneg: "0 \<le> q \<Longrightarrow> 0 \<le> round_rat q"
  using round_half_even_ge [of 0 "q / 2 powi ulp_expo q"]
  by (simp add: round_rat_def)

text \<open>A power of two in the normal range bounds the rounded value from below and above.\<close>

lemma pow2_split: "i \<le> j \<Longrightarrow> (2::rat) powi j / 2 powi i = of_int (2 ^ nat (j - i))"
proof -
  assume "i \<le> j"
  then have "(2::rat) powi (j - i) = 2 ^ nat (j - i)" by (simp add: power_int_def)
  then show ?thesis by (simp add: power_int_diff)
qed

lemma round_rat_ge_pow:
  assumes "0 < q" "2 powi k \<le> q" "ulp_expo q \<le> k"
  shows "2 powi k \<le> round_rat q"
proof -
  let ?u = "ulp_expo q"
  have u: "(0::rat) < 2 powi ?u" by simp
  have "of_int (2 ^ nat (k - ?u)) \<le> q / 2 powi ?u"
    unfolding pow2_split [OF assms(3), symmetric] using assms(2) u by (intro divide_right_mono) auto
  then have "2 ^ nat (k - ?u) \<le> round_half_even (q / 2 powi ?u)"
    by (rule round_half_even_ge)
  then have "(of_int (2 ^ nat (k - ?u)) :: rat) \<le> of_int (round_half_even (q / 2 powi ?u))"
    by (rule of_int_le_iff [THEN iffD2])
  then have "(2::rat) powi k / 2 powi ?u \<le> of_int (round_half_even (q / 2 powi ?u))"
    using pow2_split [OF assms(3)] by simp
  then show ?thesis using assms(1) u by (simp add: round_rat_def pos_divide_le_eq)
qed

lemma round_rat_le_pow:
  assumes "0 < q" "q \<le> 2 powi k" "ulp_expo q \<le> k"
  shows "round_rat q \<le> 2 powi k"
proof -
  let ?u = "ulp_expo q"
  have u: "(0::rat) < 2 powi ?u" by simp
  have "q / 2 powi ?u \<le> of_int (2 ^ nat (k - ?u))"
    unfolding pow2_split [OF assms(3), symmetric] using assms(2) u by (intro divide_right_mono) auto
  then have "round_half_even (q / 2 powi ?u) \<le> 2 ^ nat (k - ?u)"
    by (rule round_half_even_le)
  then have "of_int (round_half_even (q / 2 powi ?u)) \<le> (of_int (2 ^ nat (k - ?u)) :: rat)"
    by (rule of_int_le_iff [THEN iffD2])
  then have "of_int (round_half_even (q / 2 powi ?u)) \<le> (2::rat) powi k / 2 powi ?u"
    using pow2_split [OF assms(3)] by simp
  then show ?thesis using assms(1) u by (simp add: round_rat_def pos_le_divide_eq)
qed

lemma round_rat_mono_pos:
  assumes "0 < x" "x \<le> y"
  shows "round_rat x \<le> round_rat y"
proof (cases "ulp_expo x = ulp_expo y")
  case True
  have "round_half_even (x / 2 powi ulp_expo y) \<le> round_half_even (y / 2 powi ulp_expo y)"
    by (rule round_half_even_mono) (simp add: assms divide_right_mono)
  then show ?thesis using assms True by (simp add: round_rat_def mult_right_mono)
next
  case False
  have le: "expo x \<le> expo y" using assms by (rule expo_mono)
  with False have uy: "ulp_expo y = expo y - 52" and lt: "expo x < expo y"
    and ux: "ulp_expo x \<le> expo y"
    by (auto simp: ulp_expo_def max_def split: if_splits)
  have "x < 2 powi (expo x + 1)" using assms expo_bounds(2) [of x] by simp
  also have "\<dots> \<le> 2 powi expo y" using lt by (simp add: power_int_increasing)
  finally have "round_rat x \<le> 2 powi expo y" using assms ux by (intro round_rat_le_pow) auto
  also have "\<dots> \<le> round_rat y"
    using assms uy expo_bounds(1) [of y] by (intro round_rat_ge_pow) auto
  finally show ?thesis .
qed

lemma round_rat_mono: "x \<le> y \<Longrightarrow> round_rat x \<le> round_rat y"
proof -
  assume le: "x \<le> y"
  consider "0 < x" | "x \<le> 0" "0 \<le> y" | "y < 0" by linarith
  then show ?thesis
  proof cases
    case 1
    then show ?thesis using le by (rule round_rat_mono_pos)
  next
    case 2
    then have "round_rat x \<le> 0" using round_rat_nonneg [of "- x"] by (simp add: round_rat_minus)
    then show ?thesis using round_rat_nonneg [OF 2(2)] by linarith
  next
    case 3
    then have "round_rat (- y) \<le> round_rat (- x)" using le by (intro round_rat_mono_pos) auto
    then show ?thesis by (simp add: round_rat_minus)
  qed
qed

lemma round64_not_NaN [simp]: "round64 q \<noteq> NaN"
  by (simp add: round64_def Let_def)

lemma round64_mono: "x \<le> y \<Longrightarrow> d_le (round64 x) (round64 y)"
  using round_rat_mono [of x y] d_limit_pos by (auto simp: round64_def Let_def)

lemma d_le_infinite [simp]: "a \<noteq> NaN \<Longrightarrow> d_le NInf a" "a \<noteq> NaN \<Longrightarrow> d_le a PInf"
  by (cases a, simp_all)+

text \<open>Dividing and multiplying by a fixed positive value keeps the order.\<close>

lemma d_div_mono: "d_le a b \<Longrightarrow> 0 < y \<Longrightarrow> d_le (d_div a (Fin y)) (d_div b (Fin y))"
  by (cases a; cases b) (auto intro: round64_mono simp: divide_right_mono)

lemma d_mul_mono: "d_le a b \<Longrightarrow> 0 < y \<Longrightarrow> d_le (d_mul a (Fin y)) (d_mul b (Fin y))"
  by (cases a; cases b) (auto intro: round64_mono simp: mult_right_mono)

text \<open>A small integer is its own rounding.\<close>

lemma round_rat_of_int:
  assumes "\<bar>k\<bar> < 2 ^ 53"
  shows "round_rat (of_int k) = of_int k"
proof (cases "k = 0")
  case False
  let ?q = "of_int k :: rat"
  let ?u = "ulp_expo ?q"
  have "(2::rat) powi expo ?q \<le> \<bar>?q\<bar>" using False by (intro expo_bounds) simp
  also have "\<dots> < 2 powi 53"
  proof -
    have "(of_int \<bar>k\<bar> :: rat) < of_int (2 ^ 53)" using assms by (rule of_int_less_iff [THEN iffD2])
    then show ?thesis by (simp add: power_int_def)
  qed
  finally have "(2::rat) powi expo ?q < 2 powi 53" .
  then have "expo ?q < 53" using power_int_increasing [of 53 "expo ?q" "2::rat"] by linarith
  then have u: "?u \<le> 0" by (simp add: ulp_expo_def)
  define m :: nat where "m = nat (- ?u)"
  have p: "(2::rat) powi ?u = 1 / 2 ^ m"
    using u by (simp add: m_def power_int_def divide_simps)
  have "?q / 2 powi ?u = of_int (k * 2 ^ m)" by (simp add: p)
  then have "round_half_even (?q / 2 powi ?u) = k * 2 ^ m"
    by (simp only: round_half_even_of_int)
  then show ?thesis using False by (simp add: round_rat_def p)
qed (simp add: round_rat_def)

lemma round64_of_int: "\<bar>k\<bar> < 2 ^ 53 \<Longrightarrow> round64 (of_int k) = Fin (of_int k)"
proof -
  assume k: "\<bar>k\<bar> < 2 ^ 53"
  then have "\<bar>k\<bar> < 2 ^ 1024" by (rule less_le_trans) (simp add: power_increasing)
  then have "\<bar>of_int k :: rat\<bar> < d_limit"
    unfolding d_limit_def by (metis of_int_abs of_int_less_iff of_int_numeral of_int_power)
  then show ?thesis using round_rat_of_int [OF k] by (auto simp: round64_def Let_def)
qed

end
