(* ===== verification/Types.thy ===== *)
theory Types
  imports Float64
begin

text \<open>
  The data model of \<^verbatim>\<open>inc/types.hpp\<close>: the enumerations with their JSON
  strings, the section structs with their default member values, and
  \<^verbatim>\<open>degraded_domains\<close>.  The ranking of severities that the header documents
  (unknown < ok < stale < unavailable < warn < crit) is the \<open>linorder\<close> instance of
  \<open>severity\<close>; the aggregator and the D-Bus manager each hold a rank table of their own,
  and the locale \<open>severity_ranking\<close> is the contract both tables satisfy.
\<close>

section \<open>Enumerations\<close>

datatype severity = Sev_Ok | Sev_Warn | Sev_Crit | Sev_Unknown | Sev_Unavailable | Sev_Stale

datatype service_state =
  Svc_Active | Svc_Inactive | Svc_Failed | Svc_Activating | Svc_Deactivating | Svc_Unknown

datatype link_state = Link_Up | Link_Down | Link_Unknown

datatype duplex = Duplex_Full | Duplex_Half | Duplex_Unknown

datatype time_sync_source = Src_None | Src_Ntp | Src_Ptp

datatype time_sync_state = Sync_Locked | Sync_FreeRunning | Sync_Holdover | Sync_Unknown

datatype update_result = Upd_Success | Upd_Failed | Upd_Unknown

fun severity_string :: "severity \<Rightarrow> string" where
  "severity_string Sev_Ok = ''ok''"
| "severity_string Sev_Warn = ''warn''"
| "severity_string Sev_Crit = ''crit''"
| "severity_string Sev_Unknown = ''unknown''"
| "severity_string Sev_Unavailable = ''unavailable''"
| "severity_string Sev_Stale = ''stale''"

fun service_state_string :: "service_state \<Rightarrow> string" where
  "service_state_string Svc_Active = ''active''"
| "service_state_string Svc_Inactive = ''inactive''"
| "service_state_string Svc_Failed = ''failed''"
| "service_state_string Svc_Activating = ''activating''"
| "service_state_string Svc_Deactivating = ''deactivating''"
| "service_state_string Svc_Unknown = ''unknown''"

fun link_state_string :: "link_state \<Rightarrow> string" where
  "link_state_string Link_Up = ''up''"
| "link_state_string Link_Down = ''down''"
| "link_state_string Link_Unknown = ''unknown''"

fun time_sync_source_string :: "time_sync_source \<Rightarrow> string" where
  "time_sync_source_string Src_None = ''none''"
| "time_sync_source_string Src_Ntp = ''ntp''"
| "time_sync_source_string Src_Ptp = ''ptp''"

fun time_sync_state_string :: "time_sync_state \<Rightarrow> string" where
  "time_sync_state_string Sync_Locked = ''locked''"
| "time_sync_state_string Sync_FreeRunning = ''free_running''"
| "time_sync_state_string Sync_Holdover = ''holdover''"
| "time_sync_state_string Sync_Unknown = ''unknown''"

fun update_result_string :: "update_result \<Rightarrow> string" where
  "update_result_string Upd_Success = ''success''"
| "update_result_string Upd_Failed = ''failed''"
| "update_result_string Upd_Unknown = ''unknown''"

fun duplex_string :: "duplex \<Rightarrow> string" where
  "duplex_string Duplex_Full = ''full''"
| "duplex_string Duplex_Half = ''half''"
| "duplex_string Duplex_Unknown = ''unknown''"

text \<open>Different enumerators have different strings, so the JSON text determines the value.\<close>

lemma severity_string_inject [simp]: "severity_string a = severity_string b \<longleftrightarrow> a = b"
  by (cases a; cases b) simp_all

lemma service_state_string_inject [simp]:
  "service_state_string a = service_state_string b \<longleftrightarrow> a = b"
  by (cases a; cases b) simp_all

lemma link_state_string_inject [simp]: "link_state_string a = link_state_string b \<longleftrightarrow> a = b"
  by (cases a; cases b) simp_all

lemma time_sync_source_string_inject [simp]:
  "time_sync_source_string a = time_sync_source_string b \<longleftrightarrow> a = b"
  by (cases a; cases b) simp_all

lemma time_sync_state_string_inject [simp]:
  "time_sync_state_string a = time_sync_state_string b \<longleftrightarrow> a = b"
  by (cases a; cases b) simp_all

lemma update_result_string_inject [simp]:
  "update_result_string a = update_result_string b \<longleftrightarrow> a = b"
  by (cases a; cases b) simp_all

lemma duplex_string_inject [simp]: "duplex_string a = duplex_string b \<longleftrightarrow> a = b"
  by (cases a; cases b) simp_all

section \<open>The documented order of severities\<close>

fun severity_index :: "severity \<Rightarrow> nat" where
  "severity_index Sev_Unknown = 0"
| "severity_index Sev_Ok = 1"
| "severity_index Sev_Stale = 2"
| "severity_index Sev_Unavailable = 3"
| "severity_index Sev_Warn = 4"
| "severity_index Sev_Crit = 5"

lemma severity_index_inject: "severity_index a = severity_index b \<Longrightarrow> a = b"
  by (cases a; cases b) simp_all

instantiation severity :: "{linorder, order_bot, order_top}"
begin

definition less_eq_severity :: "severity \<Rightarrow> severity \<Rightarrow> bool" where
  "a \<le> b \<longleftrightarrow> severity_index a \<le> severity_index b"

definition less_severity :: "severity \<Rightarrow> severity \<Rightarrow> bool" where
  "a < b \<longleftrightarrow> severity_index a < severity_index b"

definition bot_severity :: severity where
  "bot = Sev_Unknown"

definition top_severity :: severity where
  "top = Sev_Crit"

instance
proof
  fix a b :: severity
  show "a \<le> b \<Longrightarrow> b \<le> a \<Longrightarrow> a = b"
    unfolding less_eq_severity_def by (rule severity_index_inject) simp
  show "bot \<le> a" by (simp add: less_eq_severity_def bot_severity_def)
  show "a \<le> top" by (cases a) (simp_all add: less_eq_severity_def top_severity_def)
qed (auto simp: less_eq_severity_def less_severity_def)

end

lemmas severity_order_simps = less_eq_severity_def less_severity_def

text \<open>
  The contract of a rank table: it orders severities as documented.  A fold that keeps the
  element of strictly greater rank then computes the maximum of the order.
\<close>

locale severity_ranking =
  fixes rank :: "severity \<Rightarrow> int"
  assumes rank_le_iff: "rank a \<le> rank b \<longleftrightarrow> a \<le> b"
begin

lemma rank_less_iff: "rank a < rank b \<longleftrightarrow> a < b"
  using rank_le_iff [of b a] by (simp add: not_le [symmetric])

lemma keep_greater_is_max: "(if rank w < rank s then s else w) = max w s"
  by (auto simp: rank_less_iff max_def)

lemma rank_inject: "rank a = rank b \<longleftrightarrow> a = b"
  by (metis order_antisym order_refl rank_le_iff)

end

section \<open>Section structs\<close>

record os_info =
  os_distro :: string
  os_version :: string
  os_build_id :: string
  os_kernel :: string

definition os_info_default :: os_info where
  "os_info_default = \<lparr>os_distro = ''unknown'', os_version = '''', os_build_id = '''',
     os_kernel = ''unknown''\<rparr>"

record device_info =
  dev_device_id :: string
  dev_hostname :: string
  dev_platform :: string
  dev_arch :: string
  dev_os :: os_info

definition device_info_default :: device_info where
  "device_info_default = \<lparr>dev_device_id = ''unknown'', dev_hostname = ''unknown'',
     dev_platform = ''unknown'', dev_arch = ''uknown'', dev_os = os_info_default\<rparr>"

record section_freshness =
  collected_at :: "time_point option"
  fr_stale :: bool

definition section_freshness_default :: section_freshness where
  "section_freshness_default = \<lparr>collected_at = None, fr_stale = False\<rparr>"

record boot_status =
  boot_freshness :: section_freshness
  boot_id :: string
  last_boot_at :: time_point
  uptime :: seconds
  boot_ok :: bool
  boot_fail_count :: u32
  last_reboot_reason :: "string option"

definition boot_status_default :: boot_status where
  "boot_status_default = \<lparr>boot_freshness = section_freshness_default, boot_id = '''',
     last_boot_at = 0, uptime = 0, boot_ok = True, boot_fail_count = 0,
     last_reboot_reason = None\<rparr>"

record service_unit =
  su_name :: string
  su_state :: service_state
  su_severity :: severity
  su_since :: "time_point option"
  su_restart_count :: u32
  su_result :: "string option"
  su_detail :: "string option"
  su_log_excerpt :: "string list"

definition service_unit_default :: service_unit where
  "service_unit_default = \<lparr>su_name = '''', su_state = Svc_Unknown, su_severity = Sev_Unknown,
     su_since = None, su_restart_count = 0, su_result = None, su_detail = None,
     su_log_excerpt = []\<rparr>"

record services_status =
  services_freshness :: section_freshness
  services_overall :: severity
  services_units :: "service_unit list"

definition services_status_default :: services_status where
  "services_status_default = \<lparr>services_freshness = section_freshness_default,
     services_overall = Sev_Unknown, services_units = []\<rparr>"

record cpu_load =
  load1 :: double
  load5 :: double
  load15 :: double

definition cpu_load_default :: cpu_load where
  "cpu_load_default = \<lparr>load1 = Fin 0, load5 = Fin 0, load15 = Fin 0\<rparr>"

record memory_usage =
  mem_total_mb :: u64
  mem_used_mb :: u64
  swap_used_mb :: u64

definition memory_usage_default :: memory_usage where
  "memory_usage_default = \<lparr>mem_total_mb = 0, mem_used_mb = 0, swap_used_mb = 0\<rparr>"

record storage_mount =
  sm_mount :: string
  sm_fs :: string
  sm_available :: bool
  sm_used_pct :: "u8 option"
  sm_avail_mb :: "u64 option"

definition storage_mount_default :: storage_mount where
  "storage_mount_default = \<lparr>sm_mount = '''', sm_fs = '''', sm_available = True,
     sm_used_pct = None, sm_avail_mb = None\<rparr>"

record thermal_sensor =
  ts_sensor :: string
  ts_available :: bool
  ts_temp_c :: "double option"

definition thermal_sensor_default :: thermal_sensor where
  "thermal_sensor_default = \<lparr>ts_sensor = '''', ts_available = True, ts_temp_c = None\<rparr>"

record network_interface =
  ni_ifname :: string
  ni_link :: link_state
  ni_carrier :: bool
  ni_ip :: "string option"
  ni_rx_bytes :: u64
  ni_tx_bytes :: u64
  ni_rx_packets :: u64
  ni_tx_packets :: u64
  ni_rx_dropped :: u64
  ni_tx_dropped :: u64
  ni_rx_err :: u64
  ni_tx_err :: u64
  ni_mtu :: u32
  ni_mac :: string
  ni_operstate :: string
  ni_carrier_changes :: u32
  ni_carrier_up_count :: u32
  ni_carrier_down_count :: u32
  ni_speed_mbps :: "u32 option"
  ni_duplex :: "duplex option"

definition network_interface_default :: network_interface where
  "network_interface_default = \<lparr>ni_ifname = '''', ni_link = Link_Unknown, ni_carrier = False,
     ni_ip = None, ni_rx_bytes = 0, ni_tx_bytes = 0, ni_rx_packets = 0, ni_tx_packets = 0,
     ni_rx_dropped = 0, ni_tx_dropped = 0, ni_rx_err = 0, ni_tx_err = 0, ni_mtu = 0,
     ni_mac = '''', ni_operstate = '''', ni_carrier_changes = 0, ni_carrier_up_count = 0,
     ni_carrier_down_count = 0, ni_speed_mbps = None, ni_duplex = None\<rparr>"

record resources_status =
  resources_freshness :: section_freshness
  sample_window :: u32
  cpu :: cpu_load
  memory :: memory_usage
  storage :: "storage_mount list"
  thermal :: "thermal_sensor list"
  network :: "network_interface list"

definition resources_status_default :: resources_status where
  "resources_status_default = \<lparr>resources_freshness = section_freshness_default,
     sample_window = 60, cpu = cpu_load_default, memory = memory_usage_default,
     storage = [], thermal = [], network = []\<rparr>"

record ntp_status =
  ntp_enabled :: bool
  ntp_state :: "time_sync_state option"
  ntp_last_sync_at :: "time_point option"

definition ntp_status_default :: ntp_status where
  "ntp_status_default = \<lparr>ntp_enabled = False, ntp_state = None, ntp_last_sync_at = None\<rparr>"

record ptp_status =
  ptp_enabled :: bool
  ptp_interface :: "string option"
  ptp_offset_ns :: "int option"
  ptp_rms_ns :: "u64 option"
  ptp_state :: "time_sync_state option"
  ptp_last_sync_at :: "time_point option"
  ptp_role :: "string option"

definition ptp_status_default :: ptp_status where
  "ptp_status_default = \<lparr>ptp_enabled = False, ptp_interface = None, ptp_offset_ns = None,
     ptp_rms_ns = None, ptp_state = None, ptp_last_sync_at = None, ptp_role = None\<rparr>"

record rtc_status =
  rtc_enabled :: bool
  rtc_hctosys :: bool
  rtc_voltage_mv :: "u32 option"
  rtc_drift_sec :: "int option"

definition rtc_status_default :: rtc_status where
  "rtc_status_default = \<lparr>rtc_enabled = False, rtc_hctosys = False, rtc_voltage_mv = None,
     rtc_drift_sec = None\<rparr>"

record time_sync_status =
  time_sync_freshness :: section_freshness
  time_sync_overall :: severity
  time_sync_source :: time_sync_source
  ts_ntp :: ntp_status
  ts_ptp :: ptp_status
  ts_rtc :: rtc_status

definition time_sync_status_default :: time_sync_status where
  "time_sync_status_default = \<lparr>time_sync_freshness = section_freshness_default,
     time_sync_overall = Sev_Unknown, time_sync_source = Src_None, ts_ntp = ntp_status_default,
     ts_ptp = ptp_status_default, ts_rtc = rtc_status_default\<rparr>"

record last_update_info =
  lu_id :: string
  lu_installed_at :: "time_point option"
  lu_result :: update_result
  lu_detail :: "string option"

definition last_update_default :: last_update_info where
  "last_update_default = \<lparr>lu_id = '''', lu_installed_at = None, lu_result = Upd_Unknown,
     lu_detail = None\<rparr>"

record update_status =
  update_freshness :: section_freshness
  update_overall :: severity
  active_slot :: "string option"
  last_update :: "last_update_info option"

definition update_status_default :: update_status where
  "update_status_default = \<lparr>update_freshness = section_freshness_default,
     update_overall = Sev_Unknown, active_slot = None, last_update = None\<rparr>"

record journal_status =
  journal_freshness :: section_freshness
  journal_overall :: severity
  journal_error_count :: u32
  journal_recent_errors :: "string list"

definition journal_status_default :: journal_status where
  "journal_status_default = \<lparr>journal_freshness = section_freshness_default,
     journal_overall = Sev_Unknown, journal_error_count = 0, journal_recent_errors = []\<rparr>"

record crash_artifact =
  ca_name :: string
  ca_size_bytes :: u64
  ca_mtime :: "time_point option"
  ca_kind :: string

definition crash_artifact_default :: crash_artifact where
  "crash_artifact_default = \<lparr>ca_name = '''', ca_size_bytes = 0, ca_mtime = None, ca_kind = ''''\<rparr>"

record crash_status =
  crash_freshness :: section_freshness
  crash_present :: bool
  crash_source :: "string option"
  last_panic_at :: "time_point option"
  crash_fingerprint :: "string option"
  artifact_count :: u32
  crash_artifacts :: "crash_artifact list"
  acknowledged :: bool
  panic_count :: u32
  panic_current_boot :: bool

definition crash_status_default :: crash_status where
  "crash_status_default = \<lparr>crash_freshness = section_freshness_default, crash_present = False,
     crash_source = None, last_panic_at = None, crash_fingerprint = None, artifact_count = 0,
     crash_artifacts = [], acknowledged = False, panic_count = 0, panic_current_boot = False\<rparr>"

record domain_severities =
  dom_boot :: severity
  dom_services :: severity
  dom_resources :: severity
  dom_time_sync :: severity
  dom_update :: severity
  dom_journal :: severity
  dom_crash :: severity

definition domain_severities_default :: domain_severities where
  "domain_severities_default = \<lparr>dom_boot = Sev_Unknown, dom_services = Sev_Unknown,
     dom_resources = Sev_Unknown, dom_time_sync = Sev_Unknown, dom_update = Sev_Unknown,
     dom_journal = Sev_Unknown, dom_crash = Sev_Unknown\<rparr>"

record snapshot_summary =
  sum_severity :: severity
  sum_domains :: domain_severities
  sum_reasons :: "string list"
  sum_notes :: "string option"

definition snapshot_summary_default :: snapshot_summary where
  "snapshot_summary_default = \<lparr>sum_severity = Sev_Unknown,
     sum_domains = domain_severities_default, sum_reasons = [''initial''], sum_notes = None\<rparr>"

definition snapshot_schema :: string where
  "snapshot_schema = ''edge.health.state''"

definition snapshot_schema_version :: string where
  "snapshot_schema_version = ''1.1''"

record snapshot_state =
  generated_at :: time_point
  snap_cycle :: u64
  snap_device :: device_info
  snap_boot :: boot_status
  snap_services :: services_status
  snap_resources :: resources_status
  snap_time_sync :: time_sync_status
  snap_update :: update_status
  snap_journal :: journal_status
  snap_crash :: crash_status
  snap_summary :: snapshot_summary

definition snapshot_state_default :: snapshot_state where
  "snapshot_state_default = \<lparr>generated_at = 0, snap_cycle = 0,
     snap_device = device_info_default, snap_boot = boot_status_default,
     snap_services = services_status_default, snap_resources = resources_status_default,
     snap_time_sync = time_sync_status_default, snap_update = update_status_default,
     snap_journal = journal_status_default, snap_crash = crash_status_default,
     snap_summary = snapshot_summary_default\<rparr>"

lemmas section_defaults [default_simps] =
  section_freshness_default_def boot_status_default_def services_status_default_def
  resources_status_default_def time_sync_status_default_def update_status_default_def
  journal_status_default_def crash_status_default_def cpu_load_default_def
  memory_usage_default_def ntp_status_default_def ptp_status_default_def rtc_status_default_def
  domain_severities_default_def snapshot_summary_default_def snapshot_state_default_def

section \<open>The degraded-domain list\<close>

definition domain_list :: "domain_severities \<Rightarrow> (string \<times> severity) list" where
  "domain_list d = [(''boot'', dom_boot d), (''services'', dom_services d),
     (''resources'', dom_resources d), (''time_sync'', dom_time_sync d),
     (''update'', dom_update d), (''journal'', dom_journal d), (''crash'', dom_crash d)]"

fun degraded_loop :: "(string \<times> severity) list \<Rightarrow> string \<Rightarrow> string" where
  "degraded_loop [] out = out"
| "degraded_loop ((name, sev) # doms) out =
     (if sev = Sev_Ok \<or> sev = Sev_Unknown then degraded_loop doms out
      else degraded_loop doms
        ((if out \<noteq> [] then out @ '', '' else out) @ name @ ''='' @ severity_string sev))"

definition degraded_domains :: "domain_severities \<Rightarrow> string" where
  "degraded_domains d = degraded_loop (domain_list d) ''''"

text \<open>The specification: the entries worse than ok, in declaration order, joined by commas.\<close>

fun join_comma :: "string list \<Rightarrow> string" where
  "join_comma [] = ''''"
| "join_comma [x] = x"
| "join_comma (x # y # ys) = x @ '', '' @ join_comma (y # ys)"

definition degraded_entry :: "string \<times> severity \<Rightarrow> string" where
  "degraded_entry e = fst e @ ''='' @ severity_string (snd e)"

lemma severity_gt_ok_iff: "Sev_Ok < s \<longleftrightarrow> \<not> (s = Sev_Ok \<or> s = Sev_Unknown)"
  by (cases s) (simp_all add: severity_order_simps)

lemma join_comma_append:
  "xs \<noteq> [] \<Longrightarrow> join_comma (xs @ [x]) = join_comma xs @ '', '' @ x"
  by (induction xs rule: join_comma.induct) auto

lemma join_comma_nonempty: "\<forall>x\<in>set xs. x \<noteq> [] \<Longrightarrow> join_comma xs = [] \<longleftrightarrow> xs = []"
  by (induction xs rule: join_comma.induct) auto

lemma degraded_loop_join:
  "\<forall>x\<in>set acc. x \<noteq> [] \<Longrightarrow>
   degraded_loop doms (join_comma acc) =
     join_comma (acc @ map degraded_entry (filter (\<lambda>e. Sev_Ok < snd e) doms))"
proof (induction doms arbitrary: acc)
  case Nil
  then show ?case by simp
next
  case (Cons d doms)
  obtain name sev where d: "d = (name, sev)" by fastforce
  show ?case
  proof (cases "Sev_Ok < sev")
    case True
    let ?e = "degraded_entry (name, sev)"
    have ne: "\<forall>x\<in>set (acc @ [?e]). x \<noteq> []" using Cons.prems by (auto simp: degraded_entry_def)
    have step: "(if join_comma acc \<noteq> [] then join_comma acc @ '', '' else join_comma acc)
        @ name @ ''='' @ severity_string sev = join_comma (acc @ [?e])"
      using Cons.prems
      by (cases "acc = []") (simp_all add: join_comma_append join_comma_nonempty degraded_entry_def)
    have "degraded_loop (d # doms) (join_comma acc) = degraded_loop doms (join_comma (acc @ [?e]))"
      using True step by (simp add: d severity_gt_ok_iff)
    with Cons.IH [OF ne] True show ?thesis by (simp add: d)
  next
    case False
    with Cons show ?thesis by (auto simp: d severity_gt_ok_iff)
  qed
qed

lemma degraded_domains_join:
  "degraded_domains d =
     join_comma (map degraded_entry (filter (\<lambda>e. Sev_Ok < snd e) (domain_list d)))"
  using degraded_loop_join [of "[]" "domain_list d"] by (simp add: degraded_domains_def)

end
