(* ===== verification/Std_Map.thy ===== *)
theory Std_Map
  imports Prelude
begin

text \<open>
  \<^verbatim>\<open>std::map\<close>: an association list with strictly increasing keys.  Insertion
  keeps the order, so iterating the list is iterating the container.  The locale
  \<open>key_value_store\<close> states what the clients (JSON objects, the Netlink cache) rely on; it
  is interpreted on the list operations here.
\<close>

section \<open>Operations\<close>

fun omap_put :: "'k::linorder \<Rightarrow> 'v \<Rightarrow> ('k \<times> 'v) list \<Rightarrow> ('k \<times> 'v) list" where
  "omap_put k v [] = [(k, v)]"
| "omap_put k v ((k', v') # m) =
     (if k = k' then (k, v) # m
      else if k < k' then (k, v) # (k', v') # m
      else (k', v') # omap_put k v m)"

definition omap_wf :: "('k::linorder \<times> 'v) list \<Rightarrow> bool" where
  "omap_wf m \<longleftrightarrow> sorted_wrt (<) (map fst m)"

lemma omap_wf_Nil [simp]: "omap_wf []"
  by (simp add: omap_wf_def)

lemma map_of_omap_put [simp]: "map_of (omap_put k v m) = (map_of m)(k \<mapsto> v)"
  by (induction k v m rule: omap_put.induct) (auto simp: fun_eq_iff)

lemma keys_omap_put: "fst ` set (omap_put k v m) = insert k (fst ` set m)"
  by (induction k v m rule: omap_put.induct) auto

lemma set_omap_put_subset: "set (omap_put k v m) \<subseteq> insert (k, v) (set m)"
  by (induction k v m rule: omap_put.induct) auto

lemma omap_wf_put [simp]: "omap_wf m \<Longrightarrow> omap_wf (omap_put k v m)"
proof (induction k v m rule: omap_put.induct)
  case (2 k v k' v' m)
  have keys: "set (map fst (omap_put k v m)) = insert k (fst ` set m)"
    using keys_omap_put [of k v m] by simp
  show ?case
  proof (cases "k' < k")
    case True
    with 2 have "omap_wf (omap_put k v m)" by (auto simp: omap_wf_def)
    moreover have "\<forall>x\<in>set (map fst (omap_put k v m)). k' < x"
      using "2.prems" True unfolding keys by (auto simp: omap_wf_def)
    ultimately show ?thesis using True by (auto simp: omap_wf_def)
  next
    case False
    with "2.prems" show ?thesis by (auto simp: omap_wf_def)
  qed
qed (simp add: omap_wf_def)

lemma omap_wf_distinct: "omap_wf m \<Longrightarrow> distinct (map fst m)"
  by (simp add: omap_wf_def strict_sorted_iff)

section \<open>The contract\<close>

locale key_value_store =
  fixes put :: "'k \<Rightarrow> 'v \<Rightarrow> 'm \<Rightarrow> 'm"
    and look :: "'m \<Rightarrow> 'k \<Rightarrow> 'v option"
    and invar :: "'m \<Rightarrow> bool"
  assumes look_put: "look (put k v m) = (look m)(k \<mapsto> v)"
    and invar_put: "invar m \<Longrightarrow> invar (put k v m)"
begin

definition put_all :: "('k \<times> 'v) list \<Rightarrow> 'm \<Rightarrow> 'm" where
  "put_all kvs m = fold (\<lambda>(k, v). put k v) kvs m"

lemma look_put_all: "look (put_all kvs m) = look m ++ map_of (rev kvs)"
proof (induction kvs arbitrary: m)
  case Nil
  then show ?case by (simp add: put_all_def)
next
  case (Cons kv kvs)
  obtain k v where kv: "kv = (k, v)" by fastforce
  have "look (put_all (kv # kvs) m) = look (put_all kvs (put k v m))"
    by (simp add: put_all_def kv)
  also have "\<dots> = (look m)(k \<mapsto> v) ++ map_of (rev kvs)"
    by (simp only: Cons.IH look_put)
  finally show ?case by (simp add: kv fun_eq_iff map_add_def split: option.splits)
qed

lemma invar_put_all: "invar m \<Longrightarrow> invar (put_all kvs m)"
  by (induction kvs arbitrary: m) (auto simp: put_all_def invar_put split: prod.splits)

lemma put_other: "k \<noteq> k' \<Longrightarrow> look (put k v m) k' = look m k'"
  by (simp add: look_put)

end

interpretation omap: key_value_store omap_put map_of omap_wf
  by unfold_locales simp_all

end
