(* ===== verification/Json_Value.thy ===== *)
theory Json_Value
  imports Types Std_Map
begin

text \<open>
  JSON values, as the sources build and inspect them through \<^verbatim>\<open>nlohmann::json\<close>.
  The value type and the member operations (\<^verbatim>\<open>contains\<close>, \<^verbatim>\<open>[]\<close>,
  initialiser lists) are data; parsing, printing and the numeric conversions of the library
  are a parameter of every definition that uses them, collected in the record \<open>json_lib\<close>.
  An exception of the library is \<open>Inl\<close> of its message.
\<close>

section \<open>Values\<close>

datatype json =
    JNull
  | JBool bool
  | JInt int
  | JUInt nat
  | JFloat double
  | JString string
  | JArray "json list"
  | JObject "(string \<times> json) list"

fun j_members :: "json \<Rightarrow> (string \<times> json) list" where
  "j_members (JObject m) = m"
| "j_members _ = []"

definition j_contains :: "json \<Rightarrow> string \<Rightarrow> bool" where
  "j_contains j k \<longleftrightarrow> map_of (j_members j) k \<noteq> None"

definition j_at :: "json \<Rightarrow> string \<Rightarrow> json" where
  "j_at j k = (case map_of (j_members j) k of None \<Rightarrow> JNull | Some v \<Rightarrow> v)"

text \<open>\<^verbatim>\<open>j[k] = v\<close>, and the conditional form the serialiser uses for optional members.\<close>

definition j_set :: "string \<Rightarrow> json \<Rightarrow> json \<Rightarrow> json" where
  "j_set k v j = JObject (omap_put k v (j_members j))"

definition j_object :: "(string \<times> json) list \<Rightarrow> json" where
  "j_object kvs = fold (\<lambda>(k, v). j_set k v) kvs (JObject [])"

definition j_set_opt :: "string \<Rightarrow> ('a \<Rightarrow> json) \<Rightarrow> 'a option \<Rightarrow> json \<Rightarrow> json" where
  "j_set_opt k enc x j = (case x of None \<Rightarrow> j | Some v \<Rightarrow> j_set k (enc v) j)"

fun j_is_string :: "json \<Rightarrow> bool" where
  "j_is_string (JString _) = True"
| "j_is_string _ = False"

fun j_is_integer :: "json \<Rightarrow> bool" where
  "j_is_integer (JInt _) = True"
| "j_is_integer (JUInt _) = True"
| "j_is_integer _ = False"

definition j_strings :: "string list \<Rightarrow> json" where
  "j_strings ss = JArray (map JString ss)"

lemma map_of_j_set [simp]: "map_of (j_members (j_set k v j)) = (map_of (j_members j))(k \<mapsto> v)"
  by (simp add: j_set_def)

lemma j_contains_set [simp]: "j_contains (j_set k v j) k' \<longleftrightarrow> k' = k \<or> j_contains j k'"
  by (auto simp: j_contains_def)

lemma j_at_set [simp]: "j_at (j_set k v j) k' = (if k' = k then v else j_at j k')"
  by (simp add: j_at_def)

lemma j_contains_Nil [simp]: "\<not> j_contains (JObject []) k" "\<not> j_contains JNull k"
  by (simp_all add: j_contains_def)

lemma j_contains_set_opt [simp]:
  "j_contains (j_set_opt k enc x j) k' \<longleftrightarrow> (k' = k \<and> x \<noteq> None) \<or> j_contains j k'"
  by (auto simp: j_set_opt_def split: option.splits)

lemma j_at_set_opt:
  "j_at (j_set_opt k enc x j) k' =
     (case x of None \<Rightarrow> j_at j k' | Some v \<Rightarrow> if k' = k then enc v else j_at j k')"
  by (simp add: j_set_opt_def split: option.splits)

text \<open>Building an object keeps its members sorted.\<close>

fun json_wf :: "json \<Rightarrow> bool" where
  "json_wf (JArray js) = (\<forall>j\<in>set js. json_wf j)"
| "json_wf (JObject m) = (omap_wf m \<and> (\<forall>kv\<in>set m. json_wf (snd kv)))"
| "json_wf _ = True"

lemma json_wf_members: "json_wf j \<Longrightarrow> json_wf (JObject (j_members j))"
  by (cases j) simp_all

lemma json_wf_set [intro]: "json_wf j \<Longrightarrow> json_wf v \<Longrightarrow> json_wf (j_set k v j)"
  using json_wf_members [of j] set_omap_put_subset [of k v "j_members j"]
  by (auto simp: j_set_def dest: subsetD)

lemma json_wf_set_opt [intro]:
  "json_wf j \<Longrightarrow> (\<And>v. json_wf (enc v)) \<Longrightarrow> json_wf (j_set_opt k enc x j)"
  by (auto simp: j_set_opt_def split: option.splits)

lemma json_wf_object [intro]:
  assumes "\<forall>kv\<in>set kvs. json_wf (snd kv)"
  shows "json_wf (j_object kvs)"
proof -
  have "json_wf j \<Longrightarrow> \<forall>kv\<in>set kvs. json_wf (snd kv) \<Longrightarrow>
      json_wf (fold (\<lambda>(k, v). j_set k v) kvs j)" for j
  proof (induction kvs arbitrary: j)
    case (Cons kv kvs)
    then have "json_wf (j_set (fst kv) (snd kv) j)" by auto
    with Cons show ?case by (simp add: case_prod_unfold)
  qed simp
  then show ?thesis using assms by (simp add: j_object_def)
qed

lemma json_wf_strings [simp]: "json_wf (j_strings ss)"
  by (auto simp: j_strings_def)

section \<open>The library\<close>

text \<open>
  \<open>jl_parse c s\<close> is \<^verbatim>\<open>json::parse\<close> (\<open>c\<close>: comments are ignored);
  \<open>jl_dump\<close> is \<^verbatim>\<open>dump(indent)\<close> with the strict error handler, which throws
  on invalid UTF-8, and \<open>jl_dump_replace\<close> the same with the replacing handler; the
  getters are the \<^verbatim>\<open>get<T>()\<close> conversions.
\<close>

record json_lib =
  jl_parse :: "bool \<Rightarrow> string \<Rightarrow> string + json"
  jl_dump :: "int \<Rightarrow> json \<Rightarrow> string + string"
  jl_dump_replace :: "int \<Rightarrow> json \<Rightarrow> string + string"
  get_string :: "json \<Rightarrow> string + string"
  get_bool :: "json \<Rightarrow> string + bool"
  get_int :: "json \<Rightarrow> string + i32"
  get_u8 :: "json \<Rightarrow> string + u8"
  get_u32 :: "json \<Rightarrow> string + u32"
  get_u64 :: "json \<Rightarrow> string + u64"
  get_double :: "json \<Rightarrow> string + double"
  get_strings :: "json \<Rightarrow> string + string list"

text \<open>
  What the library documents of the conversions: a value of the requested kind is returned as
  it is, and a number is converted to a narrower integer type as \<^verbatim>\<open>static_cast\<close>
  does, without a range check.
\<close>

definition json_conversions :: "json_lib \<Rightarrow> bool" where
  "json_conversions J \<longleftrightarrow>
     (\<forall>s. get_string J (JString s) = Inr s) \<and>
     (\<forall>b. get_bool J (JBool b) = Inr b) \<and>
     (\<forall>i. get_int J (JInt i) = Inr (word_of_int i)) \<and>
     (\<forall>n. get_int J (JUInt n) = Inr (of_nat n)) \<and>
     (\<forall>n. get_u8 J (JUInt n) = Inr (of_nat n)) \<and>
     (\<forall>n. get_u32 J (JUInt n) = Inr (of_nat n)) \<and>
     (\<forall>n. get_u64 J (JUInt n) = Inr (of_nat n)) \<and>
     (\<forall>d. get_double J (JFloat d) = Inr d) \<and>
     (\<forall>ss. get_strings J (j_strings ss) = Inr ss)"

text \<open>
  The parser reads a number without sign and fraction as unsigned, so printing a value and
  parsing the text gives the value in which every non-negative integer is unsigned.  The
  hypothesis \<open>json_reparse\<close> states this of one value; a printed value with a non-finite
  number does not satisfy it, since the library prints such numbers as \<^verbatim>\<open>null\<close>.
\<close>

fun j_canon :: "json \<Rightarrow> json" where
  "j_canon (JInt i) = (if 0 \<le> i then JUInt (nat i) else JInt i)"
| "j_canon (JArray js) = JArray (map j_canon js)"
| "j_canon (JObject m) = JObject (map (\<lambda>(k, v). (k, j_canon v)) m)"
| "j_canon j = j"

definition json_reparse :: "json_lib \<Rightarrow> int \<Rightarrow> json \<Rightarrow> bool" where
  "json_reparse J indent j \<longleftrightarrow>
     (\<forall>s c. jl_dump J indent j = Inr s \<longrightarrow> jl_parse J c s = Inr (j_canon j))"

lemma j_members_canon: "j_members (j_canon j) = map (\<lambda>(k, v). (k, j_canon v)) (j_members j)"
  by (cases j) simp_all

lemma j_contains_canon [simp]: "j_contains (j_canon j) k = j_contains j k"
  by (simp add: j_contains_def j_members_canon map_of_map)

lemma j_at_canon [simp]: "j_at (j_canon j) k = j_canon (j_at j k)"
  by (simp add: j_at_def j_members_canon map_of_map split: option.splits)

lemma j_canon_strings [simp]: "j_canon (j_strings ss) = j_strings ss"
  by (simp add: j_strings_def)

section \<open>Reading optional members\<close>

text \<open>
  \<^verbatim>\<open>if (j.contains(k)) x = j[k].get<T>();\<close> as one step on the state \<open>x\<close>
  belongs to, and a sequence of such steps, which stops at the first exception.
\<close>

definition jfield ::
  "json \<Rightarrow> string \<Rightarrow> (json \<Rightarrow> string + 'a) \<Rightarrow> ('a \<Rightarrow> 'c \<Rightarrow> 'c) \<Rightarrow> 'c \<Rightarrow> string + 'c" where
  "jfield j k get upd c =
     (if j_contains j k then bind_ex (get (j_at j k)) (\<lambda>v. Inr (upd v c)) else Inr c)"

fun run_steps :: "('c \<Rightarrow> string + 'c) list \<Rightarrow> 'c \<Rightarrow> string + 'c" where
  "run_steps [] c = Inr c"
| "run_steps (f # fs) c = bind_ex (f c) (run_steps fs)"

lemma jfield_absent: "\<not> j_contains j k \<Longrightarrow> jfield j k get upd c = Inr c"
  by (simp add: jfield_def)

lemma jfield_present:
  "j_contains j k \<Longrightarrow> get (j_at j k) = Inr v \<Longrightarrow> jfield j k get upd c = Inr (upd v c)"
  by (simp add: jfield_def)

lemma jfield_error:
  "j_contains j k \<Longrightarrow> get (j_at j k) = Inl e \<Longrightarrow> jfield j k get upd c = Inl e"
  by (simp add: jfield_def)

lemma run_steps_append:
  "run_steps (fs @ gs) c = bind_ex (run_steps fs c) (run_steps gs)"
proof (induction fs arbitrary: c)
  case (Cons f fs)
  then show ?case by (cases "f c") simp_all
qed simp

end
