(* ===== verification/Config.thy ===== *)
theory Config
  imports Json_Value
begin

text \<open>
  The configuration component, \<^verbatim>\<open>inc/config.hpp\<close> and
  \<^verbatim>\<open>src/config.cpp\<close>: the \<open>Thresholds\<close> and \<open>Config\<close> structs with their
  defaults, \<open>load\<close>, \<open>load_or_default\<close>, \<open>validate\<close> and \<open>to_json_string\<close>.
\<close>

section \<open>Structs and defaults\<close>

record thresholds =
  cpu_load_warn :: u8
  cpu_load_crit :: u8
  mem_used_warn :: u8
  mem_used_crit :: u8
  disk_used_warn :: u8
  disk_used_crit :: u8
  temp_warn_c :: double
  temp_crit_c :: double
  service_restart_warn :: u32
  service_restart_crit :: u32
  boot_fail_warn :: u32
  boot_fail_crit :: u32
  ptp_offset_warn_ns :: u32
  ptp_offset_crit_ns :: u32
  rtc_voltage_warn_mv :: u32
  rtc_voltage_crit_mv :: u32

definition thresholds_default :: thresholds where
  "thresholds_default = \<lparr>cpu_load_warn = 80, cpu_load_crit = 95, mem_used_warn = 80,
     mem_used_crit = 95, disk_used_warn = 80, disk_used_crit = 95, temp_warn_c = Fin 70,
     temp_crit_c = Fin 85, service_restart_warn = 3, service_restart_crit = 10,
     boot_fail_warn = 1, boot_fail_crit = 3, ptp_offset_warn_ns = 10000,
     ptp_offset_crit_ns = 100000, rtc_voltage_warn_mv = 2700, rtc_voltage_crit_mv = 2500\<rparr>"

text \<open>The log-excerpt members of \<open>Config\<close>, which the file format groups in one object.\<close>

record log_excerpt_cfg =
  log_excerpt_max_lines :: u32
  log_excerpt_min_priority :: "int option"
  log_excerpt_window_sec :: "u64 option"
  journal_scan_timeout :: int
  journal_buffer_max_entries :: u32

definition log_excerpt_default :: log_excerpt_cfg where
  "log_excerpt_default = \<lparr>log_excerpt_max_lines = 20, log_excerpt_min_priority = None,
     log_excerpt_window_sec = None, journal_scan_timeout = 3000,
     journal_buffer_max_entries = 1000\<rparr>"

record config =
  cfg_device_id :: string
  cfg_platform :: string
  snapshot_file :: path
  state_dir :: path
  config_file :: path
  collect_interval :: seconds
  sample_window_sec :: u32
  time_sync_interval :: seconds
  update_check_interval :: seconds
  trigger_min_interval :: seconds
  monitored_services :: "string list"
  monitored_mounts :: "string list"
  monitored_interfaces :: "string list"
  enable_ntp :: bool
  enable_ptp :: bool
  enable_rtc :: bool
  rtc_device :: path
  enable_thermal :: bool
  enable_update_tracking :: bool
  cfg_thresholds :: thresholds
  dbus_timeout :: int
  foreground :: bool
  log_level :: string
  verbose :: bool
  log_excerpt :: log_excerpt_cfg

definition config_defaults :: config where
  "config_defaults = \<lparr>cfg_device_id = '''', cfg_platform = '''',
     snapshot_file = ''/run/health/state.json'', state_dir = ''/data/edge/health'',
     config_file = ''/etc/edge/healthd.conf'', collect_interval = 60, sample_window_sec = 60,
     time_sync_interval = 300, update_check_interval = 1800, trigger_min_interval = 5,
     monitored_services = [''sshd.socket'', ''NetworkManager.service''],
     monitored_mounts = [''/'', ''/data''], monitored_interfaces = [''eth0'', ''eth1''],
     enable_ntp = True, enable_ptp = False, enable_rtc = True,
     rtc_device = ''/sys/class/rtc/rtc0'', enable_thermal = True, enable_update_tracking = True,
     cfg_thresholds = thresholds_default, dbus_timeout = 2000, foreground = False,
     log_level = ''info'', verbose = False, log_excerpt = log_excerpt_default\<rparr>"

section \<open>Loading\<close>

definition normalize_log_level :: "string \<Rightarrow> string" where
  "normalize_log_level level = map to_lower level"

definition is_valid_log_level :: "string \<Rightarrow> bool" where
  "is_valid_log_level level \<longleftrightarrow>
     level = ''debug'' \<or> level = ''info'' \<or> level = ''warn'' \<or> level = ''error''"

definition priority_from_string :: "string \<Rightarrow> int" where
  "priority_from_string p = (let s = map to_lower p in
     if s = ''emerg'' \<or> s = ''panic'' then 0
     else if s = ''alert'' then 1
     else if s = ''crit'' \<or> s = ''critical'' then 2
     else if s = ''err'' \<or> s = ''error'' then 3
     else if s = ''warning'' \<or> s = ''warn'' then 4
     else if s = ''notice'' then 5
     else if s = ''info'' \<or> s = ''informational'' then 6
     else if s = ''debug'' then 7
     else - 1)"

text \<open>\<^verbatim>\<open>std::chrono::seconds(json[k].get<int>())\<close>.\<close>

definition get_count :: "json_lib \<Rightarrow> json \<Rightarrow> string + int" where
  "get_count J j = bind_ex (get_int J j) (\<lambda>w. Inr (sint w))"

definition load_min_priority :: "json_lib \<Rightarrow> json \<Rightarrow> log_excerpt_cfg \<Rightarrow> string + log_excerpt_cfg"
where
  "load_min_priority J le c =
     (if \<not> j_contains le ''min_priority'' then Inr c
      else let m = j_at le ''min_priority'' in
        if j_is_string m then
          bind_ex (get_string J m) (\<lambda>s. let v = priority_from_string s in
            Inr (if 0 \<le> v then c\<lparr>log_excerpt_min_priority := Some v\<rparr> else c))
        else if j_is_integer m then
          bind_ex (get_count J m) (\<lambda>v.
            Inr (if 0 \<le> v \<and> v \<le> 7 then c\<lparr>log_excerpt_min_priority := Some v\<rparr> else c))
        else Inr c)"

definition load_log_excerpt :: "json_lib \<Rightarrow> json \<Rightarrow> log_excerpt_cfg \<Rightarrow> string + log_excerpt_cfg"
where
  "load_log_excerpt J le = run_steps
     [jfield le ''max_lines'' (get_u32 J) (\<lambda>v c. c\<lparr>log_excerpt_max_lines := v\<rparr>),
      load_min_priority J le,
      jfield le ''window_sec'' (get_u64 J) (\<lambda>v c. c\<lparr>log_excerpt_window_sec := Some v\<rparr>),
      jfield le ''scan_timeout_ms'' (get_count J) (\<lambda>v c. c\<lparr>journal_scan_timeout := v\<rparr>),
      jfield le ''buffer_max_entries'' (get_u32 J)
        (\<lambda>v c. c\<lparr>journal_buffer_max_entries := v\<rparr>)]"

definition load_thresholds :: "json_lib \<Rightarrow> json \<Rightarrow> thresholds \<Rightarrow> string + thresholds" where
  "load_thresholds J t = run_steps
     [jfield t ''cpu_load_warn'' (get_u8 J) (\<lambda>v c. c\<lparr>cpu_load_warn := v\<rparr>),
      jfield t ''cpu_load_crit'' (get_u8 J) (\<lambda>v c. c\<lparr>cpu_load_crit := v\<rparr>),
      jfield t ''mem_used_warn'' (get_u8 J) (\<lambda>v c. c\<lparr>mem_used_warn := v\<rparr>),
      jfield t ''mem_used_crit'' (get_u8 J) (\<lambda>v c. c\<lparr>mem_used_crit := v\<rparr>),
      jfield t ''disk_used_warn'' (get_u8 J) (\<lambda>v c. c\<lparr>disk_used_warn := v\<rparr>),
      jfield t ''disk_used_crit'' (get_u8 J) (\<lambda>v c. c\<lparr>disk_used_crit := v\<rparr>),
      jfield t ''temp_warn_c'' (get_double J) (\<lambda>v c. c\<lparr>temp_warn_c := v\<rparr>),
      jfield t ''temp_crit_c'' (get_double J) (\<lambda>v c. c\<lparr>temp_crit_c := v\<rparr>),
      jfield t ''service_restart_warn'' (get_u32 J) (\<lambda>v c. c\<lparr>service_restart_warn := v\<rparr>),
      jfield t ''service_restart_crit'' (get_u32 J) (\<lambda>v c. c\<lparr>service_restart_crit := v\<rparr>),
      jfield t ''boot_fail_warn'' (get_u32 J) (\<lambda>v c. c\<lparr>boot_fail_warn := v\<rparr>),
      jfield t ''boot_fail_crit'' (get_u32 J) (\<lambda>v c. c\<lparr>boot_fail_crit := v\<rparr>),
      jfield t ''ptp_offset_warn_ns'' (get_u32 J) (\<lambda>v c. c\<lparr>ptp_offset_warn_ns := v\<rparr>),
      jfield t ''ptp_offset_crit_ns'' (get_u32 J) (\<lambda>v c. c\<lparr>ptp_offset_crit_ns := v\<rparr>),
      jfield t ''rtc_voltage_warn_mv'' (get_u32 J) (\<lambda>v c. c\<lparr>rtc_voltage_warn_mv := v\<rparr>),
      jfield t ''rtc_voltage_crit_mv'' (get_u32 J) (\<lambda>v c. c\<lparr>rtc_voltage_crit_mv := v\<rparr>)]"

text \<open>The identity, path, interval, item and flag members, in the order of the source.\<close>

definition load_scalars :: "json_lib \<Rightarrow> json \<Rightarrow> config \<Rightarrow> string + config" where
  "load_scalars J j = run_steps
     [jfield j ''device_id'' (get_string J) (\<lambda>v c. c\<lparr>cfg_device_id := v\<rparr>),
      jfield j ''platform'' (get_string J) (\<lambda>v c. c\<lparr>cfg_platform := v\<rparr>),
      jfield j ''snapshot_file'' (get_string J) (\<lambda>v c. c\<lparr>snapshot_file := v\<rparr>),
      jfield j ''state_dir'' (get_string J) (\<lambda>v c. c\<lparr>state_dir := v\<rparr>),
      jfield j ''collect_interval_sec'' (get_count J) (\<lambda>v c. c\<lparr>collect_interval := v\<rparr>),
      jfield j ''sample_window_sec'' (get_u32 J) (\<lambda>v c. c\<lparr>sample_window_sec := v\<rparr>),
      jfield j ''time_sync_interval_sec'' (get_count J) (\<lambda>v c. c\<lparr>time_sync_interval := v\<rparr>),
      jfield j ''update_check_interval_sec'' (get_count J)
        (\<lambda>v c. c\<lparr>update_check_interval := v\<rparr>),
      jfield j ''trigger_min_interval_sec'' (get_count J)
        (\<lambda>v c. c\<lparr>trigger_min_interval := v\<rparr>),
      jfield j ''monitored_services'' (get_strings J) (\<lambda>v c. c\<lparr>monitored_services := v\<rparr>),
      jfield j ''monitored_mounts'' (get_strings J) (\<lambda>v c. c\<lparr>monitored_mounts := v\<rparr>),
      jfield j ''monitored_interfaces'' (get_strings J) (\<lambda>v c. c\<lparr>monitored_interfaces := v\<rparr>),
      jfield j ''enable_ntp'' (get_bool J) (\<lambda>v c. c\<lparr>enable_ntp := v\<rparr>),
      jfield j ''enable_ptp'' (get_bool J) (\<lambda>v c. c\<lparr>enable_ptp := v\<rparr>),
      jfield j ''enable_rtc'' (get_bool J) (\<lambda>v c. c\<lparr>enable_rtc := v\<rparr>),
      jfield j ''rtc_device'' (get_string J) (\<lambda>v c. c\<lparr>rtc_device := v\<rparr>),
      jfield j ''enable_thermal'' (get_bool J) (\<lambda>v c. c\<lparr>enable_thermal := v\<rparr>),
      jfield j ''enable_update_tracking'' (get_bool J) (\<lambda>v c. c\<lparr>enable_update_tracking := v\<rparr>),
      jfield j ''log_level'' (get_string J) (\<lambda>v c. c\<lparr>log_level := normalize_log_level v\<rparr>),
      jfield j ''dbus_timeout_ms'' (get_count J) (\<lambda>v c. c\<lparr>dbus_timeout := v\<rparr>)]"

definition load_nested ::
  "json \<Rightarrow> string \<Rightarrow> (json \<Rightarrow> 's \<Rightarrow> string + 's) \<Rightarrow> ('c \<Rightarrow> 's) \<Rightarrow> ('s \<Rightarrow> 'c \<Rightarrow> 'c) \<Rightarrow> 'c \<Rightarrow> string + 'c"
where
  "load_nested j k ld sel upd c =
     (if j_contains j k then bind_ex (ld (j_at j k) (sel c)) (\<lambda>s. Inr (upd s c)) else Inr c)"

definition load_json :: "json_lib \<Rightarrow> json \<Rightarrow> string + config" where
  "load_json J j = run_steps
     [load_scalars J j,
      load_nested j ''log_excerpt'' (load_log_excerpt J) log_excerpt (\<lambda>s c. c\<lparr>log_excerpt := s\<rparr>),
      load_nested j ''thresholds'' (load_thresholds J) cfg_thresholds
        (\<lambda>s c. c\<lparr>cfg_thresholds := s\<rparr>)]
     config_defaults"

text \<open>
  \<^verbatim>\<open>Config::load\<close>: the argument \<open>file\<close> is the content of the file, \<open>None\<close>
  when it cannot be opened.
\<close>

definition config_load :: "json_lib \<Rightarrow> path \<Rightarrow> string option \<Rightarrow> string + config" where
  "config_load J p file =
     (case file of
        None \<Rightarrow> Inl (''Cannot open config file: '' @ p)
      | Some s \<Rightarrow> bind_ex (jl_parse J True s) (load_json J))"

definition load_or_default :: "json_lib \<Rightarrow> path \<Rightarrow> bool \<Rightarrow> string option \<Rightarrow> config" where
  "load_or_default J p path_exists file =
     (if path_exists then (case config_load J p file of Inr c \<Rightarrow> c | Inl _ \<Rightarrow> config_defaults)
      else config_defaults)"

section \<open>Validation\<close>

definition validate :: "config \<Rightarrow> string option" where
  "validate c = (let t = cfg_thresholds c; le = log_excerpt c in
     if collect_interval c < 1 then Some ''collect_interval must be at least 1 second''
     else if time_sync_interval c < 1 then Some ''time_sync_interval_sec must be at least 1''
     else if update_check_interval c < 1 then Some ''update_check_interval_sec must be at least 1''
     else if trigger_min_interval c < 0 then
       Some ''trigger_min_interval_sec must be >= 0 (0 disables rate-limiting)''
     else if \<not> is_valid_log_level (log_level c) then
       Some ''log_level must be one of: debug, info, warn, error''
     else if dbus_timeout c < 1 then Some ''dbus_timeout_ms must be at least 1''
     else if log_excerpt_max_lines le = 0 \<or> log_excerpt_max_lines le > 1000 then
       Some ''log_excerpt.max_lines must be between 1 and 1000''
     else if journal_scan_timeout le < 100 then
       Some ''log_excerpt.scan_timeout_ms must be at least 100''
     else if journal_buffer_max_entries le > 100000 then
       Some ''log_excerpt.buffer_max_entries must be at most 100000''
     else if cpu_load_warn t \<ge> cpu_load_crit t then
       Some ''cpu_load_warn must be less than cpu_load_crit''
     else if mem_used_warn t \<ge> mem_used_crit t then
       Some ''mem_used_warn must be less than mem_used_crit''
     else if disk_used_warn t \<ge> disk_used_crit t then
       Some ''disk_used_warn must be less than disk_used_crit''
     else if d_ge (temp_warn_c t) (temp_crit_c t) then
       Some ''temp_warn_c must be less than temp_crit_c''
     else None)"

section \<open>Printing\<close>

definition thresholds_json :: "thresholds \<Rightarrow> json" where
  "thresholds_json t = j_object
     [(''cpu_load_warn'', JUInt (unat (cpu_load_warn t))),
      (''cpu_load_crit'', JUInt (unat (cpu_load_crit t))),
      (''mem_used_warn'', JUInt (unat (mem_used_warn t))),
      (''mem_used_crit'', JUInt (unat (mem_used_crit t))),
      (''disk_used_warn'', JUInt (unat (disk_used_warn t))),
      (''disk_used_crit'', JUInt (unat (disk_used_crit t))),
      (''temp_warn_c'', JFloat (temp_warn_c t)),
      (''temp_crit_c'', JFloat (temp_crit_c t)),
      (''service_restart_warn'', JUInt (unat (service_restart_warn t))),
      (''service_restart_crit'', JUInt (unat (service_restart_crit t))),
      (''boot_fail_warn'', JUInt (unat (boot_fail_warn t))),
      (''boot_fail_crit'', JUInt (unat (boot_fail_crit t))),
      (''ptp_offset_warn_ns'', JUInt (unat (ptp_offset_warn_ns t))),
      (''ptp_offset_crit_ns'', JUInt (unat (ptp_offset_crit_ns t))),
      (''rtc_voltage_warn_mv'', JUInt (unat (rtc_voltage_warn_mv t))),
      (''rtc_voltage_crit_mv'', JUInt (unat (rtc_voltage_crit_mv t)))]"

definition log_excerpt_json :: "log_excerpt_cfg \<Rightarrow> json" where
  "log_excerpt_json le =
     j_set ''buffer_max_entries'' (JUInt (unat (journal_buffer_max_entries le)))
     (j_set ''scan_timeout_ms'' (JInt (journal_scan_timeout le))
     (j_set_opt ''window_sec'' (\<lambda>w. JUInt (unat w)) (log_excerpt_window_sec le)
     (j_set_opt ''min_priority'' JInt (log_excerpt_min_priority le)
     (j_set ''max_lines'' (JUInt (unat (log_excerpt_max_lines le))) JNull))))"

definition config_json :: "config \<Rightarrow> json" where
  "config_json c = j_object
     [(''device_id'', JString (cfg_device_id c)),
      (''platform'', JString (cfg_platform c)),
      (''snapshot_file'', JString (snapshot_file c)),
      (''state_dir'', JString (state_dir c)),
      (''collect_interval_sec'', JInt (collect_interval c)),
      (''sample_window_sec'', JUInt (unat (sample_window_sec c))),
      (''time_sync_interval_sec'', JInt (time_sync_interval c)),
      (''update_check_interval_sec'', JInt (update_check_interval c)),
      (''trigger_min_interval_sec'', JInt (trigger_min_interval c)),
      (''log_level'', JString (log_level c)),
      (''dbus_timeout_ms'', JInt (dbus_timeout c)),
      (''monitored_services'', j_strings (monitored_services c)),
      (''monitored_mounts'', j_strings (monitored_mounts c)),
      (''monitored_interfaces'', j_strings (monitored_interfaces c)),
      (''enable_ntp'', JBool (enable_ntp c)),
      (''enable_ptp'', JBool (enable_ptp c)),
      (''enable_rtc'', JBool (enable_rtc c)),
      (''rtc_device'', JString (rtc_device c)),
      (''enable_thermal'', JBool (enable_thermal c)),
      (''enable_update_tracking'', JBool (enable_update_tracking c)),
      (''thresholds'', thresholds_json (cfg_thresholds c)),
      (''log_excerpt'', log_excerpt_json (log_excerpt c))]"

definition to_json_string :: "json_lib \<Rightarrow> int \<Rightarrow> config \<Rightarrow> string + string" where
  "to_json_string J indent c = jl_dump J indent (config_json c)"


section \<open>Correctness of validation\<close>

text \<open>What an accepted configuration satisfies, as one predicate.\<close>

definition thresholds_ordered :: "thresholds \<Rightarrow> bool" where
  "thresholds_ordered t \<longleftrightarrow> cpu_load_warn t < cpu_load_crit t \<and> mem_used_warn t < mem_used_crit t
     \<and> disk_used_warn t < disk_used_crit t \<and> \<not> d_ge (temp_warn_c t) (temp_crit_c t)"

definition config_valid :: "config \<Rightarrow> bool" where
  "config_valid c \<longleftrightarrow> 1 \<le> collect_interval c \<and> 1 \<le> time_sync_interval c
     \<and> 1 \<le> update_check_interval c \<and> 0 \<le> trigger_min_interval c
     \<and> log_level c \<in> {''debug'', ''info'', ''warn'', ''error''} \<and> 1 \<le> dbus_timeout c
     \<and> 1 \<le> unat (log_excerpt_max_lines (log_excerpt c))
     \<and> unat (log_excerpt_max_lines (log_excerpt c)) \<le> 1000
     \<and> 100 \<le> journal_scan_timeout (log_excerpt c)
     \<and> unat (journal_buffer_max_entries (log_excerpt c)) \<le> 100000
     \<and> thresholds_ordered (cfg_thresholds c)"

lemma if_Some_eq_None: "(if A then Some x else r) = None \<longleftrightarrow> \<not> A \<and> r = None"
  by simp

lemma max_lines_iff: "w = 0 \<or> w > (1000 :: u32) \<longleftrightarrow> \<not> (1 \<le> unat w \<and> unat w \<le> 1000)"
  by (auto simp: word_less_nat_alt unat_eq_0 not_less Suc_le_eq unat_gt_0)

lemma buffer_cap_iff: "w > (100000 :: u32) \<longleftrightarrow> \<not> unat w \<le> 100000"
  by (simp add: word_less_nat_alt not_le)

lemma validate_iff: "validate c = None \<longleftrightarrow> config_valid c"
  unfolding validate_def config_valid_def thresholds_ordered_def Let_def if_Some_eq_None
    max_lines_iff buffer_cap_iff is_valid_log_level_def
  by (simp only: not_less not_le not_not insert_iff empty_iff simp_thms conj_assoc)

lemma validate_defaults: "validate config_defaults = None"
  by (simp add: validate_def config_defaults_def thresholds_default_def log_excerpt_default_def
      is_valid_log_level_def)

section \<open>Printing and loading again\<close>

definition fits_int :: "int \<Rightarrow> bool" where
  "fits_int i \<longleftrightarrow> - (2 ^ 31) \<le> i \<and> i < 2 ^ 31"

lemma get_count_canon:
  assumes "json_conversions J" and "fits_int i"
  shows "get_count J (j_canon (JInt i)) = Inr i"
proof -
  have "get_int J (j_canon (JInt i)) = Inr (word_of_int i)"
    using assms by (auto simp: json_conversions_def)
  then show ?thesis
    using assms by (simp add: get_count_def fits_int_def sint_word_of_int_small del: j_canon.simps)
qed

lemma get_words:
  assumes "json_conversions J"
  shows "get_u8 J (JUInt (unat (w8 :: u8))) = Inr w8"
    and "get_u32 J (JUInt (unat (w32 :: u32))) = Inr w32"
    and "get_u64 J (JUInt (unat (w64 :: u64))) = Inr w64"
  using assms by (simp_all add: json_conversions_def)

lemma get_plain:
  assumes "json_conversions J"
  shows "get_string J (JString s) = Inr s" and "get_bool J (JBool b) = Inr b"
    and "get_double J (JFloat d) = Inr d" and "get_strings J (j_strings ss) = Inr ss"
  using assms by (simp_all add: json_conversions_def)

lemmas get_simps = get_words get_plain get_count_canon

lemma load_thresholds_json:
  "json_conversions J \<Longrightarrow> load_thresholds J (j_canon (thresholds_json t)) t0 = Inr t"
  by (simp add: load_thresholds_def thresholds_json_def j_object_def jfield_def get_simps)

definition le_printable :: "log_excerpt_cfg \<Rightarrow> bool" where
  "le_printable le \<longleftrightarrow> fits_int (journal_scan_timeout le) \<and>
     (case log_excerpt_min_priority le of None \<Rightarrow> True | Some p \<Rightarrow> 0 \<le> p \<and> p \<le> 7)"

lemma load_log_excerpt_json:
  assumes J: "json_conversions J" and le: "le_printable le"
  shows "load_log_excerpt J (j_canon (log_excerpt_json le)) log_excerpt_default = Inr le"
proof -
  have prio: "get_count J (j_canon (JInt p)) = Inr p" if "0 \<le> p" "p \<le> 7" for p
    using J that by (intro get_count_canon) (simp_all add: fits_int_def)
  have int: "j_is_integer (j_canon (JInt p))" "\<not> j_is_string (j_canon (JInt p))" for p by simp_all
  show ?thesis
    using le J prio int
    by (cases "log_excerpt_min_priority le"; cases "log_excerpt_window_sec le")
       (simp_all add: load_log_excerpt_def log_excerpt_json_def jfield_def j_at_set_opt
          load_min_priority_def le_printable_def get_simps log_excerpt_default_def
          del: j_canon.simps(1))
qed

lemma load_scalars_json:
  assumes J: "json_conversions J"
    and fits: "fits_int (collect_interval c)" "fits_int (time_sync_interval c)"
      "fits_int (update_check_interval c)" "fits_int (trigger_min_interval c)"
      "fits_int (dbus_timeout c)"
    and level: "normalize_log_level (log_level c) = log_level c"
  shows "load_scalars J (j_canon (config_json c)) d =
     Inr (c\<lparr>config_file := config_file d, foreground := foreground d, verbose := verbose d,
            cfg_thresholds := cfg_thresholds d, log_excerpt := log_excerpt d\<rparr>)"
  using assms
  by (simp add: load_scalars_def config_json_def j_object_def jfield_def get_simps
      del: j_canon.simps(1))

lemma valid_log_level_normal:
  "is_valid_log_level l \<Longrightarrow> normalize_log_level l = l"
  by (auto simp: is_valid_log_level_def normalize_log_level_def to_lower_def)

text \<open>
  The configurations the file format can carry: the intervals fit \<^verbatim>\<open>int\<close>, a
  minimum priority is a syslog priority, and the three members that only the command line
  sets have their defaults.
\<close>

definition config_printable :: "config \<Rightarrow> bool" where
  "config_printable c \<longleftrightarrow> fits_int (collect_interval c) \<and> fits_int (time_sync_interval c)
     \<and> fits_int (update_check_interval c) \<and> fits_int (trigger_min_interval c)
     \<and> fits_int (dbus_timeout c) \<and> le_printable (log_excerpt c)
     \<and> config_file c = config_file config_defaults \<and> \<not> foreground c \<and> \<not> verbose c"

lemma load_config_json:
  assumes J: "json_conversions J" and valid: "validate c = None" and pr: "config_printable c"
  shows "load_json J (j_canon (config_json c)) = Inr c"
proof -
  have level: "normalize_log_level (log_level c) = log_level c"
    using valid by (auto simp: validate_iff config_valid_def intro: valid_log_level_normal
        simp: is_valid_log_level_def)
  have nested: "j_contains (config_json c) ''thresholds''" "j_contains (config_json c) ''log_excerpt''"
      "j_at (config_json c) ''thresholds'' = thresholds_json (cfg_thresholds c)"
      "j_at (config_json c) ''log_excerpt'' = log_excerpt_json (log_excerpt c)"
    by (simp_all add: config_json_def j_object_def)
  have defaults: "foreground config_defaults = False" "verbose config_defaults = False"
      "log_excerpt config_defaults = log_excerpt_default"
    by (simp_all add: config_defaults_def)
  show ?thesis
    using pr level J
    by (simp add: load_json_def load_scalars_json load_nested_def nested load_thresholds_json
        load_log_excerpt_json config_printable_def defaults)
qed

section \<open>Errors and absent members\<close>

lemma run_steps_all_idle: "\<forall>f\<in>set fs. f c = Inr c \<Longrightarrow> run_steps fs c = Inr c"
  by (induction fs) simp_all

text \<open>A file that names none of the known members gives the defaults.\<close>

definition config_keys :: "string list" where
  "config_keys = map fst (j_members (config_json config_defaults))"

lemma load_json_no_members:
  assumes "\<And>k. k \<in> set config_keys \<Longrightarrow> \<not> j_contains j k"
  shows "load_json J j = Inr config_defaults"
proof -
  have none: "\<not> j_contains j k" if "map_of (j_members (config_json config_defaults)) k \<noteq> None" for k
    using assms that by (auto simp: config_keys_def map_of_eq_None_iff)
  have scal: "load_scalars J j c = Inr c" for c
    unfolding load_scalars_def
    by (rule run_steps_all_idle)
       (simp add: jfield_absent none config_json_def j_object_def)
  show ?thesis
    by (simp add: load_json_def scal load_nested_def none config_json_def j_object_def)
qed

lemma config_load_error_or_whole:
  "load_or_default J p e f = config_defaults \<or> config_load J p f = Inr (load_or_default J p e f)"
  by (auto simp: load_or_default_def split: sum.splits)

section \<open>Properties\<close>


text \<open>C25: printing an accepted configuration with \<open>to_json_string\<close> and loading the text gives the
  same configuration back, field by field.\<close>

theorem config_roundtrip:
  assumes "json_conversions J" and "json_reparse J indent (config_json c)"
    and "validate c = None" and "config_printable c"
    and "to_json_string J indent c = Inr s"
  shows "config_load J p (Some s) = Inr c"
  using assms load_config_json [of J c]
  by (simp add: config_load_def to_json_string_def json_reparse_def)

text \<open>The hypotheses hold for the default configuration and a library that knows its text.\<close>

definition sample_json_lib :: json_lib where
  "sample_json_lib = \<lparr>
     jl_parse = (\<lambda>c s. if s = ''defaults'' then Inr (j_canon (config_json config_defaults))
        else Inl ''parse_error''),
     jl_dump = (\<lambda>i j. if j = config_json config_defaults then Inr ''defaults''
        else Inl ''type_error''),
     jl_dump_replace = (\<lambda>i j. Inl ''type_error''),
     get_string = (\<lambda>j. case j of JString s \<Rightarrow> Inr s | _ \<Rightarrow> Inl ''type_error''),
     get_bool = (\<lambda>j. case j of JBool b \<Rightarrow> Inr b | _ \<Rightarrow> Inl ''type_error''),
     get_int = (\<lambda>j. case j of JInt i \<Rightarrow> Inr (word_of_int i) | JUInt n \<Rightarrow> Inr (of_nat n)
        | _ \<Rightarrow> Inl ''type_error''),
     get_u8 = (\<lambda>j. case j of JUInt n \<Rightarrow> Inr (of_nat n) | _ \<Rightarrow> Inl ''type_error''),
     get_u32 = (\<lambda>j. case j of JUInt n \<Rightarrow> Inr (of_nat n) | _ \<Rightarrow> Inl ''type_error''),
     get_u64 = (\<lambda>j. case j of JUInt n \<Rightarrow> Inr (of_nat n) | _ \<Rightarrow> Inl ''type_error''),
     get_double = (\<lambda>j. case j of JFloat d \<Rightarrow> Inr d | _ \<Rightarrow> Inl ''type_error''),
     get_strings = (\<lambda>j. case j of
        JArray js \<Rightarrow> Inr (map (\<lambda>x. case x of JString s \<Rightarrow> s | _ \<Rightarrow> '''') js)
      | _ \<Rightarrow> Inl ''type_error'')\<rparr>"

lemma sample_json_lib_conversions: "json_conversions sample_json_lib"
  by (simp add: json_conversions_def sample_json_lib_def j_strings_def comp_def)

lemma sample_json_lib_reparse: "json_reparse sample_json_lib indent (config_json config_defaults)"
  by (simp add: json_reparse_def sample_json_lib_def)

theorem config_roundtrip_witness:
  "config_load sample_json_lib ''healthd.conf'' (Some ''defaults'') = Inr config_defaults"
  by (rule config_roundtrip [OF sample_json_lib_conversions sample_json_lib_reparse
        validate_defaults])
     (simp_all add: config_printable_def config_defaults_def le_printable_def fits_int_def
        log_excerpt_default_def to_json_string_def sample_json_lib_def)

end
