(* ===== verification/Time_Format.thy ===== *)
theory Time_Format
  imports Prelude
begin

text \<open>
  Timestamps, \<open>format_time\<close> and \<open>parse_time\<close> of \<^verbatim>\<open>src/json.cpp\<close>, with the calendar
  functions of the C library they call: \<open>gmtime_r\<close> and \<open>timegm\<close> on the proleptic Gregorian calendar, and
  \<open>strptime\<close> on the one format the sources use, including its tolerance for blanks and for numbers
  without leading zeros.
\<close>

section \<open>The calendar\<close>

definition leap_year :: "int \<Rightarrow> bool" where
  "leap_year y \<longleftrightarrow> (4 dvd y \<and> \<not> 100 dvd y) \<or> 400 dvd y"

definition year_days :: "int \<Rightarrow> int" where
  "year_days y = (if leap_year y then 366 else 365)"

definition month_lengths :: "int \<Rightarrow> int list" where
  "month_lengths y = [31, if leap_year y then 29 else 28, 31, 30, 31, 30, 31, 31, 30, 31, 30, 31]"

text \<open>Days from 1970-01-01 to the first of January of year \<open>y\<close>.\<close>

definition days_before_year :: "int \<Rightarrow> int" where
  "days_before_year y =
     365 * (y - 1970) + ((y - 1) div 4 - 492) - ((y - 1) div 100 - 19) + ((y - 1) div 400 - 4)"

record tm =
  tm_year :: int
  tm_mon :: int
  tm_mday :: int
  tm_hour :: int
  tm_min :: int
  tm_sec :: int

lemma year_days_pos: "365 \<le> year_days y"
  by (simp add: year_days_def)

function year_up :: "int \<Rightarrow> int \<Rightarrow> int \<times> int" where
  "year_up y d = (if year_days y \<le> d then year_up (y + 1) (d - year_days y) else (y, d))"
  by pat_completeness auto
termination
proof (relation "measure (\<lambda>(y, d). nat d)", goal_cases)
  case (2 y d)
  then show ?case using year_days_pos [of y] by simp
qed simp

function year_down :: "int \<Rightarrow> int \<Rightarrow> int \<times> int" where
  "year_down y d = (if d < 0 then year_down (y - 1) (d + year_days (y - 1)) else (y, d))"
  by pat_completeness auto
termination
proof (relation "measure (\<lambda>(y, d). nat (- d))", goal_cases)
  case (2 y d)
  then show ?case using year_days_pos [of "y - 1"] by simp
qed simp

declare year_up.simps [simp del] year_down.simps [simp del]

fun month_split :: "int list \<Rightarrow> int \<Rightarrow> int \<Rightarrow> int \<times> int" where
  "month_split [] m d = (m, d)"
| "month_split (l # ls) m d = (if d < l then (m, d) else month_split ls (m + 1) (d - l))"

definition gmtime :: "int \<Rightarrow> tm" where
  "gmtime t =
     (let days = t div 86400; s = t mod 86400;
          (y, yd) = (if 0 \<le> days then year_up 1970 days else year_down 1970 days);
          (m, d) = month_split (month_lengths y) 0 yd
      in \<lparr>tm_year = y, tm_mon = m + 1, tm_mday = d + 1, tm_hour = s div 3600,
          tm_min = s mod 3600 div 60, tm_sec = s mod 60\<rparr>)"

definition timegm :: "tm \<Rightarrow> int" where
  "timegm x =
     (days_before_year (tm_year x) + sum_list (take (nat (tm_mon x - 1)) (month_lengths (tm_year x)))
        + (tm_mday x - 1)) * 86400 + tm_hour x * 3600 + tm_min x * 60 + tm_sec x"

section \<open>Formatting\<close>

text \<open>\<^verbatim>\<open>to_time_t\<close> truncates to whole seconds.\<close>

definition to_time_t :: "time_point \<Rightarrow> int" where
  "to_time_t tp = (if 0 \<le> tp then tp div ns_per_sec else - ((- tp) div ns_per_sec))"

definition from_time_t :: "int \<Rightarrow> time_point" where
  "from_time_t t = t * ns_per_sec"

definition pad2 :: "int \<Rightarrow> string" where
  "pad2 n = [digit_char (nat n div 10), digit_char (nat n mod 10)]"

definition format_time :: "time_point \<Rightarrow> string" where
  "format_time tp = (let x = gmtime (to_time_t tp) in
     show_int (tm_year x) @ ''-'' @ pad2 (tm_mon x) @ ''-'' @ pad2 (tm_mday x) @ ''T'' @
     pad2 (tm_hour x) @ '':'' @ pad2 (tm_min x) @ '':'' @ pad2 (tm_sec x) @ ''Z'')"

section \<open>Parsing\<close>

text \<open>
  \<open>strptime\<close>'s reader of a number between \<open>lo\<close> and \<open>hi\<close> of at most \<open>n\<close> digits: blanks are skipped, one
  digit is required, and further digits are taken while the number could still be in range.
\<close>

fun more_digits :: "nat \<Rightarrow> nat \<Rightarrow> nat \<Rightarrow> string \<Rightarrow> nat \<times> string" where
  "more_digits hi n v [] = (v, [])"
| "more_digits hi n v (c # cs) =
     (if 1 < n \<and> v * 10 \<le> hi \<and> is_digit c then more_digits hi (n - 1) (v * 10 + (of_char c - 48)) cs
      else (v, c # cs))"

definition get_number :: "nat \<Rightarrow> nat \<Rightarrow> nat \<Rightarrow> string \<Rightarrow> (int \<times> string) option" where
  "get_number lo hi n s =
     (case dropWhile (\<lambda>c. c = CHR '' '') s of
        [] \<Rightarrow> None
      | c # cs \<Rightarrow>
          if \<not> is_digit c then None
          else (let (v, rest) = more_digits hi n (of_char c - 48) cs
                in if v < lo \<or> hi < v then None else Some (int v, rest)))"

definition match_char :: "char \<Rightarrow> string \<Rightarrow> string option" where
  "match_char c s = (case s of [] \<Rightarrow> None | d # ds \<Rightarrow> if d = c then Some ds else None)"

definition number_then :: "nat \<Rightarrow> nat \<Rightarrow> nat \<Rightarrow> char \<Rightarrow> string \<Rightarrow> (int \<times> string) option" where
  "number_then lo hi n c s =
     Option.bind (get_number lo hi n s) (\<lambda>(v, r). map_option (Pair v) (match_char c r))"

definition strptime :: "string \<Rightarrow> (tm \<times> string) option" where
  "strptime s =
     Option.bind (number_then 0 9999 4 (CHR ''-'') s) (\<lambda>(y, s1).
     Option.bind (number_then 1 12 2 (CHR ''-'') s1) (\<lambda>(mo, s2).
     Option.bind (number_then 1 31 2 (CHR ''T'') s2) (\<lambda>(d, s3).
     Option.bind (number_then 0 23 2 (CHR '':'') s3) (\<lambda>(h, s4).
     Option.bind (number_then 0 59 2 (CHR '':'') s4) (\<lambda>(mi, s5).
     Option.bind (number_then 0 61 2 (CHR ''Z'') s5) (\<lambda>(se, s6).
       Some (\<lparr>tm_year = y, tm_mon = mo, tm_mday = d, tm_hour = h, tm_min = mi, tm_sec = se\<rparr>, s6)))))))"

definition c_str :: "string \<Rightarrow> string" where
  "c_str s = takeWhile (\<lambda>c. c \<noteq> CHR 0x00) s"

definition parse_time :: "string \<Rightarrow> time_point option" where
  "parse_time text =
     (case strptime (c_str text) of
        None \<Rightarrow> None
      | Some (x, rest) \<Rightarrow>
          if rest \<noteq> [] then None
          else let t = timegm x in if t = - 1 then None else Some (from_time_t t))"

section \<open>The calendar is consistent\<close>

lemma div_pred: "0 < k \<Longrightarrow> (y :: int) div k = (y - 1) div k + (if k dvd y then 1 else 0)"
proof -
  assume k: "0 < k"
  define q r where "q = y div k" and "r = y mod k"
  have y: "y = r + q * k" and r: "0 \<le> r" "r < k" using k by (simp_all add: q_def r_def)
  have dvd: "k dvd y \<longleftrightarrow> r = 0" by (simp add: r_def dvd_eq_mod_eq_0)
  have "(y - 1) div k = (if r = 0 then q - 1 else q)"
  proof (cases "r = 0")
    case True
    have "y - 1 = (k - 1) + (q - 1) * k" by (simp add: y True algebra_simps)
    then have "(y - 1) div k = (q - 1) + (k - 1) div k" using k by (simp only: div_mult_self1)
    then show ?thesis using k True by simp
  next
    case False
    have "y - 1 = (r - 1) + q * k" by (simp add: y)
    then have "(y - 1) div k = q + (r - 1) div k" using k by (simp only: div_mult_self1)
    then show ?thesis using k r False by simp
  qed
  then show ?thesis by (simp add: dvd q_def [symmetric])
qed

lemma leap_count:
  fixes y a4 a100 a400 :: int
  assumes "p100 \<Longrightarrow> p4" "p400 \<Longrightarrow> p100"
  shows "365 * (y + 1 - 1970) + (a4 + (if p4 then 1 else 0) - 492) - (a100 + (if p100 then 1 else 0) - 19)
      + (a400 + (if p400 then 1 else 0) - 4) =
    365 * (y - 1970) + (a4 - 492) - (a100 - 19) + (a400 - 4)
      + (if (p4 \<and> \<not> p100) \<or> p400 then 366 else 365)"
  using assms by auto

lemma days_before_year_Suc: "days_before_year (y + 1) = days_before_year y + year_days y"
proof -
  have "4 dvd y" if "100 dvd y" by (rule dvd_trans [OF _ that]) simp
  moreover have "100 dvd y" if "400 dvd y" by (rule dvd_trans [OF _ that]) simp
  moreover have "y + 1 - 1 = y" by simp
  ultimately show ?thesis
    unfolding days_before_year_def year_days_def leap_year_def
    using leap_count [of "100 dvd y" "4 dvd y" "400 dvd y" y "(y - 1) div 4" "(y - 1) div 100" "(y - 1) div 400"]
      div_pred [of 4 y] div_pred [of 100 y] div_pred [of 400 y] by presburger
qed

lemma days_before_1970: "days_before_year 1970 = 0"
  by (simp add: days_before_year_def)

lemma year_up_correct:
  "0 \<le> d \<Longrightarrow> year_up y d = (y', d') \<Longrightarrow>
     days_before_year y' + d' = days_before_year y + d \<and> 0 \<le> d' \<and> d' < year_days y' \<and> y \<le> y'"
proof (induction y d rule: year_up.induct)
  case (1 y d)
  then show ?case
    by (cases "year_days y \<le> d") (auto simp: year_up.simps [of y d] days_before_year_Suc)
qed

lemma year_down_correct:
  "year_down y d = (y', d') \<Longrightarrow> d < year_days y \<Longrightarrow>
     days_before_year y' + d' = days_before_year y + d \<and> 0 \<le> d' \<and> d' < year_days y'"
proof (induction y d rule: year_down.induct)
  case (1 y d)
  show ?case
  proof (cases "d < 0")
    case True
    with "1.prems" have "year_down (y - 1) (d + year_days (y - 1)) = (y', d')"
      by (simp add: year_down.simps [of y d])
    with "1.IH" True have "days_before_year y' + d' = days_before_year (y - 1) + (d + year_days (y - 1)) \<and>
        0 \<le> d' \<and> d' < year_days y'" by simp
    then show ?thesis using days_before_year_Suc [of "y - 1"] by simp
  next
    case False
    with "1.prems" show ?thesis by (simp add: year_down.simps [of y d])
  qed
qed

lemma month_split_correct:
  "0 \<le> d \<Longrightarrow> d < sum_list ls \<Longrightarrow> month_split ls m d = (m', d') \<Longrightarrow>
     m \<le> m' \<and> m' < m + int (length ls) \<and> 0 \<le> d' \<and> d' < ls ! nat (m' - m) \<and>
     sum_list (take (nat (m' - m)) ls) + d' = d"
proof (induction ls m d rule: month_split.induct)
  case (2 l ls m d)
  show ?case
  proof (cases "d < l")
    case True
    with 2 show ?thesis by simp
  next
    case False
    with 2 have IH: "m + 1 \<le> m'" "m' < m + 1 + int (length ls)" "0 \<le> d'" "d' < ls ! nat (m' - (m + 1))"
        "sum_list (take (nat (m' - (m + 1))) ls) + d' = d - l" by auto
    have "nat (m' - m) = Suc (nat (m' - (m + 1)))" using IH(1) by simp
    then show ?thesis using IH by simp
  qed
qed simp

lemma sum_month_lengths: "sum_list (month_lengths y) = year_days y"
  by (simp add: month_lengths_def year_days_def)

lemma length_month_lengths: "length (month_lengths y) = 12"
  by (simp add: month_lengths_def)

lemma month_lengths_le: "k < 12 \<Longrightarrow> month_lengths y ! k \<le> 31"
  by (auto simp: month_lengths_def less_Suc_eq eval_nat_numeral)

text \<open>The fields of \<open>gmtime\<close> are in range and denote the time they came from.\<close>

lemma gmtime_correct:
  assumes "x = gmtime t"
  shows "timegm x = t" and "1 \<le> tm_mon x" "tm_mon x \<le> 12" "1 \<le> tm_mday x" "tm_mday x \<le> 31"
    and "0 \<le> tm_hour x" "tm_hour x \<le> 23" "0 \<le> tm_min x" "tm_min x \<le> 59"
    and "0 \<le> tm_sec x" "tm_sec x \<le> 59"
    and "days_before_year (tm_year x) \<le> t div 86400 \<and> t div 86400 < days_before_year (tm_year x + 1)"
proof -
  let ?days = "t div 86400" and ?s = "t mod 86400"
  obtain y yd where yd: "(if 0 \<le> ?days then year_up 1970 ?days else year_down 1970 ?days) = (y, yd)"
    by fastforce
  obtain m d where md: "month_split (month_lengths y) 0 yd = (m, d)" by fastforce
  have x: "x = \<lparr>tm_year = y, tm_mon = m + 1, tm_mday = d + 1, tm_hour = ?s div 3600,
      tm_min = ?s mod 3600 div 60, tm_sec = ?s mod 60\<rparr>"
    using assms yd md by (simp add: gmtime_def Let_def)
  have year: "days_before_year y + yd = ?days" "0 \<le> yd" "yd < year_days y"
    using yd year_up_correct [of ?days 1970 y yd] year_down_correct [of 1970 ?days y yd]
    by (auto simp: days_before_1970 year_days_def split: if_splits)
  from month_split_correct [of yd "month_lengths y" 0 m d] year md
  have month: "0 \<le> m" "m < 12" "0 \<le> d" "d < month_lengths y ! nat m"
      "sum_list (take (nat m) (month_lengths y)) + d = yd"
    by (simp_all add: sum_month_lengths length_month_lengths)
  have "nat m < 12" using month(1,2) by linarith
  from month_lengths_le [OF this, of y] month(4) have "d < 31" by linarith
  have s: "0 \<le> ?s" "?s < 86400" by simp_all
  have "?s = ?s div 3600 * 3600 + ?s mod 3600 div 60 * 60 + ?s mod 60"
  proof -
    have "?s mod 3600 mod 60 = ?s mod 60" by (simp add: mod_mod_cancel)
    then show ?thesis using div_mult_mod_eq [of ?s 3600] div_mult_mod_eq [of "?s mod 3600" 60] by linarith
  qed
  note s_eq = this
  have days: "days_before_year y + sum_list (take (nat m) (month_lengths y)) + d = ?days"
    using month(5) year(1) by linarith
  have "timegm x = (days_before_year y + sum_list (take (nat m) (month_lengths y)) + d) * 86400
      + (?s div 3600 * 3600 + ?s mod 3600 div 60 * 60 + ?s mod 60)"
    by (simp add: x timegm_def)
  also have "\<dots> = ?days * 86400 + ?s" by (simp only: days s_eq [symmetric])
  finally show "timegm x = t" by simp
  show "days_before_year (tm_year x) \<le> t div 86400 \<and> t div 86400 < days_before_year (tm_year x + 1)"
    using year by (simp add: x days_before_year_Suc)
  show "1 \<le> tm_mon x" "tm_mon x \<le> 12" "1 \<le> tm_mday x" "tm_mday x \<le> 31"
    using month \<open>d < 31\<close> by (simp_all add: x)
  have "s div 3600 < 24" if "s < 86400" for s :: int using that by presburger
  from this [of ?s] have "?s div 3600 < 24" using s by simp
  then show "0 \<le> tm_hour x" "tm_hour x \<le> 23" using s by (simp_all add: x pos_imp_zdiv_nonneg_iff)
  have "?s mod 3600 div 60 < 60" by simp
  then show "0 \<le> tm_min x" "tm_min x \<le> 59" by (simp_all add: x pos_imp_zdiv_nonneg_iff)
  show "0 \<le> tm_sec x" "tm_sec x \<le> 59" by (simp_all add: x)
qed

section \<open>Numbers in text\<close>

lemma is_digit_digit_char: "d < 10 \<Longrightarrow> is_digit (digit_char d)"
  by (simp add: is_digit_def of_char_digit_char Let_def)

lemma not_digits: "\<not> is_digit (CHR '' '')" "\<not> is_digit (CHR ''-'')" "\<not> is_digit (CHR ''T'')"
  "\<not> is_digit (CHR '':'')" "\<not> is_digit (CHR ''Z'')" "\<not> is_digit (CHR 0x00)"
  by (simp_all add: is_digit_def)

lemma digit_char_neq: "d < 10 \<Longrightarrow> \<not> is_digit c \<Longrightarrow> digit_char d \<noteq> c"
  using is_digit_digit_char by blast

lemma get_number_2:
  assumes "a < 10" "b < 10" "10 * a \<le> hi" "lo \<le> 10 * a + b" "10 * a + b \<le> hi"
  shows "get_number lo hi 2 (digit_char a # digit_char b # r) = Some (int (10 * a + b), r)"
proof -
  have "more_digits hi (Suc 0) v r = (v, r)" for v by (cases r) simp_all
  then show ?thesis
    using assms is_digit_digit_char [of a] is_digit_digit_char [of b] digit_char_neq [of a "CHR '' ''"]
    by (simp add: get_number_def not_digits of_char_digit_char mult.commute numeral_2_eq_2)
qed

lemma number_then_pad2:
  assumes "0 \<le> n" "n \<le> int hi" "int lo \<le> n" "hi < 100"
  shows "number_then lo hi 2 c (pad2 n @ c # r) = Some (n, r)"
proof -
  define k where "k = nat n"
  have k: "n = int k" "k \<le> hi" "lo \<le> k" using assms by (simp_all add: k_def)
  have dm: "10 * (k div 10) + k mod 10 = k" by simp
  have "get_number lo hi 2 (digit_char (k div 10) # digit_char (k mod 10) # c # r) = Some (int k, c # r)"
    using get_number_2 [of "k div 10" "k mod 10" hi lo "c # r"] k assms(4) dm
    by (simp add: less_mult_imp_div_less)
  then show ?thesis by (simp add: number_then_def pad2_def match_char_def k(1))
qed

lemma show_year:
  assumes "1000 \<le> n" "n < 10000"
  shows "show_nat n = [digit_char (n div 1000), digit_char (n div 100 mod 10), digit_char (n div 10 mod 10),
     digit_char (n mod 10)]"
proof -
  have d: "n div 10 div 10 = n div 100" "n div 100 div 10 = n div 1000" by (simp_all flip: div_mult2_eq)
  have "\<not> n < 10" "\<not> n div 10 < 10" "\<not> n div 100 < 10" "n div 1000 < 10" using assms by auto
  then show ?thesis
    by (simp add: show_nat.simps [of n] show_nat.simps [of "n div 10"] show_nat.simps [of "n div 100"]
        show_nat.simps [of "n div 1000"] d)
qed

lemma more_digits_step:
  assumes "d < 10" "v * 10 \<le> hi" "1 < n"
  shows "more_digits hi n v (digit_char d # r) = more_digits hi (n - 1) (v * 10 + d) r"
  using assms by (simp add: is_digit_digit_char of_char_digit_char)

lemma get_number_4:
  assumes "a < 10" "b < 10" "c < 10" "d < 10"
  shows "get_number 0 9999 4 (digit_char a # digit_char b # digit_char c # digit_char d # r) =
     Some (int (((a * 10 + b) * 10 + c) * 10 + d), r)"
proof -
  have stop: "more_digits 9999 1 v r = (v, r)" for v by (cases r) simp_all
  have "(a * 10 + b) * 10 \<le> 9999" "((a * 10 + b) * 10 + c) * 10 \<le> 9999" "a * 10 \<le> 9999"
    using assms by simp_all
  note step = more_digits_step [OF assms(2) this(3)] more_digits_step [OF assms(3) this(1)]
    more_digits_step [OF assms(4) this(2)]
  have "more_digits 9999 4 a (digit_char b # digit_char c # digit_char d # r) =
      more_digits 9999 1 (((a * 10 + b) * 10 + c) * 10 + d) r"
    by (subst step(1), simp, subst step(2), simp, subst step(3), simp_all del: more_digits.simps)
  then have "more_digits 9999 4 a (digit_char b # digit_char c # digit_char d # r) =
      (((a * 10 + b) * 10 + c) * 10 + d, r)" by (simp only: stop)
  moreover have "((a * 10 + b) * 10 + c) * 10 + d \<le> 9999" using assms by simp
  ultimately show ?thesis
    using assms is_digit_digit_char [of a] digit_char_neq [of a "CHR '' ''"]
    by (simp add: get_number_def not_digits of_char_digit_char del: more_digits.simps)
qed

lemma number_then_year:
  assumes "1000 \<le> y" "y < 10000"
  shows "number_then 0 9999 4 c (show_int y @ c # r) = Some (y, r)"
proof -
  define n where "n = nat y"
  have n: "y = int n" "1000 \<le> n" "n < 10000" using assms by (simp_all add: n_def)
  have d: "n div 1000 < 10" using n(3) by simp
  have s: "show_int y = show_nat n" using n by (simp add: show_int_def)
  have "((n div 1000 * 10 + n div 100 mod 10) * 10 + n div 10 mod 10) * 10 + n mod 10 = n"
  proof -
    have d: "n div 100 = n div 10 div 10" "n div 1000 = n div 10 div 10 div 10"
      by (simp_all flip: div_mult2_eq)
    show ?thesis by (simp only: d div_mult_mod_eq)
  qed
  then have "get_number 0 9999 4 (show_nat n @ c # r) = Some (int n, c # r)"
    using get_number_4 [of "n div 1000" "n div 100 mod 10" "n div 10 mod 10" "n mod 10" "c # r"] d
    by (simp add: show_year [OF n(2,3)])
  then show ?thesis by (simp add: number_then_def match_char_def show_int_def n(1))
qed

section \<open>Round trip\<close>

definition show_tm :: "tm \<Rightarrow> string" where
  "show_tm x = show_int (tm_year x) @ ''-'' @ pad2 (tm_mon x) @ ''-'' @ pad2 (tm_mday x) @ ''T'' @
     pad2 (tm_hour x) @ '':'' @ pad2 (tm_min x) @ '':'' @ pad2 (tm_sec x) @ ''Z''"

lemma strptime_show:
  assumes "1000 \<le> tm_year x" "tm_year x < 10000" "1 \<le> tm_mon x" "tm_mon x \<le> 12" "1 \<le> tm_mday x"
    "tm_mday x \<le> 31" "0 \<le> tm_hour x" "tm_hour x \<le> 23" "0 \<le> tm_min x" "tm_min x \<le> 59"
    "0 \<le> tm_sec x" "tm_sec x \<le> 59"
  shows "strptime (show_tm x) = Some (x, '''')"
  using assms by (simp add: strptime_def show_tm_def number_then_year number_then_pad2)

lemma show_tm_no_nul:
  assumes "1000 \<le> tm_year x" "tm_year x < 10000" "1 \<le> tm_mon x" "tm_mon x \<le> 12" "1 \<le> tm_mday x"
    "tm_mday x \<le> 31" "0 \<le> tm_hour x" "tm_hour x \<le> 23" "0 \<le> tm_min x" "tm_min x \<le> 59"
    "0 \<le> tm_sec x" "tm_sec x \<le> 59"
  shows "c_str (show_tm x) = show_tm x"
proof -
  have pad: "CHR 0x00 \<notin> set (pad2 n)" if "0 \<le> n" "n < 100" for n
  proof -
    have "nat n div 10 < 10" using that by (simp add: less_mult_imp_div_less)
    then show ?thesis
      using digit_char_neq [of "nat n div 10" "CHR 0x00"] digit_char_neq [of "nat n mod 10" "CHR 0x00"]
      by (auto simp: pad2_def not_digits)
  qed
  define n where "n = nat (tm_year x)"
  have n: "tm_year x = int n" "1000 \<le> n" "n < 10000" using assms(1,2) by (simp_all add: n_def)
  have "CHR 0x00 \<notin> set (show_int (tm_year x))"
    using n digit_char_neq [of _ "CHR 0x00"]
    by (auto simp: show_int_def show_year not_digits dest: sym)
  with assms pad have "CHR 0x00 \<notin> set (show_tm x)" by (simp add: show_tm_def)
  then show ?thesis by (auto simp: c_str_def takeWhile_eq_all_conv)
qed

lemma days_before_year_mono: "y \<le> z \<Longrightarrow> days_before_year y \<le> days_before_year z"
proof (induction z rule: int_ge_induct)
  case (step z)
  then show ?case using days_before_year_Suc [of z] year_days_pos [of z] by linarith
qed simp

text \<open>The first second of the year 10000, which needs five digits.\<close>

definition year_10000 :: int where
  "year_10000 = 253402300800"

lemma gmtime_year:
  assumes "0 \<le> t" "t < year_10000"
  shows "1970 \<le> tm_year (gmtime t)" "tm_year (gmtime t) < 10000"
proof -
  note g = gmtime_correct(12) [OF refl, of t]
  have d: "0 \<le> t div 86400" "t div 86400 < 2932897"
    using assms by (simp_all add: year_10000_def pos_imp_zdiv_nonneg_iff div_less_iff_less_mult)
  show "1970 \<le> tm_year (gmtime t)"
  proof (rule ccontr)
    assume "\<not> 1970 \<le> tm_year (gmtime t)"
    then have "days_before_year (tm_year (gmtime t) + 1) \<le> days_before_year 1970"
      by (intro days_before_year_mono) simp
    with g d(1) show False by (simp add: days_before_1970)
  qed
  show "tm_year (gmtime t) < 10000"
  proof (rule ccontr)
    assume "\<not> tm_year (gmtime t) < 10000"
    then have "days_before_year 10000 \<le> days_before_year (tm_year (gmtime t))"
      by (intro days_before_year_mono) simp
    moreover have "days_before_year 10000 = 2932897" by (simp add: days_before_year_def)
    ultimately show False using g d(2) by linarith
  qed
qed

lemma parse_format_time:
  assumes "0 \<le> tp" "tp < year_10000 * ns_per_sec"
  shows "parse_time (format_time tp) = Some (tp div ns_per_sec * ns_per_sec)"
proof -
  let ?t = "tp div ns_per_sec"
  let ?x = "gmtime ?t"
  have t: "0 \<le> ?t" "?t < year_10000"
    using assms by (simp_all add: ns_per_sec_def pos_imp_zdiv_nonneg_iff div_less_iff_less_mult)
  note g = gmtime_correct [OF refl, of ?t] gmtime_year [OF t]
  have "1000 \<le> tm_year ?x" using g by simp
  with g strptime_show [of ?x] show_tm_no_nul [of ?x]
  have "strptime (c_str (show_tm ?x)) = Some (?x, '''')" by simp
  moreover have "format_time tp = show_tm ?x" using assms(1) by (simp add: format_time_def show_tm_def to_time_t_def Let_def)
  ultimately show ?thesis using g(1) t(1) by (simp add: parse_time_def from_time_t_def)
qed

section \<open>Properties\<close>

text \<open>C33: the timestamps the daemon writes can be read back: for every time from the epoch to the end of
  year 9999, parsing the formatted text gives the time truncated to whole seconds.\<close>

theorem format_parse_time:
  assumes "0 \<le> tp" and "tp < year_10000 * ns_per_sec"
  shows "parse_time (format_time tp) = Some (tp div ns_per_sec * ns_per_sec)"
  by (rule parse_format_time [OF assms])

theorem format_parse_time_witness:
  "parse_time (format_time 1772529579123456789) = Some 1772529579000000000"
  using format_parse_time [of 1772529579123456789] by (simp add: year_10000_def ns_per_sec_def)

text \<open>The parser also reads texts the daemon never writes: numbers without leading zeros, and days the
  month does not have, which the calendar carries over into the next month.\<close>

theorem parse_time_tolerant:
  "parse_time ''2026-2-31T9:5:7Z'' = parse_time ''2026-03-03T09:05:07Z''
   \<and> parse_time ''2026-03-03T09:05:07Z'' = Some 1772528707000000000"
  by (simp add: parse_time_def c_str_def strptime_def number_then_def get_number_def match_char_def
      is_digit_def timegm_def days_before_year_def month_lengths_def leap_year_def from_time_t_def
      ns_per_sec_def Let_def)

end
