(* ===== verification/Json_Serialize.thy ===== *)
theory Json_Serialize
  imports Json_Value Time_Format
begin

text \<open>
  The JSON form of a snapshot, \<^verbatim>\<open>src/json.cpp\<close>: one conversion per struct, composed as the
  sources compose them, and \<open>serialize\<close>, which prints with the replacing error handler.
\<close>

section \<open>Conversions\<close>

definition finite_or_zero :: "double \<Rightarrow> double" where
  "finite_or_zero v = (if is_finite v then v else Fin 0)"

definition emit_freshness :: "section_freshness \<Rightarrow> json \<Rightarrow> json" where
  "emit_freshness f j = j_set ''stale'' (JBool (fr_stale f))
     (j_set_opt ''collected_at'' (\<lambda>t. JString (format_time t)) (collected_at f) j)"

definition os_json :: "os_info \<Rightarrow> json" where
  "os_json os = j_object [(''distro'', JString (os_distro os)), (''version'', JString (os_version os)),
     (''build_id'', JString (os_build_id os)), (''kernel'', JString (os_kernel os))]"

definition device_json :: "device_info \<Rightarrow> json" where
  "device_json d = j_object [(''device_id'', JString (dev_device_id d)),
     (''hostname'', JString (dev_hostname d)), (''platform'', JString (dev_platform d)),
     (''arch'', JString (dev_arch d)), (''os'', os_json (dev_os d))]"

definition boot_json :: "boot_status \<Rightarrow> json" where
  "boot_json b = emit_freshness (boot_freshness b)
     (j_set_opt ''last_reboot_reason'' JString (last_reboot_reason b)
       (j_object [(''boot_id'', JString (boot_id b)),
          (''last_boot_at'', JString (format_time (last_boot_at b))),
          (''uptime'', JInt (uptime b)), (''boot_ok'', JBool (boot_ok b)),
          (''boot_fail_count'', JUInt (unat (boot_fail_count b)))]))"

definition unit_json :: "service_unit \<Rightarrow> json" where
  "unit_json u =
     (let j = j_set_opt ''detail'' JString (su_detail u)
            (j_set_opt ''result'' JString (su_result u)
            (j_set_opt ''since'' (\<lambda>t. JString (format_time t)) (su_since u)
              (j_object [(''name'', JString (su_name u)),
                 (''state'', JString (service_state_string (su_state u))),
                 (''severity'', JString (severity_string (su_severity u))),
                 (''restart_count'', JUInt (unat (su_restart_count u)))])))
      in if su_log_excerpt u \<noteq> [] then j_set ''log_excerpt'' (j_strings (su_log_excerpt u)) j else j)"

definition services_json :: "services_status \<Rightarrow> json" where
  "services_json s = emit_freshness (services_freshness s)
     (j_object [(''overall'', JString (severity_string (services_overall s))),
        (''units'', JArray (map unit_json (services_units s)))])"

definition cpu_json :: "cpu_load \<Rightarrow> json" where
  "cpu_json c = j_object [(''load1'', JFloat (finite_or_zero (load1 c))),
     (''load5'', JFloat (finite_or_zero (load5 c))), (''load15'', JFloat (finite_or_zero (load15 c)))]"

definition memory_json :: "memory_usage \<Rightarrow> json" where
  "memory_json m = j_object [(''mem_total_mb'', JUInt (unat (mem_total_mb m))),
     (''mem_used_mb'', JUInt (unat (mem_used_mb m))), (''swap_used_mb'', JUInt (unat (swap_used_mb m)))]"

definition mount_json :: "storage_mount \<Rightarrow> json" where
  "mount_json m = j_set_opt ''avail_mb'' (\<lambda>w. JUInt (unat w)) (sm_avail_mb m)
     (j_set_opt ''used_pct'' (\<lambda>w. JUInt (unat w)) (sm_used_pct m)
       (j_object [(''mount'', JString (sm_mount m)), (''fs'', JString (sm_fs m)),
          (''available'', JBool (sm_available m))]))"

definition sensor_json :: "thermal_sensor \<Rightarrow> json" where
  "sensor_json s = j_set_opt ''temp_c'' (\<lambda>t. JFloat (finite_or_zero t)) (ts_temp_c s)
     (j_object [(''sensor'', JString (ts_sensor s)), (''available'', JBool (ts_available s))])"

text \<open>A member that is emitted only when a condition holds.\<close>

definition j_set_if :: "bool \<Rightarrow> string \<Rightarrow> json \<Rightarrow> json \<Rightarrow> json" where
  "j_set_if c k v j = (if c then j_set k v j else j)"

definition iface_json :: "network_interface \<Rightarrow> json" where
  "iface_json i =
     j_set_opt ''duplex'' (\<lambda>d. JString (duplex_string d)) (ni_duplex i)
     (j_set_opt ''speed_mbps'' (\<lambda>w. JUInt (unat w)) (ni_speed_mbps i)
     (j_set_if (ni_carrier_down_count i > 0) ''carrier_down_count'' (JUInt (unat (ni_carrier_down_count i)))
     (j_set_if (ni_carrier_up_count i > 0) ''carrier_up_count'' (JUInt (unat (ni_carrier_up_count i)))
     (j_set_if (ni_carrier_changes i > 0) ''carrier_changes'' (JUInt (unat (ni_carrier_changes i)))
     (j_set_if (ni_operstate i \<noteq> []) ''operstate'' (JString (ni_operstate i))
     (j_set_if (ni_mac i \<noteq> []) ''mac'' (JString (ni_mac i))
     (j_set_if (ni_mtu i > 0) ''mtu'' (JUInt (unat (ni_mtu i)))
     (j_set ''carrier'' (JBool (ni_carrier i))
     (j_set_opt ''ip'' JString (ni_ip i)
       (j_object [(''ifname'', JString (ni_ifname i)), (''link'', JString (link_state_string (ni_link i))),
          (''rx_bytes'', JUInt (unat (ni_rx_bytes i))), (''tx_bytes'', JUInt (unat (ni_tx_bytes i))),
          (''rx_packets'', JUInt (unat (ni_rx_packets i))), (''tx_packets'', JUInt (unat (ni_tx_packets i))),
          (''rx_dropped'', JUInt (unat (ni_rx_dropped i))), (''tx_dropped'', JUInt (unat (ni_tx_dropped i))),
          (''rx_err'', JUInt (unat (ni_rx_err i))), (''tx_err'', JUInt (unat (ni_tx_err i)))]))))))))))"

definition resources_json :: "resources_status \<Rightarrow> json" where
  "resources_json r = emit_freshness (resources_freshness r)
     (j_object [(''sample_window_sec'', JUInt (unat (sample_window r))), (''cpu'', cpu_json (cpu r)),
        (''memory'', memory_json (memory r)), (''storage'', JArray (map mount_json (storage r))),
        (''thermal'', JArray (map sensor_json (thermal r))),
        (''network'', JArray (map iface_json (network r)))])"

definition ntp_json :: "ntp_status \<Rightarrow> json" where
  "ntp_json n = j_set_opt ''last_sync_at'' (\<lambda>t. JString (format_time t)) (ntp_last_sync_at n)
     (j_set_opt ''state'' (\<lambda>s. JString (time_sync_state_string s)) (ntp_state n)
       (j_object [(''enabled'', JBool (ntp_enabled n))]))"

definition ptp_json :: "ptp_status \<Rightarrow> json" where
  "ptp_json p =
     j_set_opt ''role'' JString (ptp_role p)
     (j_set_opt ''last_sync_at'' (\<lambda>t. JString (format_time t)) (ptp_last_sync_at p)
     (j_set_opt ''state'' (\<lambda>s. JString (time_sync_state_string s)) (ptp_state p)
     (j_set_opt ''rms_ns'' (\<lambda>w. JUInt (unat w)) (ptp_rms_ns p)
     (j_set_opt ''offset_ns'' JInt (ptp_offset_ns p)
     (j_set_opt ''interface'' JString (ptp_interface p)
       (j_object [(''enabled'', JBool (ptp_enabled p))]))))))"

definition rtc_json :: "rtc_status \<Rightarrow> json" where
  "rtc_json r =
     (let j = j_object [(''enabled'', JBool (rtc_enabled r))] in
      if rtc_enabled r then
        j_set_opt ''drift_sec'' JInt (rtc_drift_sec r)
        (j_set_opt ''voltage_mv'' (\<lambda>w. JUInt (unat w)) (rtc_voltage_mv r)
        (j_set ''hctosys'' (JBool (rtc_hctosys r)) j))
      else j)"

definition time_sync_json :: "time_sync_status \<Rightarrow> json" where
  "time_sync_json t = emit_freshness (time_sync_freshness t)
     (j_object [(''overall'', JString (severity_string (time_sync_overall t))),
        (''source'', JString (time_sync_source_string (time_sync_source t))),
        (''ntp'', ntp_json (ts_ntp t)), (''ptp'', ptp_json (ts_ptp t)), (''rtc'', rtc_json (ts_rtc t))])"

definition last_update_json :: "last_update_info \<Rightarrow> json" where
  "last_update_json l = j_set_opt ''detail'' JString (lu_detail l)
     (j_set_opt ''installed_at'' (\<lambda>t. JString (format_time t)) (lu_installed_at l)
       (j_object [(''id'', JString (lu_id l)), (''result'', JString (update_result_string (lu_result l)))]))"

definition update_json :: "update_status \<Rightarrow> json" where
  "update_json u = emit_freshness (update_freshness u)
     (j_set_opt ''last_update'' last_update_json (last_update u)
     (j_set_opt ''active_slot'' JString (active_slot u)
       (j_object [(''overall'', JString (severity_string (update_overall u)))])))"

definition journal_json :: "journal_status \<Rightarrow> json" where
  "journal_json j = emit_freshness (journal_freshness j)
     (j_object [(''overall'', JString (severity_string (journal_overall j))),
        (''error_count'', JUInt (unat (journal_error_count j))),
        (''recent_errors'', j_strings (journal_recent_errors j))])"

definition artifact_json :: "crash_artifact \<Rightarrow> json" where
  "artifact_json a = j_set_opt ''mtime'' (\<lambda>t. JString (format_time t)) (ca_mtime a)
     (j_set_if (ca_kind a \<noteq> []) ''kind'' (JString (ca_kind a))
       (j_object [(''name'', JString (ca_name a)), (''size_bytes'', JUInt (unat (ca_size_bytes a)))]))"

definition crash_json :: "crash_status \<Rightarrow> json" where
  "crash_json c = emit_freshness (crash_freshness c)
     (j_set_opt ''fingerprint'' JString (crash_fingerprint c)
     (j_set_opt ''last_panic_at'' (\<lambda>t. JString (format_time t)) (last_panic_at c)
     (j_set_opt ''source'' JString (crash_source c)
       (j_object [(''present'', JBool (crash_present c)),
          (''artifact_count'', JUInt (unat (artifact_count c))),
          (''artifacts'', JArray (map artifact_json (crash_artifacts c))),
          (''acknowledged'', JBool (acknowledged c))]))))"

definition domains_json :: "domain_severities \<Rightarrow> json" where
  "domains_json d = j_object [(''boot'', JString (severity_string (dom_boot d))),
     (''services'', JString (severity_string (dom_services d))),
     (''resources'', JString (severity_string (dom_resources d))),
     (''time_sync'', JString (severity_string (dom_time_sync d))),
     (''update'', JString (severity_string (dom_update d))),
     (''journal'', JString (severity_string (dom_journal d))),
     (''crash'', JString (severity_string (dom_crash d)))]"

definition summary_json :: "snapshot_summary \<Rightarrow> json" where
  "summary_json s = j_set_opt ''notes'' JString (sum_notes s)
     (j_object [(''severity'', JString (severity_string (sum_severity s))),
        (''domains'', domains_json (sum_domains s)), (''reasons'', j_strings (sum_reasons s))])"

definition snapshot_json :: "snapshot_state \<Rightarrow> json" where
  "snapshot_json s = j_object
     [(''schema'', JString snapshot_schema), (''schema_version'', JString snapshot_schema_version),
      (''generated_at'', JString (format_time (generated_at s))),
      (''cycle'', JUInt (unat (snap_cycle s))), (''device'', device_json (snap_device s)),
      (''boot'', boot_json (snap_boot s)), (''services'', services_json (snap_services s)),
      (''resources'', resources_json (snap_resources s)),
      (''time_sync'', time_sync_json (snap_time_sync s)), (''update'', update_json (snap_update s)),
      (''journal'', journal_json (snap_journal s)), (''crash'', crash_json (snap_crash s)),
      (''summary'', summary_json (snap_summary s))]"

definition serialize :: "json_lib \<Rightarrow> snapshot_state \<Rightarrow> string + string" where
  "serialize J s = jl_dump_replace J (- 1) (snapshot_json s)"

definition serialize_pretty :: "json_lib \<Rightarrow> snapshot_state \<Rightarrow> int \<Rightarrow> string + string" where
  "serialize_pretty J s indent = jl_dump_replace J indent (snapshot_json s)"

section \<open>No null and no non-finite number\<close>

text \<open>
  A document whose numbers are finite and which holds no \<^verbatim>\<open>null\<close>: nothing in it is printed as
  \<^verbatim>\<open>null\<close>.
\<close>

fun json_clean :: "json \<Rightarrow> bool" where
  "json_clean JNull = False"
| "json_clean (JFloat d) = is_finite d"
| "json_clean (JArray js) = (\<forall>j\<in>set js. json_clean j)"
| "json_clean (JObject m) = (omap_wf m \<and> (\<forall>kv\<in>set m. json_clean (snd kv)))"
| "json_clean _ = True"

named_theorems clean_intros \<open>documents without null\<close>

lemma json_clean_members: "json_clean j \<Longrightarrow> json_clean (JObject (j_members j))"
  by (cases j) (simp_all add: omap_wf_def)

lemma json_clean_set: "json_clean j \<Longrightarrow> json_clean v \<Longrightarrow> json_clean (j_set k v j)"
  using json_clean_members [of j] set_omap_put_subset [of k v "j_members j"]
  by (auto simp: j_set_def dest: subsetD)

lemma json_clean_set_opt:
  "json_clean j \<Longrightarrow> (\<And>v. x = Some v \<Longrightarrow> json_clean (enc v)) \<Longrightarrow> json_clean (j_set_opt k enc x j)"
  by (auto simp: j_set_opt_def json_clean_set split: option.splits)

lemma json_clean_set_if: "json_clean j \<Longrightarrow> json_clean v \<Longrightarrow> json_clean (j_set_if c k v j)"
  by (simp add: j_set_if_def json_clean_set)

lemma json_clean_object:
  assumes "\<forall>kv\<in>set kvs. json_clean (snd kv)"
  shows "json_clean (j_object kvs)"
proof -
  have "json_clean j \<Longrightarrow> \<forall>kv\<in>set kvs. json_clean (snd kv) \<Longrightarrow>
      json_clean (fold (\<lambda>(k, v). j_set k v) kvs j)" for j
    by (induction kvs arbitrary: j) (auto simp: json_clean_set)
  then show ?thesis using assms by (simp add: j_object_def omap_wf_def)
qed

lemma json_clean_strings [simp]: "json_clean (j_strings ss)"
  by (auto simp: j_strings_def)

lemma finite_or_zero_finite [simp]: "is_finite (finite_or_zero v)"
  by (simp add: finite_or_zero_def)

lemmas clean_rules = json_clean_set json_clean_set_opt json_clean_set_if json_clean_object

lemma emit_freshness_clean [clean_intros]: "json_clean j \<Longrightarrow> json_clean (emit_freshness f j)"
  by (auto simp: emit_freshness_def intro!: clean_rules)

lemma leaf_clean [clean_intros]:
  "json_clean (device_json d)" "json_clean (cpu_json c)" "json_clean (memory_json m)"
  "json_clean (mount_json mt)" "json_clean (sensor_json sn)" "json_clean (iface_json i)"
  "json_clean (ntp_json n)" "json_clean (ptp_json p)" "json_clean (rtc_json r)"
  "json_clean (last_update_json l)" "json_clean (artifact_json a)" "json_clean (domains_json ds)"
  "json_clean (unit_json u)"
  by (auto simp: device_json_def os_json_def cpu_json_def memory_json_def mount_json_def sensor_json_def
      iface_json_def ntp_json_def ptp_json_def rtc_json_def last_update_json_def artifact_json_def
      domains_json_def unit_json_def Let_def intro!: clean_rules)

lemma section_clean [clean_intros]:
  "json_clean (boot_json b)" "json_clean (services_json sv)" "json_clean (resources_json r)"
  "json_clean (time_sync_json t)" "json_clean (update_json u)" "json_clean (journal_json j)"
  "json_clean (crash_json c)" "json_clean (summary_json sm)"
  by (auto simp: boot_json_def services_json_def resources_json_def time_sync_json_def update_json_def
      journal_json_def crash_json_def summary_json_def intro!: clean_rules clean_intros)

lemma snapshot_clean: "json_clean (snapshot_json s)"
  unfolding snapshot_json_def by (rule json_clean_object) (simp add: section_clean leaf_clean)

section \<open>What the document determines\<close>

definition snapshot_keys :: "string set" where
  "snapshot_keys = {''schema'', ''schema_version'', ''generated_at'', ''cycle'', ''device'', ''boot'',
     ''services'', ''resources'', ''time_sync'', ''update'', ''journal'', ''crash'', ''summary''}"

lemma snapshot_json_keys: "j_contains (snapshot_json s) k \<longleftrightarrow> k \<in> snapshot_keys"
  by (auto simp: snapshot_json_def j_object_def snapshot_keys_def)

lemma domains_json_inject: "domains_json a = domains_json b \<longleftrightarrow> a = b"
proof
  assume "domains_json a = domains_json b"
  then have "j_at (domains_json a) k = j_at (domains_json b) k" for k by simp
  from this [of "''boot''"] this [of "''services''"] this [of "''resources''"] this [of "''time_sync''"]
    this [of "''update''"] this [of "''journal''"] this [of "''crash''"]
  show "a = b" by (simp add: domains_json_def j_object_def)
qed simp

lemma j_strings_inject [simp]: "j_strings a = j_strings b \<longleftrightarrow> a = b"
  by (auto simp: j_strings_def dest: map_injective [OF _ injI])

text \<open>An optional member is recovered from its presence and its value.\<close>

lemma j_opt_inject:
  assumes "j_set_opt k enc x j = j_set_opt k enc' y j'" "\<not> j_contains j k" "\<not> j_contains j' k"
    and "\<And>u v. x = Some u \<Longrightarrow> y = Some v \<Longrightarrow> enc u = enc' v \<Longrightarrow> u = v"
  shows "x = y"
proof -
  have c: "(x \<noteq> None) = (y \<noteq> None)"
    using arg_cong [OF assms(1), of "\<lambda>j. j_contains j k"] assms(2,3) by simp
  show ?thesis
  proof (cases x)
    case (Some u)
    with c obtain v where v: "y = Some v" by auto
    have "enc u = enc' v" using arg_cong [OF assms(1), of "\<lambda>j. j_at j k"] Some v by (simp add: j_at_set_opt)
    with assms(4) Some v show ?thesis by simp
  qed (use c in auto)
qed

lemma summary_json_inject: "summary_json a = summary_json b \<Longrightarrow> a = b"
proof -
  assume eq: "summary_json a = summary_json b"
  then have at: "j_at (summary_json a) k = j_at (summary_json b) k" for k by simp
  have base: "j_at (summary_json s) ''severity'' = JString (severity_string (sum_severity s))"
      "j_at (summary_json s) ''domains'' = domains_json (sum_domains s)"
      "j_at (summary_json s) ''reasons'' = j_strings (sum_reasons s)" for s
    by (simp_all add: summary_json_def j_object_def j_at_set_opt split: option.splits)
  have "sum_notes a = sum_notes b"
    using eq unfolding summary_json_def by (rule j_opt_inject) (simp_all add: j_object_def)
  with at [of "''severity''"] at [of "''domains''"] at [of "''reasons''"]
  show "a = b" by (simp add: base domains_json_inject)
qed

lemma snapshot_at:
  "j_at (snapshot_json s) ''summary'' = summary_json (snap_summary s)"
  "j_at (snapshot_json s) ''cycle'' = JUInt (unat (snap_cycle s))"
  "j_at (snapshot_json s) ''schema_version'' = JString snapshot_schema_version"
  "j_at (snapshot_json s) ''schema'' = JString snapshot_schema"
  "j_at (snapshot_json s) ''services'' = services_json (snap_services s)"
  "j_at (snapshot_json s) ''journal'' = journal_json (snap_journal s)"
  by (simp_all add: snapshot_json_def j_object_def)

lemma emit_freshness_stale: "j_at (emit_freshness f j) ''stale'' = JBool (fr_stale f)"
  by (simp add: emit_freshness_def)

lemma emit_freshness_at:
  "k \<noteq> ''stale'' \<Longrightarrow> k \<noteq> ''collected_at'' \<Longrightarrow> j_at (emit_freshness f j) k = j_at j k"
  by (simp add: emit_freshness_def j_at_set_opt split: option.splits)

section \<open>Properties\<close>


text \<open>The document determines the summary and the cycle number: two snapshots with the same JSON have
  the same severities, reasons, notes and cycle.\<close>

theorem snapshot_json_determines:
  assumes "snapshot_json s = snapshot_json s'"
  shows "snap_summary s = snap_summary s' \<and> snap_cycle s = snap_cycle s'
     \<and> services_overall (snap_services s) = services_overall (snap_services s')
     \<and> journal_recent_errors (snap_journal s) = journal_recent_errors (snap_journal s')
     \<and> journal_error_count (snap_journal s) = journal_error_count (snap_journal s')"
proof -
  have at: "j_at (snapshot_json s) k = j_at (snapshot_json s') k" for k using assms by simp
  have "j_at (services_json a) ''overall'' = JString (severity_string (services_overall a))" for a
    by (simp add: services_json_def emit_freshness_at j_object_def)
  with at [of "''services''"] have "services_overall (snap_services s) = services_overall (snap_services s')"
    by (metis json.inject(5) severity_string_inject snapshot_at(5))
  moreover have "j_at (journal_json a) ''recent_errors'' = j_strings (journal_recent_errors a)"
      "j_at (journal_json a) ''error_count'' = JUInt (unat (journal_error_count a))" for a
    by (simp_all add: journal_json_def emit_freshness_at j_object_def)
  with at [of "''journal''"] have "journal_recent_errors (snap_journal s) = journal_recent_errors (snap_journal s')"
      "journal_error_count (snap_journal s) = journal_error_count (snap_journal s')"
    by (metis j_strings_inject snapshot_at(6), metis json.inject(3) snapshot_at(6) unsigned_word_eqI)
  ultimately show ?thesis
    using at [of "''summary''"] at [of "''cycle''"]
    by (simp add: snapshot_at summary_json_inject word_unat_eq_iff)
qed

theorem snapshot_json_determines_witness:
  "snap_summary snapshot_state_default = snap_summary (snapshot_state_default\<lparr>generated_at := 1\<rparr>)"
proof -
  have "snapshot_json snapshot_state_default = snapshot_json (snapshot_state_default\<lparr>generated_at := 1\<rparr>)"
    by (simp add: snapshot_json_def format_time_def to_time_t_def snapshot_state_default_def ns_per_sec_def)
  from snapshot_json_determines [OF this] show ?thesis by blast
qed

end
