(* ===== verification/Atomic_File.thy ===== *)
theory Atomic_File
  imports Prelude
begin

text \<open>
  \<open>atomic_write_file\<close>, \<^verbatim>\<open>src/atomic_file.cpp\<close>, over a small model of a POSIX file
  system: directory entries and file data each have a volatile and a durable side.  The results
  of the system calls are an argument, so every error path of the source is a branch.  The
  function returns the states it passes through, and the crash theorem quantifies over all of
  them.
\<close>

section \<open>Files and crashes\<close>

record inode =
  in_data :: string
  in_synced :: bool

text \<open>
  \<open>fs_dir\<close> is what the running system sees, \<open>fs_disk\<close> what the last flush of the directory put on
  the medium; both name inodes.
\<close>

record fsys =
  fs_dir :: "path \<Rightarrow> nat option"
  fs_disk :: "path \<Rightarrow> nat option"
  fs_inode :: "nat \<Rightarrow> inode"
  fs_fresh :: nat

definition fs_read :: "fsys \<Rightarrow> path \<Rightarrow> string option" where
  "fs_read s p = map_option (\<lambda>i. in_data (fs_inode s i)) (fs_dir s p)"

text \<open>
  What a reader may find under \<open>p\<close> after power is lost in state \<open>s\<close>: the entry is the flushed or the
  current one, and the data of an inode that was not flushed may be anything.
\<close>

definition entry_contents :: "fsys \<Rightarrow> nat option \<Rightarrow> string option set" where
  "entry_contents s e =
     (case e of None \<Rightarrow> {None}
      | Some i \<Rightarrow> if in_synced (fs_inode s i) then {Some (in_data (fs_inode s i))} else range Some)"

definition crash_contents :: "fsys \<Rightarrow> path \<Rightarrow> string option set" where
  "crash_contents s p = entry_contents s (fs_disk s p) \<union> entry_contents s (fs_dir s p)"

section \<open>System calls\<close>

definition fs_open_trunc :: "path \<Rightarrow> fsys \<Rightarrow> nat \<times> fsys" where
  "fs_open_trunc p s =
     (case fs_dir s p of
        Some i \<Rightarrow> (i, s\<lparr>fs_inode := (fs_inode s)(i := \<lparr>in_data = '''', in_synced = False\<rparr>)\<rparr>)
      | None \<Rightarrow> (fs_fresh s, s\<lparr>fs_dir := (fs_dir s)(p \<mapsto> fs_fresh s),
           fs_inode := (fs_inode s)(fs_fresh s := \<lparr>in_data = '''', in_synced = False\<rparr>),
           fs_fresh := Suc (fs_fresh s)\<rparr>))"

definition fs_append :: "nat \<Rightarrow> string \<Rightarrow> fsys \<Rightarrow> fsys" where
  "fs_append fd bytes s = s\<lparr>fs_inode := (fs_inode s)(fd :=
     \<lparr>in_data = in_data (fs_inode s fd) @ bytes, in_synced = False\<rparr>)\<rparr>"

definition fs_fsync :: "nat \<Rightarrow> fsys \<Rightarrow> fsys" where
  "fs_fsync fd s = s\<lparr>fs_inode := (fs_inode s)(fd := (fs_inode s fd)\<lparr>in_synced := True\<rparr>)\<rparr>"

definition fs_remove :: "path \<Rightarrow> fsys \<Rightarrow> fsys" where
  "fs_remove p s = s\<lparr>fs_dir := (fs_dir s)(p := None)\<rparr>"

definition fs_rename :: "path \<Rightarrow> path \<Rightarrow> fsys \<Rightarrow> fsys" where
  "fs_rename old new s = s\<lparr>fs_dir := (fs_dir s)(new := fs_dir s old, old := None)\<rparr>"

text \<open>\<^verbatim>\<open>std::filesystem::path::parent_path\<close>.\<close>

definition parent_path :: "path \<Rightarrow> path" where
  "parent_path p =
     (if CHR ''/'' \<notin> set p then ''''
      else let d = rev (dropWhile (\<lambda>c. c = CHR ''/'') (dropWhile (\<lambda>c. c \<noteq> CHR ''/'') (rev p)))
           in if d = [] then ''/'' else d)"

definition parent_or_dot :: "path \<Rightarrow> path" where
  "parent_or_dot p = (if parent_path p = [] then ''.'' else parent_path p)"

definition fs_fsync_dir :: "path \<Rightarrow> fsys \<Rightarrow> fsys" where
  "fs_fsync_dir d s = s\<lparr>fs_disk := (\<lambda>p. if parent_or_dot p = d then fs_dir s p else fs_disk s p)\<rparr>"

section \<open>The function\<close>

record atomic_file_error =
  afe_message :: string
  afe_code :: int

definition afe_what :: "atomic_file_error \<Rightarrow> string" where
  "afe_what e = (if afe_code e \<noteq> 0 then afe_message e @ '' (errno '' @ show_int (afe_code e) @ '')''
     else afe_message e)"

definition make_error :: "string \<Rightarrow> int \<Rightarrow> atomic_file_error" where
  "make_error m c = \<lparr>afe_message = m, afe_code = c\<rparr>"

definition temp_path_for :: "nat \<Rightarrow> path \<Rightarrow> path" where
  "temp_path_for pid target = target @ ''.tmp.'' @ show_nat pid"

text \<open>
  The outcomes of the calls of one run; a number is the error, 0 for success.  \<open>sys_writes\<close> are the
  results of the successive calls of \<^verbatim>\<open>write\<close>.
\<close>

datatype write_ret = Wrote nat | Write_Error int

definition EINTR :: int where
  "EINTR = 4"

record sys_outcomes =
  sys_open :: int
  sys_writes :: "write_ret list"
  sys_fsync :: int
  sys_close :: int
  sys_rename :: int
  sys_open_dir :: int
  sys_fsync_dir :: int
  sys_remove :: bool

text \<open>
  The write loop: the states it passes, the last state, and \<open>None\<close> when the outcomes are used up
  before the content is written, \<open>Inl\<close> of the error of a failed call, \<open>Inr\<close> when all is written.
\<close>

fun write_loop :: "write_ret list \<Rightarrow> nat \<Rightarrow> string \<Rightarrow> fsys \<Rightarrow> fsys list \<times> fsys \<times> (int + unit) option"
where
  "write_loop outs fd [] s = ([], s, Some (Inr ()))"
| "write_loop [] fd (c # cs) s = ([], s, None)"
| "write_loop (Write_Error e # outs) fd (c # cs) s =
     (if e = EINTR then write_loop outs fd (c # cs) s else ([], s, Some (Inl e)))"
| "write_loop (Wrote n # outs) fd (c # cs) s =
     (let k = min n (length (c # cs)); s' = fs_append fd (take k (c # cs)) s;
          (tr, s'', st) = write_loop outs fd (drop k (c # cs)) s'
      in (s' # tr, s'', st))"

definition atomic_fail ::
  "sys_outcomes \<Rightarrow> path \<Rightarrow> fsys list \<Rightarrow> fsys \<Rightarrow> string \<Rightarrow> int \<Rightarrow>
   fsys list \<times> fsys \<times> (atomic_file_error + unit) option" where
  "atomic_fail S tmp tr s msg code =
     (let s' = (if sys_remove S then fs_remove tmp s else s)
      in (tr @ [s'], s', Some (Inl (make_error msg code))))"

definition atomic_publish ::
  "sys_outcomes \<Rightarrow> path \<Rightarrow> path \<Rightarrow> nat \<Rightarrow> fsys list \<Rightarrow> fsys \<Rightarrow>
   fsys list \<times> fsys \<times> (atomic_file_error + unit) option" where
  "atomic_publish S tmp target fd tr s =
     (let parent = parent_or_dot target in
      if sys_fsync S \<noteq> 0 then
        atomic_fail S tmp tr s (''fsync('' @ tmp @ '') failed'') (sys_fsync S)
      else
        let s1 = fs_fsync fd s; tr1 = tr @ [s1] in
        if sys_close S \<noteq> 0 then
          atomic_fail S tmp tr1 s1 (''close('' @ tmp @ '') failed'') (sys_close S)
        else if sys_rename S \<noteq> 0 then
          atomic_fail S tmp tr1 s1 (''rename('' @ tmp @ '' -> '' @ target @ '') failed'') (sys_rename S)
        else
          let s2 = fs_rename tmp target s1; tr2 = tr1 @ [s2] in
          if sys_open_dir S \<noteq> 0 then
            (tr2, s2, Some (Inl (make_error (''open('' @ parent @ '') for dir fsync failed'') (sys_open_dir S))))
          else if sys_fsync_dir S \<noteq> 0 then
            (tr2, s2, Some (Inl (make_error (''fsync('' @ parent @ '') failed'') (sys_fsync_dir S))))
          else
            let s3 = fs_fsync_dir parent s2 in (tr2 @ [s3], s3, Some (Inr ())))"

definition atomic_write_file ::
  "sys_outcomes \<Rightarrow> nat \<Rightarrow> path \<Rightarrow> string \<Rightarrow> fsys \<Rightarrow>
   fsys list \<times> fsys \<times> (atomic_file_error + unit) option" where
  "atomic_write_file S pid target content s0 =
     (let tmp = temp_path_for pid target in
      if sys_open S \<noteq> 0 then
        ([], s0, Some (Inl (make_error (''open('' @ tmp @ '') failed'') (sys_open S))))
      else
        let (fd, s1) = fs_open_trunc tmp s0; (tr, s2, st) = write_loop (sys_writes S) fd content s1
        in case st of
             None \<Rightarrow> (s1 # tr, s2, None)
           | Some (Inl e) \<Rightarrow> atomic_fail S tmp (s1 # tr) s2 (''write('' @ tmp @ '') failed'') e
           | Some (Inr _) \<Rightarrow> atomic_publish S tmp target fd (s1 # tr) s2)"

section \<open>Invariant\<close>

text \<open>
  Entries name allocated inodes, and the temporary name, if it exists, does not share its inode
  with the target.
\<close>

definition fs_inv :: "nat \<Rightarrow> path \<Rightarrow> fsys \<Rightarrow> bool" where
  "fs_inv pid target s \<longleftrightarrow>
     (\<forall>p i. fs_dir s p = Some i \<longrightarrow> i < fs_fresh s) \<and> (\<forall>p i. fs_disk s p = Some i \<longrightarrow> i < fs_fresh s) \<and>
     (\<forall>i. fs_dir s (temp_path_for pid target) = Some i \<longrightarrow>
        fs_dir s target \<noteq> Some i \<and> fs_disk s target \<noteq> Some i)"

lemma temp_path_neq [simp]: "temp_path_for pid target \<noteq> target" "target \<noteq> temp_path_for pid target"
  by (simp_all add: temp_path_for_def)

text \<open>Two states in which nothing that is reachable under \<open>p\<close> differs.\<close>

definition same_at :: "path \<Rightarrow> fsys \<Rightarrow> fsys \<Rightarrow> bool" where
  "same_at p s s' \<longleftrightarrow> fs_dir s' p = fs_dir s p \<and> fs_disk s' p = fs_disk s p \<and>
     (\<forall>i. fs_dir s p = Some i \<or> fs_disk s p = Some i \<longrightarrow> fs_inode s' i = fs_inode s i)"

lemma same_at_crash: "same_at p s s' \<Longrightarrow> crash_contents s' p = crash_contents s p"
  by (auto simp: same_at_def crash_contents_def entry_contents_def split: option.splits)

lemma same_at_read: "same_at p s s' \<Longrightarrow> fs_read s' p = fs_read s p"
  by (cases "fs_dir s p") (auto simp: same_at_def fs_read_def)

lemma same_at_refl [simp]: "same_at p s s"
  by (simp add: same_at_def)

lemma same_at_trans: "same_at p s s' \<Longrightarrow> same_at p s' s'' \<Longrightarrow> same_at p s s''"
  by (auto simp: same_at_def)

section \<open>The write loop\<close>

definition only_inode :: "nat \<Rightarrow> fsys \<Rightarrow> fsys \<Rightarrow> bool" where
  "only_inode fd s s' \<longleftrightarrow> fs_dir s' = fs_dir s \<and> fs_disk s' = fs_disk s \<and> fs_fresh s' = fs_fresh s \<and>
     (\<forall>i. i \<noteq> fd \<longrightarrow> fs_inode s' i = fs_inode s i)"

lemma only_inode_same_at:
  "only_inode fd s s' \<Longrightarrow> fs_dir s p \<noteq> Some fd \<Longrightarrow> fs_disk s p \<noteq> Some fd \<Longrightarrow> same_at p s s'"
  by (auto simp: only_inode_def same_at_def)

lemma only_inode_append: "only_inode fd (fs_append fd b s) s' \<Longrightarrow> only_inode fd s s'"
  by (simp add: only_inode_def fs_append_def)

lemma write_loop_frame:
  "write_loop outs fd cs s = (tr, s', st) \<Longrightarrow>
   (\<forall>t\<in>set tr. only_inode fd s t) \<and> only_inode fd s s' \<and>
   (st = Some (Inr ()) \<longrightarrow> in_data (fs_inode s' fd) = in_data (fs_inode s fd) @ cs)"
proof (induction outs fd cs s arbitrary: tr rule: write_loop.induct)
  case (4 n outs fd c cs s)
  let ?k = "min n (length (c # cs))"
  let ?s = "fs_append fd (take ?k (c # cs)) s"
  obtain tr' where rec: "write_loop outs fd (drop ?k (c # cs)) ?s = (tr', s', st)" and tr: "tr = ?s # tr'"
    using "4.prems" by (auto simp: Let_def split: prod.splits)
  from "4.IH" [OF refl refl rec]
  have *: "\<forall>t\<in>set tr'. only_inode fd ?s t" "only_inode fd ?s s'"
      "st = Some (Inr ()) \<longrightarrow> in_data (fs_inode s' fd) = in_data (fs_inode ?s fd) @ drop ?k (c # cs)"
    by auto
  have "only_inode fd s ?s" by (simp add: only_inode_def fs_append_def)
  moreover have "in_data (fs_inode ?s fd) @ drop ?k (c # cs) = in_data (fs_inode s fd) @ (c # cs)"
    by (simp add: fs_append_def)
  ultimately show ?case using * only_inode_append by (auto simp: tr)
qed (auto simp: only_inode_def split: if_splits)

text \<open>The loop finishes when no call fails and the calls together take the whole content.\<close>

fun write_total :: "write_ret list \<Rightarrow> nat" where
  "write_total [] = 0"
| "write_total (Wrote n # outs) = n + write_total outs"
| "write_total (Write_Error e # outs) = write_total outs"

lemma write_loop_finishes:
  assumes "\<forall>e. Write_Error e \<in> set outs \<longrightarrow> e = EINTR" and "length cs \<le> write_total outs"
  shows "snd (snd (write_loop outs fd cs s)) = Some (Inr ())"
  using assms
proof (induction outs fd cs s rule: write_loop.induct)
  case (4 n outs fd c cs s)
  have "length (drop (min n (length (c # cs))) (c # cs)) \<le> write_total outs" using "4.prems"(2) by auto
  with "4.IH" [OF refl refl] "4.prems"(1) show ?case by (simp add: Let_def case_prod_beta)
qed auto

section \<open>The states of a run\<close>

text \<open>The states the function may be in with respect to the target.\<close>

definition target_state :: "path \<Rightarrow> string \<Rightarrow> fsys \<Rightarrow> fsys \<Rightarrow> bool" where
  "target_state target content s t \<longleftrightarrow>
     same_at target s t \<or>
     (fs_read t target = Some content \<and>
      crash_contents t target \<subseteq> crash_contents s target \<union> {Some content})"

lemma crash_after_rename:
  assumes "fs_dir s tmp = Some fd" "fs_inode s fd = \<lparr>in_data = content, in_synced = True\<rparr>"
    and "tmp \<noteq> target" "same_at target s0 s"
  shows "target_state target content s0 (fs_rename tmp target s)"
    and "crash_contents (fs_fsync_dir (parent_or_dot target) (fs_rename tmp target s)) target = {Some content}"
    and "fs_read (fs_fsync_dir d (fs_rename tmp target s)) target = Some content"
proof -
  have "entry_contents (fs_rename tmp target s) (fs_disk s target) = entry_contents s0 (fs_disk s0 target)"
    using assms(4) by (auto simp: same_at_def entry_contents_def fs_rename_def split: option.splits)
  then show "target_state target content s0 (fs_rename tmp target s)"
    using assms(1-3)
    by (auto simp: target_state_def fs_rename_def fs_read_def crash_contents_def entry_contents_def)
  show "crash_contents (fs_fsync_dir (parent_or_dot target) (fs_rename tmp target s)) target = {Some content}"
    using assms(1-3) by (auto simp: fs_rename_def fs_fsync_dir_def crash_contents_def entry_contents_def)
  show "fs_read (fs_fsync_dir d (fs_rename tmp target s)) target = Some content"
    using assms(1-3) by (auto simp: fs_rename_def fs_fsync_dir_def fs_read_def)
qed

lemma remove_same_at: "tmp \<noteq> target \<Longrightarrow> same_at target s (fs_remove tmp s)"
  by (simp add: same_at_def fs_remove_def)

text \<open>The descriptor the source works on: the inode of the temporary name, private to it.\<close>

definition private_fd :: "path \<Rightarrow> path \<Rightarrow> nat \<Rightarrow> fsys \<Rightarrow> bool" where
  "private_fd tmp target fd s \<longleftrightarrow>
     fs_dir s tmp = Some fd \<and> fs_dir s target \<noteq> Some fd \<and> fs_disk s target \<noteq> Some fd"

lemma only_inode_private: "only_inode fd s s' \<Longrightarrow> private_fd tmp target fd s \<Longrightarrow> private_fd tmp target fd s'"
  by (simp add: only_inode_def private_fd_def)

lemma open_trunc_private:
  assumes inv: "fs_inv pid target s" and op: "fs_open_trunc (temp_path_for pid target) s = (fd, s1)"
  shows "private_fd (temp_path_for pid target) target fd s1 \<and> same_at target s s1 \<and>
     in_data (fs_inode s1 fd) = ''''"
proof (cases "fs_dir s (temp_path_for pid target)")
  case None
  have "fs_dir s target \<noteq> Some (fs_fresh s)" "fs_disk s target \<noteq> Some (fs_fresh s)"
    using inv unfolding fs_inv_def by blast+
  then show ?thesis using op None by (auto simp: fs_open_trunc_def private_fd_def same_at_def)
next
  case (Some i)
  with inv have "fs_dir s target \<noteq> Some i" "fs_disk s target \<noteq> Some i" by (auto simp: fs_inv_def)
  then show ?thesis using op Some by (auto simp: fs_open_trunc_def private_fd_def same_at_def)
qed

lemma atomic_fail_states:
  assumes "atomic_fail S tmp tr s msg e = (tr', s', r)" "tmp \<noteq> target" "same_at target s0 s"
  shows "set tr' = insert s' (set tr) \<and> same_at target s0 s' \<and> r = Some (Inl (make_error msg e)) \<and>
     (sys_remove S \<longrightarrow> fs_dir s' tmp = None)"
  using assms same_at_trans [OF assms(3) remove_same_at [OF assms(2)]]
  by (auto simp: atomic_fail_def Let_def fs_remove_def)

lemma fsync_same_at:
  assumes "private_fd tmp target fd s"
  shows "same_at target s (fs_fsync fd s)"
  using assms by (auto simp: private_fd_def same_at_def fs_fsync_def)

lemma atomic_publish_states:
  assumes pub: "atomic_publish S tmp target fd tr s = (tr', s', r)" and neq: "tmp \<noteq> target"
    and priv: "private_fd tmp target fd s" and data: "in_data (fs_inode s fd) = content"
    and same: "same_at target s0 s" and tr: "\<forall>t\<in>set tr. target_state target content s0 t"
  shows "(\<forall>t\<in>set tr'. target_state target content s0 t) \<and> s' \<in> set tr' \<and>
     (r = Some (Inr ()) \<longrightarrow> crash_contents s' target = {Some content} \<and> fs_read s' target = Some content)"
proof -
  define s1 where "s1 = fs_fsync fd s"
  have same1: "same_at target s0 s1"
    using same_at_trans [OF same fsync_same_at [OF priv]] by (simp add: s1_def)
  have "fs_dir s1 tmp = Some fd" "fs_inode s1 fd = \<lparr>in_data = content, in_synced = True\<rparr>"
    using priv data by (cases "fs_inode s fd"; simp add: s1_def fs_fsync_def private_fd_def)+
  note ren = crash_after_rename [OF this neq same1]
  have sync: "target_state target content s0 (fs_fsync_dir (parent_or_dot target) (fs_rename tmp target s1))"
    using ren by (auto simp: target_state_def)
  have st: "target_state target content s0 t" if "same_at target s0 t" for t
    using that by (simp add: target_state_def)
  consider "sys_fsync S \<noteq> 0" | "sys_fsync S = 0" "sys_close S \<noteq> 0"
    | "sys_fsync S = 0" "sys_close S = 0" "sys_rename S \<noteq> 0"
    | "sys_fsync S = 0" "sys_close S = 0" "sys_rename S = 0" by blast
  then show ?thesis
  proof cases
    case 1
    with pub tr atomic_fail_states [OF _ neq same, of S tr _ _ tr' s' r] st show ?thesis
      by (auto simp: atomic_publish_def)
  next
    case 2
    with pub tr atomic_fail_states [OF _ neq same1, of S "tr @ [s1]" _ _ tr' s' r] st same1 show ?thesis
      by (auto simp: atomic_publish_def s1_def Let_def)
  next
    case 3
    with pub tr atomic_fail_states [OF _ neq same1, of S "tr @ [s1]" _ _ tr' s' r] st same1 show ?thesis
      by (auto simp: atomic_publish_def s1_def Let_def)
  next
    case 4
    with pub tr ren sync st same1 show ?thesis
      by (auto simp: atomic_publish_def s1_def Let_def split: if_splits)
  qed
qed

lemma atomic_write_file_states:
  assumes run: "atomic_write_file S pid target content s0 = (tr, s', r)" and inv: "fs_inv pid target s0"
  shows "(\<forall>t\<in>set tr. target_state target content s0 t) \<and> target_state target content s0 s' \<and>
     (r = Some (Inr ()) \<longrightarrow> crash_contents s' target = {Some content} \<and> fs_read s' target = Some content)"
proof (cases "sys_open S = 0")
  case False
  with run show ?thesis by (auto simp: atomic_write_file_def Let_def target_state_def)
next
  case True
  let ?tmp = "temp_path_for pid target"
  obtain fd s1 where op: "fs_open_trunc ?tmp s0 = (fd, s1)" by fastforce
  obtain wtr s2 st where wl: "write_loop (sys_writes S) fd content s1 = (wtr, s2, st)"
    by (cases "write_loop (sys_writes S) fd content s1") auto
  from open_trunc_private [OF inv op]
  have priv: "private_fd ?tmp target fd s1" and same1: "same_at target s0 s1"
    and empty: "in_data (fs_inode s1 fd) = ''''" by auto
  have frame: "same_at target s0 t" if "only_inode fd s1 t" for t
    using same_at_trans [OF same1 only_inode_same_at [OF that]] priv by (simp add: private_fd_def)
  note fr = write_loop_frame [OF wl]
  have states: "\<forall>t\<in>set (s1 # wtr). target_state target content s0 t"
    using fr frame same1 by (auto simp: target_state_def)
  have same2: "same_at target s0 s2" and priv2: "private_fd ?tmp target fd s2"
    using fr frame only_inode_private [OF _ priv] by auto
  consider "st = None" | e where "st = Some (Inl e)" | "st = Some (Inr ())"
    by (cases st) (auto, metis old.sum.exhaust old.unit.exhaust)
  then show ?thesis
  proof cases
    case 1
    with run True op wl states same2 show ?thesis
      by (auto simp: atomic_write_file_def Let_def target_state_def)
  next
    case (2 e)
    with run True op wl
    have "atomic_fail S ?tmp (s1 # wtr) s2 (''write('' @ ?tmp @ '') failed'') e = (tr, s', r)"
      by (simp add: atomic_write_file_def Let_def)
    from atomic_fail_states [OF this temp_path_neq(1) same2] states show ?thesis
      by (auto simp: target_state_def)
  next
    case 3
    with run True op wl have pub: "atomic_publish S ?tmp target fd (s1 # wtr) s2 = (tr, s', r)"
      by (simp add: atomic_write_file_def Let_def)
    have "in_data (fs_inode s2 fd) = content" using fr 3 empty by simp
    from atomic_publish_states [OF pub temp_path_neq(1) priv2 this same2 states] show ?thesis by blast
  qed
qed

section \<open>The invariant is kept\<close>

lemma fs_inv_open_trunc:
  assumes "fs_inv pid target s" and "fs_open_trunc (temp_path_for pid target) s = (fd, s1)"
  shows "fs_inv pid target s1"
proof (cases "fs_dir s (temp_path_for pid target)")
  case None
  have "fs_disk s target \<noteq> Some (fs_fresh s)" "fs_dir s target \<noteq> Some (fs_fresh s)"
    using assms(1) unfolding fs_inv_def by blast+
  with assms None show ?thesis by (auto simp: fs_inv_def fs_open_trunc_def less_Suc_eq split: if_splits)
next
  case (Some i)
  with assms show ?thesis by (auto simp: fs_inv_def fs_open_trunc_def)
qed

lemma fs_inv_only_inode: "only_inode fd s s' \<Longrightarrow> fs_inv pid target s \<Longrightarrow> fs_inv pid target s'"
  by (simp add: only_inode_def fs_inv_def)

lemma fs_inv_fsync: "fs_inv pid target s \<Longrightarrow> fs_inv pid target (fs_fsync fd s)"
  by (simp add: fs_inv_def fs_fsync_def)

lemma fs_inv_remove: "fs_inv pid target s \<Longrightarrow> fs_inv pid target (fs_remove (temp_path_for pid target) s)"
  by (auto simp: fs_inv_def fs_remove_def)

lemma fs_inv_rename:
  "fs_inv pid target s \<Longrightarrow> fs_inv pid target (fs_rename (temp_path_for pid target) target s)"
  by (auto simp: fs_inv_def fs_rename_def)

lemma fs_inv_fsync_dir: "fs_inv pid target s \<Longrightarrow> fs_inv pid target (fs_fsync_dir d s)"
  by (auto simp: fs_inv_def fs_fsync_dir_def)

lemmas fs_inv_steps = fs_inv_fsync fs_inv_remove fs_inv_rename fs_inv_fsync_dir

lemma atomic_fail_inv:
  "fs_inv pid target s \<Longrightarrow>
   fs_inv pid target (fst (snd (atomic_fail S (temp_path_for pid target) tr s msg e)))"
  by (simp add: atomic_fail_def Let_def fs_inv_steps)

lemma atomic_publish_inv:
  "fs_inv pid target s \<Longrightarrow>
   fs_inv pid target (fst (snd (atomic_publish S (temp_path_for pid target) target fd tr s)))"
  by (simp add: atomic_publish_def Let_def fs_inv_steps atomic_fail_inv)

lemma atomic_write_file_inv:
  assumes "fs_inv pid target s"
  shows "fs_inv pid target (fst (snd (atomic_write_file S pid target content s)))"
proof -
  let ?tmp = "temp_path_for pid target"
  obtain fd s1 where op: "fs_open_trunc ?tmp s = (fd, s1)" by fastforce
  obtain wtr s2 st where wl: "write_loop (sys_writes S) fd content s1 = (wtr, s2, st)"
    by (cases "write_loop (sys_writes S) fd content s1") auto
  have "fs_inv pid target s2"
    using write_loop_frame [OF wl] fs_inv_open_trunc [OF assms op] fs_inv_only_inode by blast
  then show ?thesis
    using assms
    by (auto simp: atomic_write_file_def Let_def op wl atomic_fail_inv atomic_publish_inv
        split: option.splits sum.splits)
qed

section \<open>The store the clients rely on\<close>

text \<open>All states passed while a list of saves runs, the initial one included.\<close>

fun run_saves :: "('e \<Rightarrow> 'c \<Rightarrow> 's \<Rightarrow> 's list \<times> 's \<times> bool) \<Rightarrow> ('e \<times> 'c) list \<Rightarrow> 's \<Rightarrow> 's list" where
  "run_saves save [] s = [s]"
| "run_saves save ((e, c) # jobs) s =
     (case save e c s of (tr, s', ok) \<Rightarrow> s # tr @ run_saves save jobs s')"

text \<open>
  The contract: at every moment of a save, what a crash can leave under the key is what it could
  leave before or the new content; a successful save leaves the new content only.
\<close>

locale crash_safe_store =
  fixes save :: "'e \<Rightarrow> 'c \<Rightarrow> 's \<Rightarrow> 's list \<times> 's \<times> bool"
    and inv :: "'s \<Rightarrow> bool"
    and crash :: "'s \<Rightarrow> 'c option set"
  assumes save_inv: "inv s \<Longrightarrow> save e c s = (tr, s', ok) \<Longrightarrow> inv s'"
    and save_crash: "inv s \<Longrightarrow> save e c s = (tr, s', ok) \<Longrightarrow> t \<in> insert s' (set tr) \<Longrightarrow>
      crash t \<subseteq> crash s \<union> {Some c}"
    and save_durable: "inv s \<Longrightarrow> save e c s = (tr, s', True) \<Longrightarrow> crash s' = {Some c}"
begin

lemma run_saves_crash:
  "inv s \<Longrightarrow> t \<in> set (run_saves save jobs s) \<Longrightarrow> crash t \<subseteq> crash s \<union> Some ` snd ` set jobs"
proof (induction jobs arbitrary: s)
  case (Cons job jobs)
  obtain e c where job: "job = (e, c)" by fastforce
  obtain tr s' ok where sv: "save e c s = (tr, s', ok)" by (cases "save e c s") auto
  have mid: "crash u \<subseteq> crash s \<union> {Some c}" if "u \<in> insert s' (set tr)" for u
    by (rule save_crash [OF Cons.prems(1) sv that])
  consider "t = s" | "t \<in> set tr" | "t \<in> set (run_saves save jobs s')"
    using Cons.prems(2) sv by (auto simp: job)
  then show ?case
  proof cases
    case 3
    then have "crash t \<subseteq> crash s' \<union> Some ` snd ` set jobs"
      using Cons.IH save_inv [OF Cons.prems(1) sv] by blast
    then show ?thesis using mid [of s'] by (auto simp: job)
  qed (use mid [of t] in \<open>auto simp: job\<close>)
qed simp

text \<open>So a property of the old content and of everything saved survives a crash at any moment.\<close>

lemma run_saves_predicate:
  assumes "inv s" "\<forall>x\<in>crash s. P x" "\<forall>(e, c)\<in>set jobs. P (Some c)" "t \<in> set (run_saves save jobs s)"
  shows "\<forall>x\<in>crash t. P x"
  using run_saves_crash [OF assms(1,4)] assms(2,3) by fastforce

end

definition atomic_save :: "nat \<Rightarrow> path \<Rightarrow> sys_outcomes \<Rightarrow> string \<Rightarrow> fsys \<Rightarrow> fsys list \<times> fsys \<times> bool" where
  "atomic_save pid target S content s =
     (case atomic_write_file S pid target content s of (tr, s', r) \<Rightarrow> (tr, s', r = Some (Inr ())))"

lemma target_state_crash:
  "target_state target content s t \<Longrightarrow> crash_contents t target \<subseteq> crash_contents s target \<union> {Some content}"
  using same_at_crash by (fastforce simp: target_state_def)

interpretation afile: crash_safe_store "atomic_save pid target" "fs_inv pid target"
    "\<lambda>s. crash_contents s target" for pid target
proof unfold_locales
  fix e :: sys_outcomes and c s tr s' ok t
  assume inv: "fs_inv pid target s"
  { assume "atomic_save pid target e c s = (tr, s', ok)"
    then obtain r where run: "atomic_write_file e pid target c s = (tr, s', r)" and ok: "ok = (r = Some (Inr ()))"
      by (auto simp: atomic_save_def split: prod.splits)
    show "fs_inv pid target s'" using atomic_write_file_inv [OF inv, of e c] run by simp
    show "t \<in> insert s' (set tr) \<Longrightarrow> crash_contents t target \<subseteq> crash_contents s target \<union> {Some c}"
      using atomic_write_file_states [OF run inv] target_state_crash by blast }
  { assume "atomic_save pid target e c s = (tr, s', True)"
    then have "atomic_write_file e pid target c s = (tr, s', Some (Inr ()))"
      by (auto simp: atomic_save_def split: prod.splits)
    from atomic_write_file_states [OF this inv] show "crash_contents s' target = {Some c}" by blast }
qed

section \<open>Errors\<close>

lemma atomic_publish_error_cleans:
  assumes "atomic_publish S tmp target fd tr s = (tr', s', Some (Inl e))" "sys_remove S"
  shows "fs_dir s' tmp = None"
  using assms by (auto simp: atomic_publish_def atomic_fail_def Let_def fs_remove_def fs_rename_def split: if_splits)

lemma atomic_error_cleans:
  assumes run: "atomic_write_file S pid target content s = (tr, s', Some (Inl e))"
    and "sys_open S = 0" "sys_remove S"
  shows "fs_dir s' (temp_path_for pid target) = None"
  using assms
  by (auto simp: atomic_write_file_def Let_def atomic_fail_def fs_remove_def atomic_publish_error_cleans
      split: prod.splits option.splits sum.splits)

section \<open>Other files\<close>

text \<open>Without hard links a write touches only its target and the temporary file.\<close>

definition fs_unlinked :: "fsys \<Rightarrow> bool" where
  "fs_unlinked s \<longleftrightarrow> (\<forall>p i. fs_dir s p = Some i \<longrightarrow> i < fs_fresh s) \<and>
     (\<forall>p q i. fs_dir s p = Some i \<longrightarrow> fs_dir s q = Some i \<longrightarrow> p = q)"

lemma only_inode_read: "only_inode fd s s' \<Longrightarrow> fs_dir s p \<noteq> Some fd \<Longrightarrow> fs_read s' p = fs_read s p"
  by (cases "fs_dir s p") (auto simp: only_inode_def fs_read_def)

lemma open_trunc_elsewhere:
  assumes "fs_unlinked s" "fs_open_trunc tmp s = (fd, s1)"
  shows "fs_dir s1 tmp = Some fd \<and> fs_unlinked s1 \<and> (p \<noteq> tmp \<longrightarrow> fs_read s1 p = fs_read s p \<and> fs_dir s1 p \<noteq> Some fd)"
proof (cases "fs_dir s tmp")
  case None
  have "fs_dir s q \<noteq> Some (fs_fresh s)" for q using assms(1) unfolding fs_unlinked_def by blast
  with None assms show ?thesis
    by (cases "fs_dir s p") (auto simp: fs_open_trunc_def fs_unlinked_def fs_read_def less_Suc_eq split: if_splits)
next
  case (Some i)
  then have s1: "s1 = s\<lparr>fs_inode := (fs_inode s)(i := \<lparr>in_data = '''', in_synced = False\<rparr>)\<rparr>" "fd = i"
    using assms(2) by (auto simp: fs_open_trunc_def)
  have "fs_dir s p \<noteq> Some i" if "p \<noteq> tmp" using Some that assms(1) unfolding fs_unlinked_def by blast
  then show ?thesis using Some assms(1) s1 by (cases "fs_dir s p") (auto simp: fs_unlinked_def fs_read_def)
qed

lemma fs_unlinked_remove: "fs_unlinked s \<Longrightarrow> fs_unlinked (fs_remove q s)"
  by (auto simp: fs_unlinked_def fs_remove_def)

lemma fs_unlinked_rename: "fs_unlinked s \<Longrightarrow> fs_unlinked (fs_rename old new s)"
  unfolding fs_unlinked_def fs_rename_def by (auto split: if_splits)

lemma fs_unlinked_same_dir: "fs_dir s' = fs_dir s \<Longrightarrow> fs_fresh s' = fs_fresh s \<Longrightarrow> fs_unlinked s' = fs_unlinked s"
  by (simp add: fs_unlinked_def)

lemma dir_ops_read:
  "p \<noteq> q \<Longrightarrow> fs_read (fs_remove q s) p = fs_read s p"
  "p \<noteq> old \<Longrightarrow> p \<noteq> new \<Longrightarrow> fs_read (fs_rename old new s) p = fs_read s p"
  "fs_read (fs_fsync_dir d s) p = fs_read s p" "fs_read (fs_fsync fd s) p = fs_read s p"
  by (cases "fs_dir s p"; simp add: fs_read_def fs_remove_def fs_rename_def fs_fsync_dir_def fs_fsync_def)+

lemma dir_ops_unlinked:
  "fs_unlinked (fs_fsync_dir d s) = fs_unlinked s" "fs_unlinked (fs_fsync fd s) = fs_unlinked s"
  by (simp_all add: fs_unlinked_def fs_fsync_dir_def fs_fsync_def)

lemmas elsewhere_simps = dir_ops_read dir_ops_unlinked fs_unlinked_remove fs_unlinked_rename

lemma atomic_publish_elsewhere:
  assumes "fs_unlinked s" "p \<noteq> target" "p \<noteq> tmp"
  shows "fs_unlinked (fst (snd (atomic_publish S tmp target fd tr s)))
    \<and> fs_read (fst (snd (atomic_publish S tmp target fd tr s))) p = fs_read s p"
  using assms by (simp add: atomic_publish_def atomic_fail_def Let_def elsewhere_simps)

lemma atomic_write_elsewhere:
  assumes "fs_unlinked s" "p \<noteq> target" "p \<noteq> temp_path_for pid target"
    and "atomic_write_file S pid target content s = (tr, s', r)"
  shows "fs_unlinked s' \<and> fs_read s' p = fs_read s p"
proof (cases "sys_open S = 0")
  case False
  then show ?thesis using assms by (simp add: atomic_write_file_def Let_def)
next
  case True
  obtain fd s1 where op: "fs_open_trunc (temp_path_for pid target) s = (fd, s1)" by fastforce
  obtain tr' s2 st where loop: "write_loop (sys_writes S) fd content s1 = (tr', s2, st)" by (cases "write_loop (sys_writes S) fd content s1")
  have o: "only_inode fd s1 s2" using write_loop_frame [OF loop] by blast
  have s1: "fs_unlinked s1" "fs_read s1 p = fs_read s p" "fs_dir s1 p \<noteq> Some fd"
    using open_trunc_elsewhere [OF assms(1) op] assms(3) by auto
  have s2: "fs_unlinked s2" "fs_read s2 p = fs_read s p"
    using o s1 only_inode_read [OF o, of p] fs_unlinked_same_dir [of s2 s1] by (auto simp: only_inode_def)
  show ?thesis
  proof (cases st)
    case None
    then show ?thesis using assms(4) True op loop s2 by (simp add: atomic_write_file_def Let_def)
  next
    case (Some x)
    show ?thesis
    proof (cases x)
      case (Inl e)
      then show ?thesis using assms(3,4) True op loop s2 Some
        by (auto simp: atomic_write_file_def Let_def atomic_fail_def elsewhere_simps)
    next
      case (Inr u)
      then have "atomic_publish S (temp_path_for pid target) target fd (s1 # tr') s2 = (tr, s', r)"
        using assms(4) True op loop Some by (simp add: atomic_write_file_def Let_def)
      then show ?thesis
        using atomic_publish_elsewhere [OF s2(1) assms(2,3), of S fd "s1 # tr'"] s2(2) by simp
    qed
  qed
qed

lemma atomic_write_read:
  assumes "atomic_write_file S pid target content s = (tr, s', Some (Inr ()))"
  shows "fs_read s' target = Some content"
proof -
  obtain fd s1 where op: "fs_open_trunc (temp_path_for pid target) s = (fd, s1)" by fastforce
  then have s1: "fs_dir s1 (temp_path_for pid target) = Some fd" "in_data (fs_inode s1 fd) = ''''"
    by (auto simp: fs_open_trunc_def split: option.splits)
  obtain tr' s2 st where loop: "write_loop (sys_writes S) fd content s1 = (tr', s2, st)" by (metis prod_cases3)
  have opened: "sys_open S = 0" using assms by (auto simp: atomic_write_file_def Let_def make_error_def split: if_splits)
  then have st: "st = Some (Inr ())"
    using assms op loop by (auto simp: atomic_write_file_def Let_def atomic_fail_def split: option.splits sum.splits)
  have "atomic_publish S (temp_path_for pid target) target fd (s1 # tr') s2 = (tr, s', Some (Inr ()))"
    using assms opened op loop st by (simp add: atomic_write_file_def Let_def)
  then have "s' = fs_fsync_dir (parent_or_dot target) (fs_rename (temp_path_for pid target) target (fs_fsync fd s2))"
    by (auto simp: atomic_publish_def atomic_fail_def Let_def split: if_splits)
  moreover have "fs_dir s2 (temp_path_for pid target) = Some fd" "in_data (fs_inode s2 fd) = content"
    using write_loop_frame [OF loop] s1 st by (simp_all add: only_inode_def)
  ultimately show ?thesis by (simp add: fs_read_def fs_fsync_dir_def fs_rename_def fs_fsync_def)
qed

lemma atomic_write_unlinked:
  assumes "fs_unlinked s" "atomic_write_file S pid target content s = (tr, s', r)"
  shows "fs_unlinked s'"
  using atomic_write_elsewhere [OF assms(1) _ _ assms(2), of "temp_path_for pid target @ ''x''"]
  by (simp add: temp_path_for_def)

lemma atomic_publish_target:
  assumes "fs_dir s tmp = Some fd" "fs_dir s target \<noteq> Some fd" "tmp \<noteq> target"
    and "atomic_publish S tmp target fd tr s = (tr', s', r)"
  shows "fs_read s' target = fs_read s target \<or> fs_read s' target = Some (in_data (fs_inode s fd))"
  using assms
  by (cases "fs_dir s target")
    (auto simp: atomic_publish_def atomic_fail_def Let_def fs_read_def fs_remove_def fs_rename_def fs_fsync_def fs_fsync_dir_def
      split: if_splits)

lemma atomic_write_target:
  assumes "fs_unlinked s" "atomic_write_file S pid target content s = (tr, s', r)"
  shows "fs_read s' target = fs_read s target \<or> fs_read s' target = Some content"
proof (cases "sys_open S = 0")
  case False
  then show ?thesis using assms by (simp add: atomic_write_file_def Let_def)
next
  case True
  obtain fd s1 where op: "fs_open_trunc (temp_path_for pid target) s = (fd, s1)" by fastforce
  then have empty: "in_data (fs_inode s1 fd) = ''''" by (auto simp: fs_open_trunc_def split: option.splits)
  have s1: "fs_dir s1 (temp_path_for pid target) = Some fd" "fs_read s1 target = fs_read s target" "fs_dir s1 target \<noteq> Some fd"
    using open_trunc_elsewhere [OF assms(1) op, of target] by auto
  obtain tr' s2 st where loop: "write_loop (sys_writes S) fd content s1 = (tr', s2, st)" by (metis prod_cases3)
  have o: "only_inode fd s1 s2" using write_loop_frame [OF loop] by blast
  then have s2: "fs_dir s2 (temp_path_for pid target) = Some fd" "fs_read s2 target = fs_read s target" "fs_dir s2 target \<noteq> Some fd"
    using s1 only_inode_read [OF o s1(3)] by (simp_all add: only_inode_def)
  show ?thesis
  proof (cases "st = Some (Inr ())")
    case fin: True
    have "atomic_publish S (temp_path_for pid target) target fd (s1 # tr') s2 = (tr, s', r)"
      using assms(2) True op loop fin by (simp add: atomic_write_file_def Let_def)
    from atomic_publish_target [OF s2(1,3) _ this] show ?thesis
      using write_loop_frame [OF loop] fin empty s2(2) by simp
  next
    case False
    then show ?thesis
      using assms(2) True op loop s2(2)
      by (auto simp: atomic_write_file_def Let_def atomic_fail_def elsewhere_simps split: option.splits sum.splits)
  qed
qed

text \<open>The function returns once the write calls offered to it could take the whole content.\<close>

lemma write_loop_returns: "length cs \<le> write_total outs \<Longrightarrow> snd (snd (write_loop outs fd cs s)) \<noteq> None"
proof (induction outs fd cs s rule: write_loop.induct)
  case (4 n outs fd c cs s)
  have "length (drop (min n (length (c # cs))) (c # cs)) \<le> write_total outs" using "4.prems" by auto
  with "4.IH" [OF refl refl] show ?case by (simp add: Let_def case_prod_beta)
qed auto

lemma atomic_write_returns:
  assumes "length content \<le> write_total (sys_writes S)"
  shows "snd (snd (atomic_write_file S pid target content s)) \<noteq> None"
proof -
  obtain fd s1 where op: "fs_open_trunc (temp_path_for pid target) s = (fd, s1)" by fastforce
  obtain tr s2 x where "write_loop (sys_writes S) fd content s1 = (tr, s2, Some x)"
    using write_loop_returns [OF assms, of fd s1] by (cases "write_loop (sys_writes S) fd content s1") auto
  then show ?thesis
    by (cases x) (simp_all add: atomic_write_file_def op Let_def atomic_fail_def atomic_publish_def)
qed

section \<open>Properties\<close>

text \<open>C1: power may be lost at any system call of \<open>atomic_write_file\<close>, whatever the calls return: what is
  found under the target is what was found before or the complete new content, never a torn
  file; a reader of the running system sees the old or the new file; and when the function
  reports success, the new content survives a loss of power.\<close>

theorem atomic_write_crash_safe:
  assumes "fs_inv pid target s0" and "atomic_write_file S pid target content s0 = (tr, s', r)"
  shows "(\<forall>t\<in>insert s' (set tr).
        crash_contents t target \<subseteq> crash_contents s0 target \<union> {Some content} \<and>
        fs_read t target \<in> {fs_read s0 target, Some content})
    \<and> (r = Some (Inr ()) \<longrightarrow>
        crash_contents s' target = {Some content} \<and> fs_read s' target = Some content)
    \<and> fs_inv pid target s'"
proof -
  have "fs_read t target \<in> {fs_read s0 target, Some content}" if "target_state target content s0 t" for t
    using that same_at_read by (auto simp: target_state_def)
  then show ?thesis
    using atomic_write_file_states [OF assms(2,1)] target_state_crash
      atomic_write_file_inv [OF assms(1), of S content] assms(2) by auto
qed

definition sample_fs :: fsys where
  "sample_fs = \<lparr>fs_dir = [''/run/s.json'' \<mapsto> 0], fs_disk = [''/run/s.json'' \<mapsto> 0],
     fs_inode = (\<lambda>i. \<lparr>in_data = ''old'', in_synced = True\<rparr>), fs_fresh = 1\<rparr>"

definition sample_sys :: sys_outcomes where
  "sample_sys = \<lparr>sys_open = 0, sys_writes = [Wrote 2, Write_Error EINTR, Wrote 1], sys_fsync = 0,
     sys_close = 0, sys_rename = 0, sys_open_dir = 0, sys_fsync_dir = 0, sys_remove = True\<rparr>"

lemma sample_fs_inv: "fs_inv pid ''/run/s.json'' sample_fs"
  by (auto simp: fs_inv_def sample_fs_def split: if_splits)

lemma sample_run: "snd (snd (atomic_write_file sample_sys 7 ''/run/s.json'' ''new'' sample_fs)) = Some (Inr ())"
  by (simp add: atomic_write_file_def atomic_publish_def fs_open_trunc_def sample_fs_def sample_sys_def
      Let_def temp_path_for_def numeral_2_eq_2)

theorem atomic_write_crash_safe_witness:
  "crash_contents (fst (snd (atomic_write_file sample_sys 7 ''/run/s.json'' ''new'' sample_fs)))
     ''/run/s.json'' = {Some ''new''}"
  using atomic_write_crash_safe [OF sample_fs_inv, of sample_sys 7 "''new''"] sample_run
  by (cases "atomic_write_file sample_sys 7 ''/run/s.json'' ''new'' sample_fs") auto

text \<open>Over any number of saves to one file, interrupted or not, a crash leaves a content that was
  there at the start or that was handed to one of the saves, so a property that all of these
  have (being a complete document) is never lost.\<close>

theorem repeated_saves_crash_safe:
  assumes "fs_inv pid target s" and "\<forall>x\<in>crash_contents s target. P x"
    and "\<forall>(S, c)\<in>set jobs. P (Some c)" and "t \<in> set (run_saves (atomic_save pid target) jobs s)"
  shows "\<forall>x\<in>crash_contents t target. P x"
  by (rule afile.run_saves_predicate [OF assms])

theorem repeated_saves_crash_safe_witness:
  "list_all (\<lambda>t. crash_contents t ''/run/s.json'' \<subseteq> {Some ''old'', Some ''one'', Some ''two''})
     (run_saves (atomic_save 7 ''/run/s.json'') [(sample_sys, ''one''), (sample_sys, ''two'')] sample_fs)"
  unfolding list_all_iff
proof
  fix t
  assume "t \<in> set (run_saves (atomic_save 7 ''/run/s.json'') [(sample_sys, ''one''), (sample_sys, ''two'')] sample_fs)"
  then have "\<forall>x\<in>crash_contents t ''/run/s.json''. x \<in> {Some ''old'', Some ''one'', Some ''two''}"
    by (rule repeated_saves_crash_safe [OF sample_fs_inv, rotated 2])
       (auto simp: crash_contents_def entry_contents_def sample_fs_def)
  then show "crash_contents t ''/run/s.json'' \<subseteq> {Some ''old'', Some ''one'', Some ''two''}" by blast
qed

text \<open>When the function fails after creating the temporary file and the removal works, no temporary
  file is left; and when no call fails for good and the writes take the whole content, in pieces
  and interrupted as often as the system likes, the function succeeds.\<close>

theorem atomic_write_outcomes:
  "(\<forall>tr s' e. atomic_write_file S pid target content s = (tr, s', Some (Inl e)) \<longrightarrow>
      sys_open S = 0 \<longrightarrow> sys_remove S \<longrightarrow> fs_dir s' (temp_path_for pid target) = None)
   \<and> (sys_open S = 0 \<and> sys_fsync S = 0 \<and> sys_close S = 0 \<and> sys_rename S = 0 \<and> sys_open_dir S = 0
      \<and> sys_fsync_dir S = 0 \<and> (\<forall>e. Write_Error e \<in> set (sys_writes S) \<longrightarrow> e = EINTR)
      \<and> length content \<le> write_total (sys_writes S)
      \<longrightarrow> snd (snd (atomic_write_file S pid target content s)) = Some (Inr ()))"
proof -
  have "snd (snd (atomic_write_file S pid target content s)) = Some (Inr ())"
    if asm: "sys_open S = 0" "sys_fsync S = 0" "sys_close S = 0" "sys_rename S = 0" "sys_open_dir S = 0"
      "sys_fsync_dir S = 0" "\<forall>e. Write_Error e \<in> set (sys_writes S) \<longrightarrow> e = EINTR"
      "length content \<le> write_total (sys_writes S)"
  proof -
    obtain fd s1 where op: "fs_open_trunc (temp_path_for pid target) s = (fd, s1)" by fastforce
    obtain tr s2 where "write_loop (sys_writes S) fd content s1 = (tr, s2, Some (Inr ()))"
      using write_loop_finishes [OF asm(7,8), of fd s1]
      by (cases "write_loop (sys_writes S) fd content s1") auto
    with asm op show ?thesis by (simp add: atomic_write_file_def atomic_publish_def Let_def)
  qed
  then show ?thesis using atomic_error_cleans by blast
qed

theorem atomic_write_outcomes_witness:
  "snd (snd (atomic_write_file sample_sys 1 ''/data/boot.json'' ''{}'' sample_fs)) = Some (Inr ())"
  using atomic_write_outcomes [of sample_sys 1 "''/data/boot.json''" "''{}''" sample_fs]
  by (auto simp: sample_sys_def)

end
