(* ===== verification/Writer.thy ===== *)
theory Writer
  imports Config Json_Serialize Atomic_File
begin

text \<open>
  The snapshot writer, \<^verbatim>\<open>src/writer.cpp\<close>: creating the directory, serialising, and replacing
  the file through \<open>atomic_write_file\<close>.
\<close>

record writer_error =
  we_message :: string
  we_code :: int

definition we_what :: "writer_error \<Rightarrow> string" where
  "we_what e = (if we_code e \<noteq> 0 then we_message e @ '' (errno '' @ show_int (we_code e) @ '')''
     else we_message e)"

record snapshot_writer =
  output_path :: path
  pretty :: bool

definition snapshot_writer_new :: "path \<Rightarrow> snapshot_writer" where
  "snapshot_writer_new p = \<lparr>output_path = p, pretty = False\<rparr>"

definition set_output_path :: "path \<Rightarrow> snapshot_writer \<Rightarrow> snapshot_writer" where
  "set_output_path p w = w\<lparr>output_path := p\<rparr>"

definition set_pretty :: "bool \<Rightarrow> snapshot_writer \<Rightarrow> snapshot_writer" where
  "set_pretty enable w = w\<lparr>pretty := enable\<rparr>"

definition writer_to_json :: "json_lib \<Rightarrow> snapshot_state \<Rightarrow> string + string" where
  "writer_to_json J s = serialize J s"

definition writer_to_json_pretty :: "json_lib \<Rightarrow> snapshot_state \<Rightarrow> int \<Rightarrow> string + string" where
  "writer_to_json_pretty J s indent = serialize_pretty J s indent"

text \<open>\<open>mkdir\<close> is the error code of \<^verbatim>\<open>create_directories\<close>, 0 for success.\<close>

definition ensure_directory :: "snapshot_writer \<Rightarrow> int \<Rightarrow> writer_error + unit" where
  "ensure_directory w mkdir =
     (if mkdir \<noteq> 0 then Inl \<lparr>we_message = ''Failed to create directory: '' @ parent_path (output_path w),
        we_code = mkdir\<rparr>
      else Inr ())"

definition write_atomic ::
  "snapshot_writer \<Rightarrow> sys_outcomes \<Rightarrow> nat \<Rightarrow> string \<Rightarrow> fsys \<Rightarrow>
   fsys list \<times> fsys \<times> (writer_error + unit) option" where
  "write_atomic w S pid content s =
     (case atomic_write_file S pid (output_path w) content s of
        (tr, s', r) \<Rightarrow> (tr, s', map_option (\<lambda>x. case x of
           Inl e \<Rightarrow> Inl \<lparr>we_message = afe_message e, we_code = afe_code e\<rparr>
         | Inr u \<Rightarrow> Inr u) r))"

text \<open>
  The outcome of a write: an exception of the serialiser, which the writer lets through, or its
  result (\<open>None\<close> when the system never finishes the write calls).
\<close>

datatype write_outcome = Write_Exception string | Write_Result "(writer_error + unit) option"

definition writer_write ::
  "json_lib \<Rightarrow> snapshot_writer \<Rightarrow> int \<Rightarrow> sys_outcomes \<Rightarrow> nat \<Rightarrow> snapshot_state \<Rightarrow> fsys \<Rightarrow>
   fsys list \<times> fsys \<times> write_outcome" where
  "writer_write J w mkdir S pid st s =
     (case ensure_directory w mkdir of
        Inl e \<Rightarrow> ([], s, Write_Result (Some (Inl e)))
      | Inr _ \<Rightarrow>
          (case (if pretty w then writer_to_json_pretty J st 2 else writer_to_json J st) of
             Inl ex \<Rightarrow> ([], s, Write_Exception ex)
           | Inr content \<Rightarrow>
               (case write_atomic w S pid content s of (tr, s', r) \<Rightarrow> (tr, s', Write_Result r))))"

section \<open>Correctness\<close>

definition snapshot_text :: "json_lib \<Rightarrow> snapshot_writer \<Rightarrow> snapshot_state \<Rightarrow> string + string" where
  "snapshot_text J w st = jl_dump_replace J (if pretty w then 2 else - 1) (snapshot_json st)"

lemma writer_write_cases:
  assumes "writer_write J w mkdir S pid st s = (tr, s', out)"
  obtains (nothing) "tr = []" "s' = s" "out \<noteq> Write_Result (Some (Inr ()))"
  | (atomic) content r where "mkdir = 0" "snapshot_text J w st = Inr content"
      "atomic_write_file S pid (output_path w) content s = (tr, s', r)"
      "out = Write_Result (Some (Inr ())) \<longleftrightarrow> r = Some (Inr ())"
proof -
  let ?d = "if pretty w then writer_to_json_pretty J st 2 else writer_to_json J st"
  have doc: "snapshot_text J w st = ?d"
    by (simp add: snapshot_text_def writer_to_json_def writer_to_json_pretty_def serialize_def
        serialize_pretty_def)
  show thesis
  proof (cases "mkdir = 0")
    case False
    show ?thesis by (rule nothing) (use False assms in \<open>auto simp: writer_write_def ensure_directory_def\<close>)
  next
    case True
    show ?thesis
    proof (cases ?d)
      case (Inl ex)
      show ?thesis
        by (rule nothing) (use True Inl assms in \<open>auto simp: writer_write_def ensure_directory_def\<close>)
    next
      case (Inr content)
      obtain r where "atomic_write_file S pid (output_path w) content s = (tr, s', r)"
          "out = Write_Result (map_option (\<lambda>x. case x of
             Inl e \<Rightarrow> Inl \<lparr>we_message = afe_message e, we_code = afe_code e\<rparr> | Inr u \<Rightarrow> Inr u) r)"
        using assms True Inr
        by (auto simp: writer_write_def ensure_directory_def write_atomic_def split: prod.splits)
      moreover have "map_option (\<lambda>x. case x of Inl e \<Rightarrow> Inl (f e) | Inr u \<Rightarrow> Inr u) r = Some (Inr ())
          \<longleftrightarrow> r = Some (Inr ())" for f :: "atomic_file_error \<Rightarrow> writer_error"
        by (cases r; cases "the r") auto
      ultimately show ?thesis using Inr True doc by (intro atomic) simp_all
    qed
  qed
qed

section \<open>Properties\<close>

text \<open>C18: whatever fails while a snapshot is written, and whenever power is lost, the snapshot file is the
  previous one or the complete text of the new snapshot; when the writer reports success the
  new text is there and durable.\<close>

theorem snapshot_file_never_torn:
  assumes "fs_inv pid (output_path w) s" and "writer_write J w mkdir S pid st s = (tr, s', out)"
  shows "(\<forall>t\<in>insert s' (set tr). \<forall>x\<in>crash_contents t (output_path w).
        x \<in> crash_contents s (output_path w) \<or> (\<exists>c. x = Some c \<and> snapshot_text J w st = Inr c))
    \<and> (out = Write_Result (Some (Inr ())) \<longrightarrow>
        (\<exists>c. snapshot_text J w st = Inr c \<and> crash_contents s' (output_path w) = {Some c}
           \<and> fs_read s' (output_path w) = Some c))"
  using assms(2)
proof (cases rule: writer_write_cases)
  case nothing
  then show ?thesis by simp
next
  case (atomic content r)
  note st = atomic_write_file_states [OF atomic(3) assms(1)]
  have "target_state (output_path w) content s t" if "t \<in> insert s' (set tr)" for t
    using that st by auto
  then have "\<forall>t\<in>insert s' (set tr). crash_contents t (output_path w)
      \<subseteq> crash_contents s (output_path w) \<union> {Some content}"
    by (intro ballI target_state_crash)
  then show ?thesis using atomic(2,4) st by auto
qed

definition sample_dump_lib :: json_lib where
  "sample_dump_lib = sample_json_lib\<lparr>jl_dump_replace := \<lambda>i j. Inr ''{}''\<rparr>"

theorem snapshot_file_never_torn_witness:
  "fs_read (fst (snd (writer_write sample_dump_lib (snapshot_writer_new ''/run/s.json'') 0 sample_sys 7
     snapshot_state_default sample_fs))) ''/run/s.json'' = Some ''{}''"
proof -
  let ?r = "writer_write sample_dump_lib (snapshot_writer_new ''/run/s.json'') 0 sample_sys 7
     snapshot_state_default sample_fs"
  have ok: "snd (snd ?r) = Write_Result (Some (Inr ()))"
    by (simp add: writer_write_def ensure_directory_def writer_to_json_def serialize_def write_atomic_def
        snapshot_writer_new_def sample_dump_lib_def atomic_write_file_def atomic_publish_def
        fs_open_trunc_def sample_fs_def sample_sys_def Let_def temp_path_for_def numeral_2_eq_2)
  obtain tr s' where run: "?r = (tr, s', Write_Result (Some (Inr ())))" using ok by (metis prod.collapse)
  have "fs_inv 7 (output_path (snapshot_writer_new ''/run/s.json'')) sample_fs"
    using sample_fs_inv by (simp add: snapshot_writer_new_def)
  from conjunct2 [OF snapshot_file_never_torn [OF this run]]
  obtain c where "snapshot_text sample_dump_lib (snapshot_writer_new ''/run/s.json'') snapshot_state_default = Inr c"
      "fs_read s' (output_path (snapshot_writer_new ''/run/s.json'')) = Some c" by auto
  then have "fs_read s' ''/run/s.json'' = Some ''{}''"
    by (simp add: snapshot_text_def snapshot_writer_new_def sample_dump_lib_def)
  then show ?thesis by (simp only: run fst_conv snd_conv)
qed

end
