(* ===== verification/Probe_Base.thy ===== *)
theory Probe_Base
  imports Config Atomic_File Time_Format
begin

text \<open>
  What the probes share: the error type of \<^verbatim>\<open>inc/probes.hpp\<close>, \<^verbatim>\<open>std::getline\<close> over
  the content of a file, joining paths, and reading JSON members into a state that keeps what was
  read before an exception.  A file is given by its content, \<open>None\<close> when it cannot be opened.
\<close>

record probe_error =
  pe_probe :: string
  pe_message :: string
  pe_code :: int

definition probe_error_what :: "probe_error \<Rightarrow> string" where
  "probe_error_what e =
     (if pe_code e \<noteq> 0
      then pe_probe e @ '': '' @ pe_message e @ '' (code '' @ show_int (pe_code e) @ '')''
      else pe_probe e @ '': '' @ pe_message e)"

definition make_probe_error :: "string \<Rightarrow> string \<Rightarrow> int \<Rightarrow> probe_error" where
  "make_probe_error p m c = \<lparr>pe_probe = p, pe_message = m, pe_code = c\<rparr>"

type_synonym 'a probe_result = "probe_error + 'a"

section \<open>Lines\<close>

text \<open>The lines \<^verbatim>\<open>std::getline\<close> returns: a final line break does not start another line.\<close>

fun getlines :: "string \<Rightarrow> string \<Rightarrow> string list" where
  "getlines acc [] = (if acc = [] then [] else [rev acc])"
| "getlines acc (c # cs) = (if c = CHR 0x0A then rev acc # getlines [] cs else getlines (c # acc) cs)"

definition lines_of :: "string \<Rightarrow> string list" where
  "lines_of s = getlines [] s"

definition first_line :: "string \<Rightarrow> string" where
  "first_line s = (case lines_of s of [] \<Rightarrow> '''' | l # _ \<Rightarrow> l)"

fun unlines :: "string list \<Rightarrow> string" where
  "unlines [] = ''''"
| "unlines (l # ls) = l @ [CHR 0x0A] @ unlines ls"

lemma getlines_append: "CHR 0x0A \<notin> set l \<Longrightarrow> getlines acc (l @ CHR 0x0A # s) = (rev acc @ l) # getlines [] s"
  by (induction l arbitrary: acc) auto

lemma lines_of_unlines: "\<forall>l\<in>set ls. CHR 0x0A \<notin> set l \<Longrightarrow> lines_of (unlines ls) = ls"
  by (induction ls) (auto simp: lines_of_def getlines_append)

lemma getlines_no_break:
  "CHR 0x0A \<notin> set acc \<Longrightarrow> l \<in> set (getlines acc s) \<Longrightarrow> CHR 0x0A \<notin> set l"
  by (induction acc s rule: getlines.induct) (auto split: if_splits)

section \<open>Paths\<close>

text \<open>\<^verbatim>\<open>dir / name\<close> for a relative name.\<close>

definition path_join :: "path \<Rightarrow> string \<Rightarrow> path" where
  "path_join d n = (if d = [] \<or> last d = CHR ''/'' then d @ n else d @ ''/'' @ n)"

section \<open>Reading members up to the first exception\<close>

fun run_steps_keep :: "('c \<Rightarrow> string + 'c) list \<Rightarrow> 'c \<Rightarrow> 'c" where
  "run_steps_keep [] c = c"
| "run_steps_keep (f # fs) c = (case f c of Inl _ \<Rightarrow> c | Inr c' \<Rightarrow> run_steps_keep fs c')"

lemma run_steps_keep_ok: "run_steps fs c = Inr c' \<Longrightarrow> run_steps_keep fs c = c'"
proof (induction fs arbitrary: c)
  case (Cons f fs)
  then show ?case by (cases "f c") simp_all
qed simp

end
