(* ===== verification/Device_Probe.thy ===== *)
theory Device_Probe
  imports Probe_Base
begin

text \<open>
  The device probe of \<^verbatim>\<open>src/probes.cpp\<close>: machine id, host name, \<^verbatim>\<open>/etc/os-release\<close> and
  \<^verbatim>\<open>uname\<close>.  The files and calls it reads are the record \<open>device_env\<close>.
\<close>

record device_env =
  de_os_release :: "string option"
  de_serial_number :: "string option"
  de_machine_id :: "string option"
  de_etc_hostname :: "string option"
  de_gethostname :: "string option"
  de_uname :: "(string \<times> string) option"  \<comment> \<open>machine and release\<close>

definition unquote :: "string \<Rightarrow> string" where
  "unquote v = (if length v \<ge> 2 \<and> hd v = CHR 0x22 \<and> last v = CHR 0x22
     then take (length v - 2) (drop 1 v) else v)"

definition os_release_line :: "string \<Rightarrow> os_info \<Rightarrow> os_info" where
  "os_release_line line os =
     (if CHR ''='' \<notin> set line then os
      else let key = takeWhile (\<lambda>c. c \<noteq> CHR ''='') line;
               value = unquote (drop (length key + 1) line)
           in if key = ''ID'' then os\<lparr>os_distro := value\<rparr>
              else if key = ''VERSION_ID'' then os\<lparr>os_version := value\<rparr>
              else if key = ''BUILD_ID'' then os\<lparr>os_build_id := value\<rparr>
              else os)"

definition read_os_release :: "device_env \<Rightarrow> os_info" where
  "read_os_release E =
     (case de_os_release E of
        None \<Rightarrow> os_info_default
      | Some content \<Rightarrow>
          let os = fold os_release_line (lines_of content) os_info_default
          in case de_uname E of None \<Rightarrow> os | Some (machine, release) \<Rightarrow> os\<lparr>os_kernel := release\<rparr>)"

definition machine_id_file :: "device_env \<Rightarrow> string" where
  "machine_id_file E =
     (case de_machine_id E of
        None \<Rightarrow> ''unknown''
      | Some content \<Rightarrow> let id = trim_back is_space (first_line content)
                        in if id = [] then ''unknown'' else id)"

definition read_machine_id :: "device_env \<Rightarrow> string" where
  "read_machine_id E =
     (case de_serial_number E of
        None \<Rightarrow> machine_id_file E
      | Some content \<Rightarrow>
          let id = filter (\<lambda>c. \<not> (c = CHR 0x00 \<or> is_space c)) (first_line content)
          in if id \<noteq> [] then id else machine_id_file E)"

definition read_hostname :: "device_env \<Rightarrow> string" where
  "read_hostname E =
     (case de_gethostname E of
        Some h \<Rightarrow> c_str (take 255 h)
      | None \<Rightarrow> (case de_etc_hostname E of Some content \<Rightarrow> first_line content | None \<Rightarrow> ''unknown''))"

definition device_collect :: "config \<Rightarrow> device_env \<Rightarrow> device_info probe_result" where
  "device_collect cfg E =
     (let info = device_info_default\<lparr>
            dev_device_id := (if cfg_device_id cfg = [] then read_machine_id E else cfg_device_id cfg),
            dev_platform := cfg_platform cfg, dev_hostname := read_hostname E,
            dev_os := read_os_release E\<rparr>
      in Inr (case de_uname E of
           None \<Rightarrow> info
         | Some (machine, release) \<Rightarrow>
             let info' = info\<lparr>dev_arch := machine\<rparr>
             in if os_kernel (dev_os info') = [] then info'\<lparr>dev_os := (dev_os info')\<lparr>os_kernel := release\<rparr>\<rparr>
                else info'))"

section \<open>Identity\<close>

lemma machine_id_file_nonempty: "machine_id_file E \<noteq> []"
  by (auto simp: machine_id_file_def Let_def split: option.splits)

lemma read_machine_id_nonempty: "read_machine_id E \<noteq> []"
  by (auto simp: read_machine_id_def Let_def machine_id_file_nonempty split: option.splits)

lemma unquote_quoted [simp]: "unquote (CHR 0x22 # v @ [CHR 0x22]) = v"
  by (simp add: unquote_def)

text \<open>The last assignment of a key wins; a quoted and a plain value are the same.\<close>

definition os_assign :: "string \<Rightarrow> string \<Rightarrow> string" where
  "os_assign k v = k @ ''='' @ v"

lemma os_release_line_assign:
  "CHR ''='' \<notin> set k \<Longrightarrow> os_release_line (os_assign k v) os =
     (if k = ''ID'' then os\<lparr>os_distro := unquote v\<rparr>
      else if k = ''VERSION_ID'' then os\<lparr>os_version := unquote v\<rparr>
      else if k = ''BUILD_ID'' then os\<lparr>os_build_id := unquote v\<rparr>
      else os)"
proof -
  assume k: "CHR ''='' \<notin> set k"
  then have "takeWhile (\<lambda>c. c \<noteq> CHR ''='') (k @ CHR ''='' # v) = k"
    by (subst takeWhile_append2) auto
  then show ?thesis by (simp add: os_release_line_def os_assign_def Let_def)
qed

section \<open>Properties\<close>

text \<open>The device identifier is never empty: the configured one, else the serial number of the device
  tree without blanks and zero bytes, else the trimmed machine id, else \<open>unknown\<close>.\<close>

theorem device_id_never_empty:
  "\<exists>info. device_collect cfg E = Inr info \<and> dev_device_id info \<noteq> []
     \<and> (cfg_device_id cfg \<noteq> [] \<longrightarrow> dev_device_id info = cfg_device_id cfg)"
  by (cases "de_uname E") (auto simp: device_collect_def Let_def read_machine_id_nonempty split: if_splits)

theorem device_id_never_empty_witness:
  "\<exists>info. device_collect (config_defaults\<lparr>cfg_device_id := ''edge-7''\<rparr>)
     \<lparr>de_os_release = None, de_serial_number = None, de_machine_id = None, de_etc_hostname = None,
      de_gethostname = None, de_uname = None\<rparr> = Inr info \<and> dev_device_id info = ''edge-7''"
  using device_id_never_empty [of "config_defaults\<lparr>cfg_device_id := ''edge-7''\<rparr>"] by auto

text \<open>Without \<^verbatim>\<open>/etc/os-release\<close> the kernel release that \<open>uname\<close> reports is never used: the
  fallback tests for an empty kernel string, and the default is \<open>unknown\<close>.\<close>

theorem kernel_fallback_dead:
  assumes "de_os_release E = None"
  shows "\<exists>info. device_collect cfg E = Inr info \<and> os_kernel (dev_os info) = ''unknown''"
  using assms
  by (cases "de_uname E") (auto simp: device_collect_def read_os_release_def os_info_default_def Let_def)

theorem kernel_fallback_dead_witness:
  "\<exists>info. device_collect config_defaults
     \<lparr>de_os_release = None, de_serial_number = None, de_machine_id = None, de_etc_hostname = None,
      de_gethostname = None, de_uname = Some (''aarch64'', ''6.6.0'')\<rparr> = Inr info
     \<and> os_kernel (dev_os info) = ''unknown''"
  by (rule kernel_fallback_dead) simp

end
