(* ===== verification/Aggregator.thy ===== *)
theory Aggregator
  imports Config
begin

text \<open>
  The aggregator, \<^verbatim>\<open>src/aggregator.cpp\<close>: per-section severity evaluation
  against the configured thresholds, the roll-up \<^verbatim>\<open>worst_of\<close>, the reason list,
  and \<^verbatim>\<open>aggregate\<close> itself.  The number of hardware threads and the wall clock are
  arguments.  The rank table of \<^verbatim>\<open>worst_of\<close> is an instance of the locale
  \<open>severity_ranking\<close>, from which the roll-up is shown to be the maximum of the documented
  order.
\<close>

section \<open>The roll-up\<close>

fun worst_rank :: "severity \<Rightarrow> int" where
  "worst_rank Sev_Unknown = 0"
| "worst_rank Sev_Ok = 1"
| "worst_rank Sev_Stale = 2"
| "worst_rank Sev_Unavailable = 3"
| "worst_rank Sev_Warn = 4"
| "worst_rank Sev_Crit = 5"

fun worst_loop :: "severity list \<Rightarrow> severity \<Rightarrow> int \<Rightarrow> severity" where
  "worst_loop [] worst wr = worst"
| "worst_loop (s # ss) worst wr =
     (let rank = worst_rank s in
      if wr < rank then worst_loop ss s rank else worst_loop ss worst wr)"

definition worst_of :: "severity list \<Rightarrow> severity" where
  "worst_of ss = worst_loop ss Sev_Unknown (- 1)"

section \<open>Section severities\<close>

definition evaluate_boot :: "config \<Rightarrow> boot_status \<Rightarrow> severity" where
  "evaluate_boot cfg boot =
     (if boot_fail_count boot \<ge> boot_fail_crit (cfg_thresholds cfg) then Sev_Crit
      else if boot_fail_count boot \<ge> boot_fail_warn (cfg_thresholds cfg) then Sev_Warn
      else if \<not> boot_ok boot then Sev_Warn
      else Sev_Ok)"

definition evaluate_services :: "services_status \<Rightarrow> severity" where
  "evaluate_services services = services_overall services"

definition evaluate_time_sync :: "time_sync_status \<Rightarrow> severity" where
  "evaluate_time_sync ts = time_sync_overall ts"

definition evaluate_update :: "update_status \<Rightarrow> severity" where
  "evaluate_update u = update_overall u"

definition evaluate_journal :: "journal_status \<Rightarrow> severity" where
  "evaluate_journal j = journal_overall j"

definition evaluate_crash :: "crash_status \<Rightarrow> severity" where
  "evaluate_crash crash =
     (if panic_count crash = 0 then Sev_Ok
      else if acknowledged crash then Sev_Ok
      else if panic_current_boot crash then Sev_Crit else Sev_Warn)"

definition cpu_load_pct :: "u32 \<Rightarrow> cpu_load \<Rightarrow> double" where
  "cpu_load_pct hw c =
     (let cores = max 1 hw in d_mul (d_div (load1 c) (Fin (of_nat (unat cores)))) (Fin 100))"

definition evaluate_cpu :: "config \<Rightarrow> u32 \<Rightarrow> cpu_load \<Rightarrow> severity" where
  "evaluate_cpu cfg hw c =
     (let load_pct = cpu_load_pct hw c in
      if d_ge load_pct (d_of_u8 (cpu_load_crit (cfg_thresholds cfg))) then Sev_Crit
      else if d_ge load_pct (d_of_u8 (cpu_load_warn (cfg_thresholds cfg))) then Sev_Warn
      else Sev_Ok)"

definition mem_pct :: "memory_usage \<Rightarrow> u64" where
  "mem_pct m = (mem_used_mb m * 100) div mem_total_mb m"

definition evaluate_memory :: "config \<Rightarrow> memory_usage \<Rightarrow> severity" where
  "evaluate_memory cfg m =
     (if mem_total_mb m = 0 then Sev_Unknown
      else if mem_pct m \<ge> ucast (mem_used_crit (cfg_thresholds cfg)) then Sev_Crit
      else if mem_pct m \<ge> ucast (mem_used_warn (cfg_thresholds cfg)) then Sev_Warn
      else Sev_Ok)"

fun disk_loop :: "config \<Rightarrow> storage_mount list \<Rightarrow> severity \<Rightarrow> severity" where
  "disk_loop cfg [] worst = worst"
| "disk_loop cfg (m # ms) worst = disk_loop cfg ms
     (case sm_used_pct m of
        None \<Rightarrow> worst_of [worst, Sev_Unavailable]
      | Some p \<Rightarrow>
          if \<not> sm_available m then worst_of [worst, Sev_Unavailable]
          else if p \<ge> disk_used_crit (cfg_thresholds cfg) then worst_of [worst, Sev_Crit]
          else if p \<ge> disk_used_warn (cfg_thresholds cfg) then worst_of [worst, Sev_Warn]
          else worst)"

definition evaluate_disk :: "config \<Rightarrow> storage_mount list \<Rightarrow> severity" where
  "evaluate_disk cfg ms = disk_loop cfg ms Sev_Ok"

fun thermal_loop :: "config \<Rightarrow> thermal_sensor list \<Rightarrow> severity \<Rightarrow> severity" where
  "thermal_loop cfg [] worst = worst"
| "thermal_loop cfg (s # ss) worst = thermal_loop cfg ss
     (case ts_temp_c s of
        None \<Rightarrow> worst_of [worst, Sev_Unavailable]
      | Some t \<Rightarrow>
          if \<not> ts_available s then worst_of [worst, Sev_Unavailable]
          else if d_ge t (temp_crit_c (cfg_thresholds cfg)) then worst_of [worst, Sev_Crit]
          else if d_ge t (temp_warn_c (cfg_thresholds cfg)) then worst_of [worst, Sev_Warn]
          else worst)"

definition evaluate_thermal :: "config \<Rightarrow> thermal_sensor list \<Rightarrow> severity" where
  "evaluate_thermal cfg ss = thermal_loop cfg ss Sev_Ok"

definition evaluate_resources :: "config \<Rightarrow> u32 \<Rightarrow> resources_status \<Rightarrow> severity" where
  "evaluate_resources cfg hw r =
     (let cpu_sev = evaluate_cpu cfg hw (cpu r);
          mem_sev = evaluate_memory cfg (memory r);
          disk_sev = evaluate_disk cfg (storage r);
          thermal_sev = evaluate_thermal cfg (thermal r)
      in worst_of [cpu_sev, mem_sev, disk_sev, thermal_sev])"

definition compute_overall ::
  "severity \<Rightarrow> severity \<Rightarrow> severity \<Rightarrow> severity \<Rightarrow> severity \<Rightarrow> severity \<Rightarrow> severity \<Rightarrow> severity" where
  "compute_overall b s r t u j c = worst_of [b, s, r, t, u, j, c]"

section \<open>Reasons\<close>

definition unit_reasons :: "services_status \<Rightarrow> string list" where
  "unit_reasons services =
     map (\<lambda>u. ''svc_failed:'' @ su_name u)
       (filter (\<lambda>u. su_state u = Svc_Failed) (services_units services))"

definition memory_reasons :: "config \<Rightarrow> memory_usage \<Rightarrow> string list" where
  "memory_reasons cfg m =
     (if mem_total_mb m > 0 \<and> mem_pct m \<ge> ucast (mem_used_warn (cfg_thresholds cfg))
      then [''mem_used_high''] else [])"

text \<open>
  \<^verbatim>\<open>mount.used_pct >= t\<close> compares an optional with a value: an empty optional is
  less than every value.
\<close>

definition disk_high :: "config \<Rightarrow> storage_mount \<Rightarrow> bool" where
  "disk_high cfg m =
     (case sm_used_pct m of None \<Rightarrow> False | Some p \<Rightarrow> p \<ge> disk_used_warn (cfg_thresholds cfg))"

definition disk_reasons :: "config \<Rightarrow> storage_mount list \<Rightarrow> string list" where
  "disk_reasons cfg ms = map (\<lambda>m. ''disk_used_high:'' @ sm_mount m) (filter (disk_high cfg) ms)"

definition temp_high :: "config \<Rightarrow> thermal_sensor \<Rightarrow> bool" where
  "temp_high cfg s =
     (case ts_temp_c s of None \<Rightarrow> False | Some t \<Rightarrow> d_ge t (temp_warn_c (cfg_thresholds cfg)))"

definition thermal_reasons :: "config \<Rightarrow> thermal_sensor list \<Rightarrow> string list" where
  "thermal_reasons cfg ss =
     map (\<lambda>s. if ts_sensor s \<noteq> [] then ''temp_high:'' @ ts_sensor s else ''temp_high'')
       (filter (temp_high cfg) ss)"

definition rtc_reasons :: "config \<Rightarrow> rtc_status \<Rightarrow> string list" where
  "rtc_reasons cfg r =
     (case rtc_voltage_mv r of
        None \<Rightarrow> []
      | Some v \<Rightarrow>
          if rtc_enabled r \<and> v < rtc_voltage_warn_mv (cfg_thresholds cfg)
          then [''rtc_battery_low''] else [])"

definition update_reasons :: "update_status \<Rightarrow> string list" where
  "update_reasons u =
     (case last_update u of
        None \<Rightarrow> []
      | Some l \<Rightarrow> if lu_result l = Upd_Failed then [''update_failed''] else [])"

definition crash_reasons :: "crash_status \<Rightarrow> string list" where
  "crash_reasons crash =
     (if panic_count crash > 0 \<and> \<not> acknowledged crash \<and> panic_current_boot crash
      then [''kernel_panic_detected'']
      else if panic_count crash > 0 then [''historical_crash_artifacts'']
      else []) @
     (if crash_present crash then [''pstore_records_present''] else [])"

definition generate_reasons ::
  "config \<Rightarrow> boot_status \<Rightarrow> services_status \<Rightarrow> resources_status \<Rightarrow> time_sync_status \<Rightarrow>
   update_status \<Rightarrow> journal_status \<Rightarrow> crash_status \<Rightarrow> string list" where
  "generate_reasons cfg boot services resources ts update journal crash =
     (if boot_fail_count boot > 0 then [''boot_failures''] else []) @
     unit_reasons services @
     memory_reasons cfg (memory resources) @
     disk_reasons cfg (storage resources) @
     thermal_reasons cfg (thermal resources) @
     (if time_sync_source ts = Src_None then [''time_unsynced''] else []) @
     rtc_reasons cfg (ts_rtc ts) @
     update_reasons update @
     (if journal_overall journal = Sev_Warn \<or> journal_overall journal = Sev_Crit
      then [''journal_errors''] else []) @
     crash_reasons crash"

section \<open>Aggregation\<close>

text \<open>A stale section is raised to at least \<open>Sev_Stale\<close>.\<close>

definition raise_stale :: "section_freshness \<Rightarrow> severity \<Rightarrow> severity" where
  "raise_stale f s = (if fr_stale f then worst_of [s, Sev_Stale] else s)"

definition aggregate ::
  "config \<Rightarrow> u32 \<Rightarrow> time_point \<Rightarrow> device_info \<Rightarrow> boot_status \<Rightarrow> services_status \<Rightarrow>
   resources_status \<Rightarrow> time_sync_status \<Rightarrow> update_status \<Rightarrow> journal_status \<Rightarrow> crash_status \<Rightarrow>
   snapshot_state" where
  "aggregate cfg hw now device boot services resources ts update journal crash =
     (let boot_sev = raise_stale (boot_freshness boot) (evaluate_boot cfg boot);
          services_sev = raise_stale (services_freshness services) (evaluate_services services);
          resources_sev =
            raise_stale (resources_freshness resources) (evaluate_resources cfg hw resources);
          time_sync_sev = raise_stale (time_sync_freshness ts) (evaluate_time_sync ts);
          update_sev = raise_stale (update_freshness update) (evaluate_update update);
          journal_sev = raise_stale (journal_freshness journal) (evaluate_journal journal);
          crash_sev = raise_stale (crash_freshness crash) (evaluate_crash crash)
      in snapshot_state_default\<lparr>
           generated_at := now,
           snap_device := device, snap_boot := boot, snap_services := services,
           snap_resources := resources, snap_time_sync := ts, snap_update := update,
           snap_journal := journal, snap_crash := crash,
           snap_summary := snapshot_summary_default\<lparr>
             sum_domains := \<lparr>dom_boot = boot_sev, dom_services = services_sev,
               dom_resources = resources_sev, dom_time_sync = time_sync_sev,
               dom_update = update_sev, dom_journal = journal_sev, dom_crash = crash_sev\<rparr>,
             sum_severity := compute_overall boot_sev services_sev resources_sev time_sync_sev
               update_sev journal_sev crash_sev,
             sum_reasons := generate_reasons cfg boot services resources ts update journal crash\<rparr>\<rparr>)"

definition aggregate_partial ::
  "config \<Rightarrow> u32 \<Rightarrow> time_point \<Rightarrow> device_info option \<Rightarrow> boot_status option \<Rightarrow>
   services_status option \<Rightarrow> resources_status option \<Rightarrow> time_sync_status option \<Rightarrow>
   update_status option \<Rightarrow> journal_status option \<Rightarrow> crash_status option \<Rightarrow> snapshot_state" where
  "aggregate_partial cfg hw now device boot services resources ts update journal crash =
     aggregate cfg hw now
       (case device of None \<Rightarrow> device_info_default | Some d \<Rightarrow> d)
       (case boot of None \<Rightarrow> boot_status_default | Some b \<Rightarrow> b)
       (case services of None \<Rightarrow> services_status_default | Some s \<Rightarrow> s)
       (case resources of None \<Rightarrow> resources_status_default | Some r \<Rightarrow> r)
       (case ts of None \<Rightarrow> time_sync_status_default | Some t \<Rightarrow> t)
       (case update of None \<Rightarrow> update_status_default | Some u \<Rightarrow> u)
       (case journal of None \<Rightarrow> journal_status_default | Some j \<Rightarrow> j)
       (case crash of None \<Rightarrow> crash_status_default | Some c \<Rightarrow> c)"


section \<open>The roll-up is the maximum of the documented order\<close>

interpretation agg: severity_ranking worst_rank
proof
  fix a b
  show "worst_rank a \<le> worst_rank b \<longleftrightarrow> a \<le> b"
    by (cases a; cases b) (simp_all add: severity_order_simps)
qed

lemma Sev_Unknown_least [simp]: "Sev_Unknown \<le> s" and Sev_Crit_greatest [simp]: "s \<le> Sev_Crit"
  using bot_least [of s] top_greatest [of s] by (simp_all add: bot_severity_def top_severity_def)

lemma worst_loop_max:
  "worst_loop ss w (worst_rank w) = fold max ss w"
proof (induction ss arbitrary: w)
  case (Cons s ss)
  have "worst_loop (s # ss) w (worst_rank w) = worst_loop ss (max w s) (worst_rank (max w s))"
    by (cases "w < s") (simp_all add: agg.rank_less_iff Let_def max_absorb1 max_absorb2)
  then show ?case by (simp add: Cons.IH max.commute del: worst_loop.simps)
qed simp

lemma worst_of_fold: "worst_of ss = fold max ss Sev_Unknown"
proof (cases ss)
  case (Cons s ss')
  have "- 1 < worst_rank s" by (cases s) simp_all
  then have "worst_of ss = worst_loop ss' s (worst_rank s)"
    by (simp add: worst_of_def Cons Let_def)
  then show ?thesis by (simp add: worst_loop_max Cons max_absorb1)
qed (simp add: worst_of_def)

lemma fold_max_Max: "fold max ss (w :: severity) = Max (insert w (set ss))"
  by (simp add: Max.set_eq_fold [symmetric] del: Max.set_eq_fold)

lemma worst_of_Max: "worst_of ss = Max (insert Sev_Unknown (set ss))"
  by (simp add: worst_of_fold fold_max_Max)

lemma worst_of_ge: "s \<in> set ss \<Longrightarrow> s \<le> worst_of ss"
  by (simp add: worst_of_Max)

lemma worst_of_least: "(\<And>s. s \<in> set ss \<Longrightarrow> s \<le> b) \<Longrightarrow> worst_of ss \<le> b"
  by (simp add: worst_of_Max)

lemma worst_of_in: "ss \<noteq> [] \<Longrightarrow> worst_of ss \<in> set ss"
proof (cases ss)
  case (Cons s ss')
  then have "worst_of ss = fold max ss' s" by (simp add: worst_of_fold max_absorb1)
  then show ?thesis using Cons Max_in [of "insert s (set ss')"] by (simp add: fold_max_Max)
qed simp

lemma worst_of_pair [simp]: "worst_of [a, b] = max a b"
  by (simp add: worst_of_fold max.commute)

lemma worst_of_four: "worst_of [a, b, c, d] = max (max a b) (max c d)"
proof (rule antisym)
  show "worst_of [a, b, c, d] \<le> max (max a b) (max c d)"
    by (rule worst_of_least) (auto simp: le_max_iff_disj)
  show "max (max a b) (max c d) \<le> worst_of [a, b, c, d]"
    using worst_of_ge [of _ "[a, b, c, d]"] by (simp add: max.bounded_iff del: worst_of_pair)
qed

lemma worst_of_mono:
  assumes "list_all2 (\<le>) ss ts"
  shows "worst_of ss \<le> worst_of ts"
proof (rule worst_of_least)
  fix s
  assume "s \<in> set ss"
  then obtain i where "i < length ss" "s = ss ! i" by (auto simp: in_set_conv_nth)
  with assms have "s \<le> ts ! i" "i < length ts" by (auto simp: list_all2_conv_all_nth)
  then show "s \<le> worst_of ts" using worst_of_ge [of "ts ! i" ts] by simp
qed

section \<open>Loops over mounts and sensors\<close>

definition mount_severity :: "config \<Rightarrow> storage_mount \<Rightarrow> severity" where
  "mount_severity cfg m =
     (case sm_used_pct m of
        None \<Rightarrow> Sev_Unavailable
      | Some p \<Rightarrow>
          if \<not> sm_available m then Sev_Unavailable
          else if p \<ge> disk_used_crit (cfg_thresholds cfg) then Sev_Crit
          else if p \<ge> disk_used_warn (cfg_thresholds cfg) then Sev_Warn
          else Sev_Ok)"

definition sensor_severity :: "config \<Rightarrow> thermal_sensor \<Rightarrow> severity" where
  "sensor_severity cfg s =
     (case ts_temp_c s of
        None \<Rightarrow> Sev_Unavailable
      | Some t \<Rightarrow>
          if \<not> ts_available s then Sev_Unavailable
          else if d_ge t (temp_crit_c (cfg_thresholds cfg)) then Sev_Crit
          else if d_ge t (temp_warn_c (cfg_thresholds cfg)) then Sev_Warn
          else Sev_Ok)"

lemma disk_loop_max:
  "Sev_Ok \<le> w \<Longrightarrow> disk_loop cfg ms w = fold max (map (mount_severity cfg) ms) w"
proof (induction ms arbitrary: w)
  case (Cons m ms)
  have step: "disk_loop cfg (m # ms) w = disk_loop cfg ms (max w (mount_severity cfg m))"
    using Cons.prems by (auto simp: mount_severity_def max_absorb1 split: option.splits)
  have "Sev_Ok \<le> max w (mount_severity cfg m)" using Cons.prems by (simp add: le_max_iff_disj)
  then show ?case by (simp add: step Cons.IH max.commute del: disk_loop.simps)
qed simp

lemma thermal_loop_max:
  "Sev_Ok \<le> w \<Longrightarrow> thermal_loop cfg ss w = fold max (map (sensor_severity cfg) ss) w"
proof (induction ss arbitrary: w)
  case (Cons s ss)
  have step: "thermal_loop cfg (s # ss) w = thermal_loop cfg ss (max w (sensor_severity cfg s))"
    using Cons.prems by (auto simp: sensor_severity_def max_absorb1 split: option.splits)
  have "Sev_Ok \<le> max w (sensor_severity cfg s)" using Cons.prems by (simp add: le_max_iff_disj)
  then show ?case by (simp add: step Cons.IH max.commute del: thermal_loop.simps)
qed simp

lemma evaluate_disk_Max:
  "evaluate_disk cfg ms = Max (insert Sev_Ok (mount_severity cfg ` set ms))"
  by (simp add: evaluate_disk_def disk_loop_max fold_max_Max)

lemma evaluate_thermal_Max:
  "evaluate_thermal cfg ss = Max (insert Sev_Ok (sensor_severity cfg ` set ss))"
  by (simp add: evaluate_thermal_def thermal_loop_max fold_max_Max)

section \<open>CPU and memory\<close>

lemma cores_pos: "0 < unat (max 1 (hw :: u32))"
proof -
  have "(1 :: u32) \<le> max 1 hw" by simp
  then have "unat (1 :: u32) \<le> unat (max 1 hw)" by (simp only: word_le_nat_alt)
  then show ?thesis by simp
qed

lemma cpu_load_pct_mono:
  assumes "d_le (load1 c) (load1 c')"
  shows "d_le (cpu_load_pct hw c) (cpu_load_pct hw c')"
proof -
  have "(0 :: rat) < of_nat (unat (max 1 hw))" using cores_pos [of hw] by (simp only: of_nat_0_less_iff)
  then show ?thesis
    unfolding cpu_load_pct_def Let_def by (intro d_mul_mono d_div_mono assms) simp_all
qed

lemma two_step_mono:
  assumes le: "d_le x y" and ord: "d_le warn crit"
  shows "(if d_ge x crit then Sev_Crit else if d_ge x warn then Sev_Warn else Sev_Ok)
     \<le> (if d_ge y crit then Sev_Crit else if d_ge y warn then Sev_Warn else Sev_Ok)"
  using d_le_trans [OF _ le] by (auto simp: severity_order_simps)

lemma d_of_u8_le: "d_le (d_of_u8 a) (d_of_u8 b) \<longleftrightarrow> a \<le> b"
  by (simp only: d_of_u8_def d_le.simps of_nat_le_iff word_le_nat_alt)

lemma evaluate_cpu_mono:
  assumes "d_le (load1 c) (load1 c')"
  shows "evaluate_cpu cfg hw c \<le> evaluate_cpu cfg hw c'"
  using d_le_trans [OF _ cpu_load_pct_mono [OF assms, of hw]]
  by (auto simp: evaluate_cpu_def Let_def severity_order_simps)

text \<open>Without wrap-around the percentage is the mathematical one.\<close>

lemma mem_pct_exact:
  assumes "unat (mem_used_mb m) * 100 < 2 ^ 64"
  shows "unat (mem_pct m) = unat (mem_used_mb m) * 100 div unat (mem_total_mb m)"
  using assms by (simp add: mem_pct_def unat_div unat_word_ariths)

section \<open>Aggregation\<close>

lemma raise_stale_max: "raise_stale f s = (if fr_stale f then max s Sev_Stale else s)"
  by (simp add: raise_stale_def)

definition domain_severities_list :: "domain_severities \<Rightarrow> severity list" where
  "domain_severities_list d = map snd (domain_list d)"

lemma worst_of_domains: "worst_of (domain_severities_list d) = Max (snd ` set (domain_list d))"
proof -
  have "Max (insert Sev_Unknown S) = Max S" if "finite S" "S \<noteq> {}" for S :: "severity set"
    using that by (simp add: max_absorb2)
  from this [of "snd ` set (domain_list d)"]
  have "domain_list d \<noteq> [] \<Longrightarrow> ?thesis" by (simp add: worst_of_Max domain_severities_list_def)
  moreover have "domain_list d \<noteq> []" by (simp add: domain_list_def)
  ultimately show ?thesis by simp
qed

lemma aggregate_severity:
  "sum_severity (snap_summary (aggregate cfg hw now dv b s r t u j c)) =
   worst_of (domain_severities_list
     (sum_domains (snap_summary (aggregate cfg hw now dv b s r t u j c))))"
  by (simp add: aggregate_def compute_overall_def domain_severities_list_def domain_list_def Let_def)

lemma aggregate_domains:
  "sum_domains (snap_summary (aggregate cfg hw now dv b s r t u j c)) =
     \<lparr>dom_boot = raise_stale (boot_freshness b) (evaluate_boot cfg b),
      dom_services = raise_stale (services_freshness s) (evaluate_services s),
      dom_resources = raise_stale (resources_freshness r) (evaluate_resources cfg hw r),
      dom_time_sync = raise_stale (time_sync_freshness t) (evaluate_time_sync t),
      dom_update = raise_stale (update_freshness u) (evaluate_update u),
      dom_journal = raise_stale (journal_freshness j) (evaluate_journal j),
      dom_crash = raise_stale (crash_freshness c) (evaluate_crash c)\<rparr>"
  by (simp add: aggregate_def Let_def)

lemma aggregate_sections [frame_simps]:
  "snap_device (aggregate cfg hw now dv b s r t u j c) = dv"
  "snap_boot (aggregate cfg hw now dv b s r t u j c) = b"
  "snap_services (aggregate cfg hw now dv b s r t u j c) = s"
  "snap_resources (aggregate cfg hw now dv b s r t u j c) = r"
  "snap_time_sync (aggregate cfg hw now dv b s r t u j c) = t"
  "snap_update (aggregate cfg hw now dv b s r t u j c) = u"
  "snap_journal (aggregate cfg hw now dv b s r t u j c) = j"
  "snap_crash (aggregate cfg hw now dv b s r t u j c) = c"
  "generated_at (aggregate cfg hw now dv b s r t u j c) = now"
  by (simp_all add: aggregate_def Let_def)

lemma aggregate_reasons:
  "sum_reasons (snap_summary (aggregate cfg hw now dv b s r t u j c)) =
     generate_reasons cfg b s r t u j c"
  by (simp add: aggregate_def Let_def)

section \<open>Reasons and severities agree\<close>

lemma word_pos_iff: "0 < (w :: 'a::len word) \<longleftrightarrow> w \<noteq> 0"
  by (simp add: word_gt_0)

lemma crash_reason_iff_crit:
  "''kernel_panic_detected'' \<in> set (crash_reasons c) \<longleftrightarrow> evaluate_crash c = Sev_Crit"
  by (auto simp: crash_reasons_def evaluate_crash_def word_pos_iff)

lemma mem_reason_iff:
  assumes "mem_used_warn (cfg_thresholds cfg) < mem_used_crit (cfg_thresholds cfg)"
  shows "memory_reasons cfg m \<noteq> [] \<longleftrightarrow> Sev_Warn \<le> evaluate_memory cfg m"
proof -
  have "(ucast (mem_used_warn (cfg_thresholds cfg)) :: u64) \<le> ucast (mem_used_crit (cfg_thresholds cfg))"
    using assms by (simp add: ucast_up_le_iff)
  then show ?thesis
    by (auto simp: memory_reasons_def evaluate_memory_def word_pos_iff severity_order_simps)
qed

text \<open>
  No reason of one group can be mistaken for a reason of another: the groups have different
  prefixes, so membership in the whole list is membership in one group.
\<close>

lemmas reason_group_defs = unit_reasons_def memory_reasons_def disk_reasons_def
  thermal_reasons_def rtc_reasons_def update_reasons_def crash_reasons_def

lemma reason_heads:
  "x \<in> set (unit_reasons s) \<Longrightarrow> hd x = CHR ''s''"
  "x \<in> set (memory_reasons cfg m) \<Longrightarrow> hd x = CHR ''m''"
  "x \<in> set (disk_reasons cfg ms) \<Longrightarrow> hd x = CHR ''d''"
  "x \<in> set (thermal_reasons cfg ss) \<Longrightarrow> hd x = CHR ''t''"
  "x \<in> set (rtc_reasons cfg rtc) \<Longrightarrow> hd x = CHR ''r''"
  "x \<in> set (update_reasons u) \<Longrightarrow> hd x = CHR ''u''"
  "x \<in> set (crash_reasons c) \<Longrightarrow> hd x \<in> {CHR ''k'', CHR ''h'', CHR ''p''}"
  by (auto simp: reason_group_defs split: option.splits if_splits)

lemma reason_groups:
  assumes "x \<in> set (generate_reasons cfg b s r t u j c)"
  shows "hd x = CHR ''k'' \<Longrightarrow> x \<in> set (crash_reasons c)"
    and "hd x = CHR ''m'' \<Longrightarrow> x \<in> set (memory_reasons cfg (memory r))"
    and "hd x = CHR ''s'' \<Longrightarrow> x \<in> set (unit_reasons s)"
    and "hd x = CHR ''d'' \<Longrightarrow> x \<in> set (disk_reasons cfg (storage r))"
  using assms
  by (auto simp: generate_reasons_def dest!: reason_heads split: if_splits)

lemma generate_reasons_groups:
  "set (crash_reasons c) \<subseteq> set (generate_reasons cfg b s r t u j c)"
  "set (memory_reasons cfg (memory r)) \<subseteq> set (generate_reasons cfg b s r t u j c)"
  "set (unit_reasons s) \<subseteq> set (generate_reasons cfg b s r t u j c)"
  "set (disk_reasons cfg (storage r)) \<subseteq> set (generate_reasons cfg b s r t u j c)"
  unfolding generate_reasons_def set_append by blast+

lemma mem_reason_member: "''mem_used_high'' \<in> set (memory_reasons cfg m) \<longleftrightarrow> memory_reasons cfg m \<noteq> []"
  by (simp add: memory_reasons_def)

lemma unit_reasons_iff:
  "''svc_failed:'' @ n \<in> set (unit_reasons s) \<longleftrightarrow>
     (\<exists>v\<in>set (services_units s). su_name v = n \<and> su_state v = Svc_Failed)"
  by (auto simp: unit_reasons_def)

lemma disk_reasons_iff:
  "''disk_used_high:'' @ n \<in> set (disk_reasons cfg ms) \<longleftrightarrow>
     (\<exists>m\<in>set ms. sm_mount m = n \<and> disk_high cfg m)"
  by (auto simp: disk_reasons_def)

section \<open>Properties\<close>

text \<open>C9: the severity of the whole snapshot is the maximum, in the documented order unknown, ok,
  stale, unavailable, warn, crit, of the seven domain severities, and each domain severity is the
  evaluation of its section, raised to at least stale when the section is marked stale.\<close>

theorem aggregate_summary:
  "let sm = snap_summary (aggregate cfg hw now dv b s r t u j c); d = sum_domains sm;
       stale = (\<lambda>f v. if fr_stale f then max v Sev_Stale else v) in
   sum_severity sm = Max (snd ` set (domain_list d))
   \<and> dom_boot d = stale (boot_freshness b) (evaluate_boot cfg b)
   \<and> dom_services d = stale (services_freshness s) (services_overall s)
   \<and> dom_resources d = stale (resources_freshness r) (evaluate_resources cfg hw r)
   \<and> dom_time_sync d = stale (time_sync_freshness t) (time_sync_overall t)
   \<and> dom_update d = stale (update_freshness u) (update_overall u)
   \<and> dom_journal d = stale (journal_freshness j) (journal_overall j)
   \<and> dom_crash d = stale (crash_freshness c) (evaluate_crash c)"
  unfolding Let_def aggregate_severity worst_of_domains aggregate_domains
  by (simp only: raise_stale_max evaluate_services_def evaluate_time_sync_def evaluate_update_def
      evaluate_journal_def domain_severities.select_convs simp_thms)

text \<open>C23: the resources severity is the worst of the CPU and memory evaluations and of every single
  mount and sensor, in whatever order the probe lists them: an unavailable one counts as
  unavailable, an available one is rated against the crit and then the warn threshold.\<close>

theorem evaluate_resources_Max:
  "evaluate_resources cfg hw r =
     Max ({evaluate_cpu cfg hw (cpu r), evaluate_memory cfg (memory r), Sev_Ok}
          \<union> mount_severity cfg ` set (storage r) \<union> sensor_severity cfg ` set (thermal r))"
proof -
  let ?M = "mount_severity cfg ` set (storage r)" and ?T = "sensor_severity cfg ` set (thermal r)"
  have "evaluate_resources cfg hw r = max (max (evaluate_cpu cfg hw (cpu r)) (evaluate_memory cfg (memory r)))
      (max (Max (insert Sev_Ok ?M)) (Max (insert Sev_Ok ?T)))"
    by (simp only: evaluate_resources_def Let_def worst_of_four evaluate_disk_Max evaluate_thermal_Max)
  also have "\<dots> = max (Max {evaluate_cpu cfg hw (cpu r), evaluate_memory cfg (memory r)})
      (Max (insert Sev_Ok ?M \<union> insert Sev_Ok ?T))"
    by (simp only: Max_Un Max_insert Max_singleton finite_insert finite_imageI finite_set
        insert_not_empty finite.emptyI not_False_eq_True)
  also have "\<dots> = Max ({evaluate_cpu cfg hw (cpu r), evaluate_memory cfg (memory r)}
      \<union> (insert Sev_Ok ?M \<union> insert Sev_Ok ?T))"
    by (simp only: Max_Un finite_insert finite_imageI finite_set finite_Un Un_empty
        insert_not_empty finite.emptyI not_False_eq_True simp_thms)
  also have "{evaluate_cpu cfg hw (cpu r), evaluate_memory cfg (memory r)}
      \<union> (insert Sev_Ok ?M \<union> insert Sev_Ok ?T) =
      {evaluate_cpu cfg hw (cpu r), evaluate_memory cfg (memory r), Sev_Ok} \<union> ?M \<union> ?T"
    by blast
  finally show ?thesis .
qed

text \<open>The CPU severity is monotone in the load: with the same thresholds and core count a higher
  one-minute load never lowers it, in spite of the two roundings to binary64.\<close>

theorem evaluate_cpu_monotone:
  assumes "d_le (load1 c) (load1 c')"
  shows "evaluate_cpu cfg hw c \<le> evaluate_cpu cfg hw c'"
  by (rule evaluate_cpu_mono [OF assms])

theorem evaluate_cpu_monotone_witness:
  "evaluate_cpu config_defaults 4 (cpu_load_default\<lparr>load1 := Fin 1\<rparr>)
   \<le> evaluate_cpu config_defaults 4 (cpu_load_default\<lparr>load1 := Fin 4\<rparr>)"
  by (rule evaluate_cpu_monotone) simp

text \<open>For memory sizes whose hundredfold fits 64 bits, the memory severity compares the exact
  ratio used/total with the thresholds, and an unread total gives unknown.\<close>

theorem evaluate_memory_exact:
  assumes "unat (mem_used_mb m) * 100 < 2 ^ 64"
  shows "evaluate_memory cfg m =
     (let used = unat (mem_used_mb m); total = unat (mem_total_mb m); t = cfg_thresholds cfg in
      if total = 0 then Sev_Unknown
      else if unat (mem_used_crit t) * total \<le> used * 100 then Sev_Crit
      else if unat (mem_used_warn t) * total \<le> used * 100 then Sev_Warn
      else Sev_Ok)"
proof -
  have ge: "mem_pct m \<ge> ucast (w :: u8) \<longleftrightarrow>
      unat w * unat (mem_total_mb m) \<le> unat (mem_used_mb m) * 100" if "mem_total_mb m \<noteq> 0" for w
    using that by (simp add: word_le_nat_alt unat_ucast_up mem_pct_exact [OF assms]
        less_eq_div_iff_mult_less_eq unat_gt_0)
  show ?thesis by (simp add: evaluate_memory_def Let_def ge unat_eq_0)
qed

theorem evaluate_memory_exact_witness:
  "evaluate_memory config_defaults \<lparr>mem_total_mb = 1000, mem_used_mb = 899, swap_used_mb = 0\<rparr> = Sev_Warn"
  using evaluate_memory_exact [of "\<lparr>mem_total_mb = 1000, mem_used_mb = 899, swap_used_mb = 0\<rparr>"]
  by (simp add: config_defaults_def thresholds_default_def)

text \<open>C24: the reasons agree with the evaluation: the kernel-panic reason is present exactly when the
  crash section is crit, the memory reason exactly when memory is warn or worse (for an accepted
  configuration), and a unit or mount is named exactly when it failed or is over its threshold.\<close>

theorem reasons_agree:
  assumes "validate cfg = None"
  shows "let reasons = sum_reasons (snap_summary (aggregate cfg hw now dv b s r t u j c)) in
     (''kernel_panic_detected'' \<in> set reasons \<longleftrightarrow> evaluate_crash c = Sev_Crit)
   \<and> (''mem_used_high'' \<in> set reasons \<longleftrightarrow> Sev_Warn \<le> evaluate_memory cfg (memory r))
   \<and> (\<forall>n. ''svc_failed:'' @ n \<in> set reasons \<longleftrightarrow>
        (\<exists>v\<in>set (services_units s). su_name v = n \<and> su_state v = Svc_Failed))
   \<and> (\<forall>n. ''disk_used_high:'' @ n \<in> set reasons \<longleftrightarrow>
        (\<exists>m\<in>set (storage r). sm_mount m = n \<and>
          (\<exists>p. sm_used_pct m = Some p \<and> disk_used_warn (cfg_thresholds cfg) \<le> p)))"
proof -
  have "mem_used_warn (cfg_thresholds cfg) < mem_used_crit (cfg_thresholds cfg)"
    using assms by (simp add: validate_iff config_valid_def thresholds_ordered_def)
  note mem = mem_reason_iff [OF this, of "memory r"]
  have "disk_high cfg m \<longleftrightarrow> (\<exists>p. sm_used_pct m = Some p \<and> disk_used_warn (cfg_thresholds cfg) \<le> p)" for m
    by (simp add: disk_high_def split: option.splits)
  note disk = this
  let ?R = "generate_reasons cfg b s r t u j c"
  have panic: "''kernel_panic_detected'' \<in> set ?R \<longleftrightarrow> ''kernel_panic_detected'' \<in> set (crash_reasons c)"
    using reason_groups(1) generate_reasons_groups(1) by fastforce
  have memory: "''mem_used_high'' \<in> set ?R \<longleftrightarrow> ''mem_used_high'' \<in> set (memory_reasons cfg (memory r))"
    using reason_groups(2) generate_reasons_groups(2) by fastforce
  have units: "''svc_failed:'' @ n \<in> set ?R \<longleftrightarrow> ''svc_failed:'' @ n \<in> set (unit_reasons s)" for n
    using reason_groups(3) generate_reasons_groups(3) by fastforce
  have mounts: "''disk_used_high:'' @ n \<in> set ?R \<longleftrightarrow>
      ''disk_used_high:'' @ n \<in> set (disk_reasons cfg (storage r))" for n
    using reason_groups(4) generate_reasons_groups(4) by fastforce
  show ?thesis
    by (simp only: Let_def aggregate_reasons panic memory units mounts crash_reason_iff_crit
        mem_reason_member mem unit_reasons_iff disk_reasons_iff disk simp_thms)
qed

theorem reasons_agree_witness:
  "''svc_failed:sshd.socket'' \<in> set (sum_reasons (snap_summary (aggregate config_defaults 4 0
     device_info_default boot_status_default
     (services_status_default\<lparr>services_units :=
        [service_unit_default\<lparr>su_name := ''sshd.socket'', su_state := Svc_Failed\<rparr>]\<rparr>)
     resources_status_default time_sync_status_default update_status_default
     journal_status_default crash_status_default)))"
  using reasons_agree [OF validate_defaults] by (simp add: Let_def)

text \<open>Before any probe has reported, the roll-up of an accepted configuration with positive CPU and
  boot thresholds is ok: the boot, resources and crash sections evaluate to ok, not to unknown.\<close>

theorem warm_up_is_ok:
  assumes "validate cfg = None" "0 < cpu_load_warn (cfg_thresholds cfg)"
    and "0 < boot_fail_warn (cfg_thresholds cfg)" "0 < boot_fail_crit (cfg_thresholds cfg)"
  shows "let sm = snap_summary (aggregate_partial cfg hw now None None None None None None None None) in
     sum_severity sm = Sev_Ok
   \<and> sum_domains sm = domain_severities_default\<lparr>dom_boot := Sev_Ok, dom_resources := Sev_Ok,
       dom_crash := Sev_Ok\<rparr>
   \<and> sum_reasons sm = [''time_unsynced'']"
proof -
  let ?t = "cfg_thresholds cfg"
  have zero: "cpu_load_pct hw cpu_load_default = Fin 0"
  proof -
    have "of_nat (unat (max 1 hw)) \<noteq> (0 :: rat)" using cores_pos [of hw] by (simp only: of_nat_eq_0_iff)
    then show ?thesis using round64_of_int [of 0]
      unfolding cpu_load_pct_def cpu_load_default_def Let_def by simp
  qed
  have pos: "\<not> d_ge (Fin 0) (d_of_u8 w)" if "0 < w" for w :: u8
    using that by (simp add: d_of_u8_def word_gt_0 unat_eq_0 del: of_nat_unat)
  have "0 < cpu_load_crit ?t" using assms
    by (auto simp: validate_iff config_valid_def thresholds_ordered_def intro: less_trans)
  then have cpu: "evaluate_cpu cfg hw cpu_load_default = Sev_Ok"
    using assms by (simp add: evaluate_cpu_def Let_def zero pos)
  show ?thesis
    using assms cpu
    by (simp add: aggregate_partial_def aggregate_severity aggregate_domains aggregate_reasons Let_def
        default_simps raise_stale_def evaluate_boot_def evaluate_services_def evaluate_time_sync_def
        evaluate_update_def evaluate_journal_def evaluate_crash_def evaluate_resources_def
        evaluate_memory_def evaluate_disk_def evaluate_thermal_def generate_reasons_def
        reason_group_defs domain_severities_list_def domain_list_def worst_of_def not_le word_pos_iff)
qed

theorem warm_up_is_ok_witness:
  "sum_severity (snap_summary (aggregate_partial config_defaults 4 0 None None None None None None
     None None)) = Sev_Ok"
  using warm_up_is_ok [OF validate_defaults, of 4 0]
  by (simp add: Let_def config_defaults_def thresholds_default_def)

end
