(* ===== verification/Boot_Probe.thy ===== *)
theory Boot_Probe
  imports Probe_Base Aggregator
begin

text \<open>
  The boot probe of \<^verbatim>\<open>src/probes.cpp\<close>: the persistent boot state, the consecutive-failure
  ratchet and \<open>mark_boot_success\<close>.  The state file lives in the file system of
  \<open>Atomic_File\<close>, so the ratchet is proved across loss of power.
\<close>

record boot_state =
  bs_last_boot_id :: string
  bs_consecutive_failures :: u32
  bs_last_boot_ok :: bool

definition boot_state_default :: boot_state where
  "boot_state_default = \<lparr>bs_last_boot_id = '''', bs_consecutive_failures = 0, bs_last_boot_ok = True\<rparr>"

text \<open>
  What the probe takes from the system: the boot identifier, the uptime, the clock, the message
  of a failed \<^verbatim>\<open>create_directories\<close>, the outcomes of the calls of the write, and the process.
\<close>

record boot_env =
  be_boot_id :: "string option"
  be_uptime :: "seconds option"
  be_now :: time_point
  be_mkdir :: "string option"
  be_sys :: sys_outcomes
  be_pid :: nat

definition read_boot_id :: "boot_env \<Rightarrow> string" where
  "read_boot_id E = (case be_boot_id E of Some i \<Rightarrow> i | None \<Rightarrow> ''unknown'')"

definition read_uptime :: "boot_env \<Rightarrow> seconds" where
  "read_uptime E = (case be_uptime E of Some t \<Rightarrow> t | None \<Rightarrow> 0)"

definition boot_state_path :: "path \<Rightarrow> path" where
  "boot_state_path dir = path_join dir ''boot_state.json''"

section \<open>Loading and saving\<close>

definition load_last_boot_ok :: "json_lib \<Rightarrow> json \<Rightarrow> boot_state \<Rightarrow> string + boot_state" where
  "load_last_boot_ok J j st =
     (if j_contains j ''last_boot_ok''
      then bind_ex (get_bool J (j_at j ''last_boot_ok'')) (\<lambda>b. Inr (st\<lparr>bs_last_boot_ok := b\<rparr>))
      else Inr (st\<lparr>bs_last_boot_ok := (bs_consecutive_failures st = 0)\<rparr>))"

definition load_boot_state :: "json_lib \<Rightarrow> string option \<Rightarrow> boot_state" where
  "load_boot_state J file =
     (case file of
        None \<Rightarrow> boot_state_default
      | Some content \<Rightarrow>
          (case jl_parse J False content of
             Inl _ \<Rightarrow> boot_state_default
           | Inr j \<Rightarrow> run_steps_keep
               [jfield j ''last_boot_id'' (get_string J) (\<lambda>v st. st\<lparr>bs_last_boot_id := v\<rparr>),
                jfield j ''consecutive_failures'' (get_u32 J) (\<lambda>v st. st\<lparr>bs_consecutive_failures := v\<rparr>),
                load_last_boot_ok J j] boot_state_default))"

definition boot_state_json :: "boot_state \<Rightarrow> json" where
  "boot_state_json st = j_object
     [(''last_boot_id'', JString (bs_last_boot_id st)),
      (''consecutive_failures'', JUInt (unat (bs_consecutive_failures st))),
      (''last_boot_ok'', JBool (bs_last_boot_ok st))]"

text \<open>
  Saving returns the states it passes, the last one, and the messages it logs; \<open>Inl\<close> is the
  exception of the printer, \<open>None\<close> a write that the system never finishes.
\<close>

definition save_boot_state ::
  "json_lib \<Rightarrow> path \<Rightarrow> boot_env \<Rightarrow> boot_state \<Rightarrow> fsys \<Rightarrow>
   fsys list \<times> fsys \<times> (string + string list) option" where
  "save_boot_state J dir E st s =
     (case be_mkdir E of
        Some m \<Rightarrow> ([], s, Some (Inr [''save_boot_state: create_directories('' @ dir @ '') failed: '' @ m]))
      | None \<Rightarrow>
          (case jl_dump J 2 (boot_state_json st) of
             Inl ex \<Rightarrow> ([], s, Some (Inl ex))
           | Inr text \<Rightarrow>
               (case atomic_write_file (be_sys E) (be_pid E) (boot_state_path dir) text s of
                  (tr, s', r) \<Rightarrow> (tr, s', map_option (\<lambda>x. Inr (case x of
                     Inl e \<Rightarrow> [''save_boot_state: '' @ afe_what e] | Inr _ \<Rightarrow> [])) r))))"

section \<open>The probe\<close>

definition next_boot_state :: "string \<Rightarrow> boot_state \<Rightarrow> boot_state" where
  "next_boot_state bid st =
     (let failures = (if bs_last_boot_id st \<noteq> [] \<and> \<not> bs_last_boot_ok st
                      then bs_consecutive_failures st + 1 else bs_consecutive_failures st)
      in \<lparr>bs_last_boot_id = bid, bs_consecutive_failures = failures, bs_last_boot_ok = False\<rparr>)"

definition boot_report :: "boot_env \<Rightarrow> boot_state \<Rightarrow> boot_status" where
  "boot_report E st = boot_status_default\<lparr>
     boot_id := read_boot_id E, uptime := read_uptime E,
     last_boot_at := be_now E - read_uptime E * ns_per_sec,
     boot_fail_count := bs_consecutive_failures st,
     boot_ok := (bs_consecutive_failures st = 0)\<rparr>"

definition boot_collect ::
  "json_lib \<Rightarrow> path \<Rightarrow> boot_env \<Rightarrow> fsys \<Rightarrow>
   fsys list \<times> fsys \<times> (string + boot_status probe_result \<times> string list) option" where
  "boot_collect J dir E s =
     (let st = load_boot_state J (fs_read s (boot_state_path dir)) in
      if bs_last_boot_id st \<noteq> read_boot_id E then
        let st' = next_boot_state (read_boot_id E) st;
            (tr, s', out) = save_boot_state J dir E st' s
        in (tr, s', map_option (map_sum (\<lambda>ex. ex) (\<lambda>logs. (Inr (boot_report E st'), logs))) out)
      else ([], s, Some (Inr (Inr (boot_report E st), []))))"

definition mark_boot_success ::
  "json_lib \<Rightarrow> path \<Rightarrow> boot_env \<Rightarrow> fsys \<Rightarrow> fsys list \<times> fsys \<times> (string + string list) option" where
  "mark_boot_success J dir E s =
     (let st = load_boot_state J (fs_read s (boot_state_path dir))
      in save_boot_state J dir E
           (st\<lparr>bs_last_boot_id := read_boot_id E, bs_consecutive_failures := 0, bs_last_boot_ok := True\<rparr>) s)"

section \<open>The state file\<close>

text \<open>What the theorems below ask of the JSON library.\<close>

definition boot_json_ok :: "json_lib \<Rightarrow> bool" where
  "boot_json_ok J \<longleftrightarrow> json_conversions J \<and> (\<forall>st. json_reparse J 2 (boot_state_json st))"

lemma load_dumped:
  assumes "boot_json_ok J" and "jl_dump J 2 (boot_state_json st) = Inr t"
  shows "load_boot_state J (Some t) = st"
proof -
  have "jl_parse J False t = Inr (j_canon (boot_state_json st))"
    using assms by (simp add: boot_json_ok_def json_reparse_def)
  moreover have "json_conversions J" using assms(1) by (simp add: boot_json_ok_def)
  ultimately show ?thesis
    by (simp add: load_boot_state_def boot_state_json_def j_object_def jfield_def get_simps
        load_last_boot_ok_def boot_state_default_def)
qed

lemma save_boot_state_cases:
  assumes "save_boot_state J dir E st s = (tr, s', out)"
  obtains (nothing) "tr = []" "s' = s" "out \<noteq> Some (Inr [])"
  | (atomic) t r where "jl_dump J 2 (boot_state_json st) = Inr t"
      "atomic_write_file (be_sys E) (be_pid E) (boot_state_path dir) t s = (tr, s', r)"
      "out = Some (Inr []) \<longleftrightarrow> r = Some (Inr ())"
proof (cases "be_mkdir E")
  case (Some m)
  show ?thesis by (rule nothing) (use Some assms in \<open>auto simp: save_boot_state_def\<close>)
next
  case None
  show ?thesis
  proof (cases "jl_dump J 2 (boot_state_json st)")
    case (Inl ex)
    show ?thesis by (rule nothing) (use None Inl assms in \<open>auto simp: save_boot_state_def\<close>)
  next
    case (Inr t)
    obtain r where run: "atomic_write_file (be_sys E) (be_pid E) (boot_state_path dir) t s = (tr, s', r)"
      and out: "out = map_option (\<lambda>x. Inr (case x of
         Inl e \<Rightarrow> [''save_boot_state: '' @ afe_what e] | Inr _ \<Rightarrow> [])) r"
      using assms None Inr by (auto simp: save_boot_state_def split: prod.splits)
    have "out = Some (Inr []) \<longleftrightarrow> r = Some (Inr ())"
      unfolding out by (cases r) (auto split: sum.splits)
    with run Inr show ?thesis by (intro atomic)
  qed
qed

text \<open>
  What may be found in the state file after a save, at any moment of it: what could be found
  before, or a file that loads as the saved state.
\<close>

lemma save_boot_state_crash:
  assumes "boot_json_ok J" and "fs_inv (be_pid E) (boot_state_path dir) s"
    and "save_boot_state J dir E st s = (tr, s', out)" and "t \<in> insert s' (set tr)"
    and "x \<in> crash_contents t (boot_state_path dir)"
  shows "x \<in> crash_contents s (boot_state_path dir) \<or> (x \<noteq> None \<and> load_boot_state J x = st)"
  using assms(3)
proof (cases rule: save_boot_state_cases)
  case nothing
  then show ?thesis using assms(4,5) by simp
next
  case (atomic c r)
  have "target_state (boot_state_path dir) c s t"
    using atomic_write_file_states [OF atomic(2) assms(2)] assms(4) by auto
  from target_state_crash [OF this] load_dumped [OF assms(1) atomic(1)] assms(5) show ?thesis by auto
qed

lemma save_boot_state_durable:
  assumes "boot_json_ok J" and "fs_inv (be_pid E) (boot_state_path dir) s"
    and "save_boot_state J dir E st s = (tr, s', Some (Inr []))"
  shows "\<exists>c. crash_contents s' (boot_state_path dir) = {Some c} \<and> load_boot_state J (Some c) = st"
  using assms(3)
proof (cases rule: save_boot_state_cases)
  case (atomic c r)
  then show ?thesis
    using atomic_write_file_states [OF atomic(2) assms(2)] load_dumped [OF assms(1)] by auto
qed simp

section \<open>Boots and power cuts\<close>

text \<open>
  The next boot finds one of the contents a loss of power can leave, and what it finds is durable.
\<close>

definition reboot :: "nat \<Rightarrow> path \<Rightarrow> fsys \<Rightarrow> fsys \<Rightarrow> bool" where
  "reboot pid p s s1 \<longleftrightarrow> fs_inv pid p s1 \<and> fs_read s1 p \<in> crash_contents s p \<and>
     crash_contents s1 p = {fs_read s1 p}"

text \<open>
  \<open>boot_loop J dir ids n k s\<close>: starting without a state file, the device booted \<open>n\<close> times under the
  fresh identifiers \<open>ids\<close> and none of the boots was marked good; \<open>k\<close> of them had saved the boot
  state when they ended, the others lost power at some moment of the save or failed to write.
  \<open>s\<close> is the file system when the last boot ended.
\<close>

inductive boot_loop :: "json_lib \<Rightarrow> path \<Rightarrow> string set \<Rightarrow> nat \<Rightarrow> nat \<Rightarrow> fsys \<Rightarrow> bool" for J dir where
  new_device: "crash_contents s (boot_state_path dir) = {None} \<Longrightarrow> boot_loop J dir {} 0 0 s"
| saved: "boot_loop J dir ids n k s \<Longrightarrow> reboot (be_pid E) (boot_state_path dir) s s1 \<Longrightarrow>
    be_boot_id E = Some i \<Longrightarrow> i \<noteq> [] \<Longrightarrow> i \<notin> ids \<Longrightarrow>
    boot_collect J dir E s1 = (tr, s2, Some (Inr (r, []))) \<Longrightarrow>
    boot_loop J dir (insert i ids) (Suc n) (Suc k) s2"
| cut: "boot_loop J dir ids n k s \<Longrightarrow> reboot (be_pid E) (boot_state_path dir) s s1 \<Longrightarrow>
    be_boot_id E = Some i \<Longrightarrow> i \<noteq> [] \<Longrightarrow> i \<notin> ids \<Longrightarrow>
    boot_collect J dir E s1 = (tr, s2, out) \<Longrightarrow> t \<in> insert s1 (insert s2 (set tr)) \<Longrightarrow>
    boot_loop J dir (insert i ids) (Suc n) k t"

text \<open>
  The invariant of the loop, on each content the file may have: no file and no completed save, or
  a state of one of the boots, not marked good, whose count lies between the two numbers.
\<close>

definition ratchet_at :: "string set \<Rightarrow> nat \<Rightarrow> nat \<Rightarrow> json_lib \<Rightarrow> string option \<Rightarrow> bool" where
  "ratchet_at ids n k J x \<longleftrightarrow>
     (x = None \<and> k = 0) \<or>
     (x \<noteq> None \<and> (let st = load_boot_state J x in
        bs_last_boot_id st \<in> ids \<and> bs_last_boot_id st \<noteq> [] \<and> \<not> bs_last_boot_ok st
        \<and> k \<le> Suc (unat (bs_consecutive_failures st)) \<and> Suc (unat (bs_consecutive_failures st)) \<le> n))"

lemma ratchet_at_weaken:
  "ratchet_at ids n k J x \<Longrightarrow> ratchet_at (insert i ids) (Suc n) k J x"
  by (auto simp: ratchet_at_def Let_def)

lemma unat_Suc_small: "Suc (unat (w :: u32)) \<le> n \<Longrightarrow> n < 2 ^ 32 \<Longrightarrow> unat (w + 1) = Suc (unat w)"
  by (auto simp: unat_add_lem [THEN iffD1])

lemma next_boot_state_ratchet:
  assumes "ratchet_at ids n k J x" and "n < 2 ^ 32"
  shows "k \<le> unat (bs_consecutive_failures (next_boot_state i (load_boot_state J x)))
    \<and> unat (bs_consecutive_failures (next_boot_state i (load_boot_state J x))) \<le> n"
  using assms unat_Suc_small [of "bs_consecutive_failures (load_boot_state J x)" n]
  by (auto simp: ratchet_at_def Let_def next_boot_state_def load_boot_state_def boot_state_default_def)

lemma ratchet_at_next:
  assumes "ratchet_at ids n k J x" and "n < 2 ^ 32" and "i \<noteq> []"
    and "y \<noteq> None" and "load_boot_state J y = next_boot_state i (load_boot_state J x)"
  shows "ratchet_at (insert i ids) (Suc n) (Suc k) J y"
  using next_boot_state_ratchet [OF assms(1,2), of i] assms(3-5)
  by (auto simp: ratchet_at_def Let_def next_boot_state_def)

lemma ratchet_at_fewer: "ratchet_at ids n (Suc k) J x \<Longrightarrow> ratchet_at ids n k J x"
  by (auto simp: ratchet_at_def Let_def)

text \<open>Whatever happens to the save, the report is that of the state that was to be saved.\<close>

lemma boot_collect_report:
  assumes "boot_collect J dir E s = (tr, s', Some (Inr (r, logs)))"
    and "load_boot_state J (fs_read s (boot_state_path dir)) = st"
  shows "r = Inr (boot_report E (if bs_last_boot_id st \<noteq> read_boot_id E
     then next_boot_state (read_boot_id E) st else st))"
proof -
  have *: "map_sum (\<lambda>ex. ex) (Pair b) z = Inr (r, logs) \<Longrightarrow> r = b"
    for b :: "boot_status probe_result" and z :: "string + string list"
    by (cases z) auto
  from assms show ?thesis by (auto simp: boot_collect_def Let_def split: if_splits prod.splits dest!: *)
qed

text \<open>A boot under a fresh identifier takes the path that saves.\<close>

lemma fresh_boot_collect:
  assumes "ratchet_at ids n k J (fs_read s (boot_state_path dir))"
    and "be_boot_id E = Some i" "i \<noteq> []" "i \<notin> ids"
    and "boot_collect J dir E s = (tr, s', out)"
  obtains out' where
    "save_boot_state J dir E (next_boot_state i (load_boot_state J (fs_read s (boot_state_path dir)))) s
       = (tr, s', out')"
    "out = map_option (map_sum (\<lambda>ex. ex) (\<lambda>logs. (Inr (boot_report E
       (next_boot_state i (load_boot_state J (fs_read s (boot_state_path dir))))), logs))) out'"
proof -
  have "bs_last_boot_id (load_boot_state J (fs_read s (boot_state_path dir))) \<noteq> read_boot_id E"
    using assms(1-4)
    by (auto simp: ratchet_at_def Let_def read_boot_id_def load_boot_state_def boot_state_default_def)
  then show thesis
    using assms(2,5) that
    by (auto simp: boot_collect_def Let_def read_boot_id_def split: prod.splits)
qed

lemma boot_loop_ratchet:
  assumes "boot_loop J dir ids n k s" and "boot_json_ok J" and "n < 2 ^ 32"
  shows "\<forall>x\<in>crash_contents s (boot_state_path dir). ratchet_at ids n k J x"
  using assms(1,3)
proof (induction rule: boot_loop.induct)
  case (new_device s)
  then show ?case by (simp add: ratchet_at_def)
next
  case (saved ids n k s E s1 i tr s2 r)
  let ?x = "fs_read s1 (boot_state_path dir)"
  have x: "ratchet_at ids n k J ?x" using saved.IH saved.prems saved.hyps(2) by (auto simp: reboot_def)
  obtain out' where sv: "save_boot_state J dir E (next_boot_state i (load_boot_state J ?x)) s1 = (tr, s2, out')"
      and out: "Some (Inr (r, [])) = map_option (map_sum (\<lambda>ex. ex) (\<lambda>logs. (Inr (boot_report E
       (next_boot_state i (load_boot_state J ?x))), logs))) out'"
    by (rule fresh_boot_collect [OF x saved.hyps(3,4,5,6)])
  have "out' = Some (Inr [])" using out by (cases out'; cases "the out'") auto
  then obtain c where "crash_contents s2 (boot_state_path dir) = {Some c}"
      "load_boot_state J (Some c) = next_boot_state i (load_boot_state J ?x)"
    using save_boot_state_durable [OF assms(2) _ sv [unfolded \<open>out' = _\<close>]] saved.hyps(2)
    by (auto simp: reboot_def)
  then show ?case using ratchet_at_next [OF x _ saved.hyps(4)] saved.prems by simp
next
  case (cut ids n k s E s1 i tr s2 out t)
  let ?x = "fs_read s1 (boot_state_path dir)"
  have x: "ratchet_at ids n k J ?x" and one: "crash_contents s1 (boot_state_path dir) = {?x}"
    and inv: "fs_inv (be_pid E) (boot_state_path dir) s1"
    using cut.IH cut.prems cut.hyps(2) by (auto simp: reboot_def)
  obtain out' where sv: "save_boot_state J dir E (next_boot_state i (load_boot_state J ?x)) s1 = (tr, s2, out')"
    by (rule fresh_boot_collect [OF x cut.hyps(3,4,5,6)])
  show ?case
  proof
    fix y
    assume y: "y \<in> crash_contents t (boot_state_path dir)"
    have "y = ?x \<or> (y \<noteq> None \<and> load_boot_state J y = next_boot_state i (load_boot_state J ?x))"
      using save_boot_state_crash [OF assms(2) inv sv _ y] cut.hyps(7) y one by auto
    then show "ratchet_at (insert i ids) (Suc n) k J y"
      using ratchet_at_weaken [OF x] ratchet_at_fewer [OF ratchet_at_next [OF x _ cut.hyps(4)]] cut.prems
      by auto
  qed
qed

section \<open>Properties\<close>

text \<open>C2: a boot loop is noticed across power cuts: however the boots ended, and wherever in the save
  power was lost, the next boot reports at least as many failures as boots that had saved their
  state and never more than there were boots, so once as many boots as the critical threshold
  have saved, the boot section is critical.\<close>

theorem boot_loop_detected:
  assumes "boot_json_ok J" and "boot_loop J dir ids n k s" and "n < 2 ^ 32"
    and "reboot (be_pid E) (boot_state_path dir) s s1"
    and "be_boot_id E = Some i" "i \<noteq> []" "i \<notin> ids"
    and "boot_collect J dir E s1 = (tr, s2, Some (Inr (r, logs)))"
  shows "\<exists>st. r = Inr st \<and> k \<le> unat (boot_fail_count st) \<and> unat (boot_fail_count st) \<le> n
    \<and> (boot_ok st \<longleftrightarrow> boot_fail_count st = 0)
    \<and> (unat (boot_fail_crit (cfg_thresholds cfg)) \<le> k \<longrightarrow> evaluate_boot cfg st = Sev_Crit)"
proof -
  let ?x = "fs_read s1 (boot_state_path dir)"
  let ?st = "boot_report E (next_boot_state i (load_boot_state J ?x))"
  have x: "ratchet_at ids n k J ?x"
    using boot_loop_ratchet [OF assms(2,1,3)] assms(4) by (auto simp: reboot_def)
  have "bs_last_boot_id (load_boot_state J ?x) \<noteq> read_boot_id E" "read_boot_id E = i"
    using x assms(5-7)
    by (auto simp: ratchet_at_def Let_def read_boot_id_def load_boot_state_def boot_state_default_def)
  then have r: "r = Inr ?st" using boot_collect_report [OF assms(8) refl] by simp
  have "boot_fail_count ?st = bs_consecutive_failures (next_boot_state i (load_boot_state J ?x))"
      "boot_ok ?st \<longleftrightarrow> boot_fail_count ?st = 0"
    by (simp_all add: boot_report_def)
  with next_boot_state_ratchet [OF x assms(3), of i] show ?thesis
    unfolding r by (auto simp: evaluate_boot_def word_le_nat_alt)
qed

text \<open>Marking the boot as good ends the count: whatever the file held before, the next boot under any
  identifier reports no failure and is rated ok when the thresholds are positive.\<close>

theorem boot_success_resets:
  assumes "boot_json_ok J" and "fs_inv (be_pid E) (boot_state_path dir) s"
    and "mark_boot_success J dir E s = (tr, s', Some (Inr []))"
    and "reboot (be_pid E') (boot_state_path dir) s' s1"
    and "boot_collect J dir E' s1 = (tr', s2, Some (Inr (r, logs)))"
  shows "\<exists>st. r = Inr st \<and> boot_fail_count st = 0 \<and> boot_ok st
    \<and> (0 < boot_fail_warn (cfg_thresholds cfg) \<and> 0 < boot_fail_crit (cfg_thresholds cfg)
        \<longrightarrow> evaluate_boot cfg st = Sev_Ok)"
proof -
  let ?good = "(load_boot_state J (fs_read s (boot_state_path dir)))
     \<lparr>bs_last_boot_id := read_boot_id E, bs_consecutive_failures := 0, bs_last_boot_ok := True\<rparr>"
  have "save_boot_state J dir E ?good s = (tr, s', Some (Inr []))"
    using assms(3) by (simp add: mark_boot_success_def Let_def)
  from save_boot_state_durable [OF assms(1,2) this] assms(4)
  have load: "load_boot_state J (fs_read s1 (boot_state_path dir)) = ?good" by (auto simp: reboot_def)
  define st where "st = (if bs_last_boot_id ?good \<noteq> read_boot_id E'
     then next_boot_state (read_boot_id E') ?good else ?good)"
  have "bs_consecutive_failures st = 0" by (simp add: st_def next_boot_state_def)
  moreover have "r = Inr (boot_report E' st)"
    using boot_collect_report [OF assms(5) load] by (simp add: st_def)
  ultimately show ?thesis
    by (auto simp: boot_report_def evaluate_boot_def not_le)
qed

text \<open>What loading makes of a damaged file: no file or no JSON is the initial state; but when a member
  has the wrong type, the members read before it are kept, and the boot they name counts as
  good, so its failure is not counted.\<close>

theorem load_boot_state_damaged:
  "load_boot_state J None = boot_state_default
   \<and> (jl_parse J False c = Inl e \<longrightarrow> load_boot_state J (Some c) = boot_state_default)
   \<and> (jl_parse J False c = Inr j \<and> j_contains j ''last_boot_id'' \<and> get_string J (j_at j ''last_boot_id'') = Inr i
      \<and> j_contains j ''consecutive_failures'' \<and> get_u32 J (j_at j ''consecutive_failures'') = Inl e
      \<longrightarrow> load_boot_state J (Some c) = boot_state_default\<lparr>bs_last_boot_id := i\<rparr>
        \<and> bs_consecutive_failures (next_boot_state i' (load_boot_state J (Some c))) = 0)"
  by (simp add: load_boot_state_def jfield_def boot_state_default_def next_boot_state_def)

definition damaged_lib :: json_lib where
  "damaged_lib = sample_json_lib\<lparr>jl_parse := \<lambda>c s.
     Inr (j_object [(''last_boot_id'', JString ''b1''), (''consecutive_failures'', JString ''x'')])\<rparr>"

theorem load_boot_state_damaged_witness:
  "load_boot_state damaged_lib (Some ''file'') = boot_state_default\<lparr>bs_last_boot_id := ''b1''\<rparr>"
  using load_boot_state_damaged [of damaged_lib "''file''" "''type_error''"
      "j_object [(''last_boot_id'', JString ''b1''), (''consecutive_failures'', JString ''x'')]" "''b1''" "''b2''"]
  by (simp add: damaged_lib_def sample_json_lib_def j_object_def)

section \<open>A device that boots twice\<close>

definition first_boot :: "bool \<Rightarrow> boot_state" where
  "first_boot ok = \<lparr>bs_last_boot_id = ''b1'', bs_consecutive_failures = 0, bs_last_boot_ok = ok\<rparr>"

definition sample_boot_lib :: json_lib where
  "sample_boot_lib = sample_json_lib\<lparr>
     jl_parse := (\<lambda>c s. if s = ''bad'' then Inr (j_canon (boot_state_json (first_boot False)))
        else if s = ''ok'' then Inr (j_canon (boot_state_json (first_boot True)))
        else Inl ''parse_error''),
     jl_dump := (\<lambda>i j. if j = boot_state_json (first_boot False) then Inr ''bad''
        else if j = boot_state_json (first_boot True) then Inr ''ok''
        else Inl ''type_error'')\<rparr>"

lemma sample_boot_lib_ok: "boot_json_ok sample_boot_lib"
  using sample_json_lib_conversions
  by (auto simp: boot_json_ok_def json_conversions_def json_reparse_def sample_boot_lib_def)

definition sample_boot_env :: "string \<Rightarrow> string option \<Rightarrow> boot_env" where
  "sample_boot_env i mkdir = \<lparr>be_boot_id = Some i, be_uptime = Some 10, be_now = 100 * ns_per_sec,
     be_mkdir = mkdir, be_sys = sample_sys\<lparr>sys_writes := [Wrote 9]\<rparr>, be_pid = 7\<rparr>"

definition empty_fs :: fsys where
  "empty_fs = \<lparr>fs_dir = Map.empty, fs_disk = Map.empty,
     fs_inode = (\<lambda>i. \<lparr>in_data = [], in_synced = True\<rparr>), fs_fresh = 0\<rparr>"

definition fs_one :: "path \<Rightarrow> string \<Rightarrow> fsys" where
  "fs_one p c = \<lparr>fs_dir = [p \<mapsto> 0], fs_disk = [p \<mapsto> 0],
     fs_inode = (\<lambda>i. \<lparr>in_data = c, in_synced = True\<rparr>), fs_fresh = 1\<rparr>"

lemma fs_one_facts:
  "fs_inv pid p (fs_one p c)" "fs_read (fs_one p c) p = Some c" "crash_contents (fs_one p c) p = {Some c}"
  by (auto simp: fs_inv_def fs_one_def fs_read_def crash_contents_def entry_contents_def split: if_splits)

lemma empty_fs_facts:
  "fs_inv pid p empty_fs" "fs_read empty_fs p = None" "crash_contents empty_fs p = {None}"
  by (auto simp: fs_inv_def empty_fs_def fs_read_def crash_contents_def entry_contents_def)

lemma sample_save:
  assumes "fs_inv 7 (boot_state_path dir) s"
  shows "\<exists>tr s'. save_boot_state sample_boot_lib dir (sample_boot_env i None) (first_boot ok) s
       = (tr, s', Some (Inr [])) \<and>
     crash_contents s' (boot_state_path dir) = {Some (if ok then ''ok'' else ''bad'')}"
proof -
  let ?t = "if ok then ''ok'' else ''bad''" and ?S = "sample_sys\<lparr>sys_writes := [Wrote 9]\<rparr>"
  have dump: "jl_dump sample_boot_lib 2 (boot_state_json (first_boot ok)) = Inr ?t"
    by (simp add: sample_boot_lib_def boot_state_json_def first_boot_def j_object_def j_set_def)
  obtain fd s1 where op: "fs_open_trunc (temp_path_for 7 (boot_state_path dir)) s = (fd, s1)" by fastforce
  obtain tr s2 where "write_loop (sys_writes ?S) fd ?t s1 = (tr, s2, Some (Inr ()))"
    using write_loop_finishes [of "sys_writes ?S" ?t fd s1]
    by (cases "write_loop (sys_writes ?S) fd ?t s1") auto
  then obtain tr s' where run: "atomic_write_file ?S 7 (boot_state_path dir) ?t s = (tr, s', Some (Inr ()))"
    using op by (simp add: atomic_write_file_def atomic_publish_def Let_def sample_sys_def)
  have "save_boot_state sample_boot_lib dir (sample_boot_env i None) (first_boot ok) s = (tr, s', Some (Inr []))"
    using run dump by (simp add: save_boot_state_def sample_boot_env_def)
  then show ?thesis using atomic_write_file_states [OF run assms] by auto
qed

lemma sample_first_boot:
  "\<exists>tr s' r. boot_collect sample_boot_lib ''/d'' (sample_boot_env ''b1'' None) empty_fs
       = (tr, s', Some (Inr (r, []))) \<and> crash_contents s' (boot_state_path ''/d'') = {Some ''bad''}"
proof -
  have "next_boot_state ''b1'' boot_state_default = first_boot False"
    by (simp add: next_boot_state_def first_boot_def boot_state_default_def)
  then show ?thesis
    using sample_save [OF empty_fs_facts(1), where i = "''b1''" and ok = False and dir = "''/d''"]
    by (auto simp: boot_collect_def empty_fs_facts load_boot_state_def read_boot_id_def sample_boot_env_def
        boot_state_default_def Let_def)
qed

lemma boot_state_path_sample: "boot_state_path ''/d'' = ''/d/boot_state.json''"
  by (simp add: boot_state_path_def path_join_def)

lemma sample_reboot:
  "crash_contents s p = {Some c} \<Longrightarrow> reboot pid p s (fs_one p c)"
  by (simp add: reboot_def fs_one_facts)

theorem boot_loop_detected_witness:
  "\<exists>st. boot_collect sample_boot_lib ''/d'' (sample_boot_env ''b2'' (Some ''no space''))
       (fs_one ''/d/boot_state.json'' ''bad'')
       = ([], fs_one ''/d/boot_state.json'' ''bad'',
          Some (Inr (Inr st, [''save_boot_state: create_directories(/d) failed: no space''])))
     \<and> evaluate_boot (config_defaults\<lparr>cfg_thresholds := thresholds_default\<lparr>boot_fail_crit := 1\<rparr>\<rparr>) st = Sev_Crit"
proof -
  let ?p = "boot_state_path ''/d''" and ?E = "sample_boot_env ''b2'' (Some ''no space'')"
  let ?cfg = "config_defaults\<lparr>cfg_thresholds := thresholds_default\<lparr>boot_fail_crit := 1\<rparr>\<rparr>"
  obtain tr s' r where one: "boot_collect sample_boot_lib ''/d'' (sample_boot_env ''b1'' None) empty_fs
      = (tr, s', Some (Inr (r, [])))" and cc: "crash_contents s' ?p = {Some ''bad''}"
    using sample_first_boot by blast
  have "boot_loop sample_boot_lib ''/d'' {''b1''} (Suc 0) (Suc 0) s'"
    using one by (intro boot_loop.saved [OF boot_loop.new_device [of empty_fs], where ?s1.0 = empty_fs])
      (simp_all add: reboot_def empty_fs_facts sample_boot_env_def)
  moreover have "be_boot_id ?E = Some ''b2''" by (simp add: sample_boot_env_def)
  moreover obtain r' where two: "boot_collect sample_boot_lib ''/d'' ?E (fs_one ?p ''bad'')
      = ([], fs_one ?p ''bad'', Some (Inr (r', [''save_boot_state: create_directories(/d) failed: no space''])))"
    using load_dumped [OF sample_boot_lib_ok, of "first_boot False" "''bad''"]
    by (auto simp: boot_collect_def Let_def fs_one_facts save_boot_state_def sample_boot_env_def
        read_boot_id_def sample_boot_lib_def first_boot_def)
  ultimately have "\<exists>st. r' = Inr st \<and> evaluate_boot ?cfg st = Sev_Crit"
    using boot_loop_detected [OF sample_boot_lib_ok _ _ _ _ _ _ two, of "{''b1''}" "Suc 0" "Suc 0" s' "''b2''" ?cfg]
      sample_reboot [OF cc] by auto
  then show ?thesis using two by (auto simp: boot_state_path_sample)
qed

theorem boot_success_resets_witness:
  "\<exists>st. boot_collect sample_boot_lib ''/d'' (sample_boot_env ''b1'' None)
       (fs_one ''/d/boot_state.json'' ''ok'')
       = ([], fs_one ''/d/boot_state.json'' ''ok'', Some (Inr (Inr st, []))) \<and> boot_fail_count st = 0"
proof -
  let ?p = "boot_state_path ''/d''" and ?E = "sample_boot_env ''b1'' None"
  have bad: "load_boot_state sample_boot_lib (Some ''bad'') = first_boot False"
    and ok: "load_boot_state sample_boot_lib (Some ''ok'') = first_boot True"
    by (rule load_dumped [OF sample_boot_lib_ok]; simp add: sample_boot_lib_def boot_state_json_def
        first_boot_def j_object_def j_set_def)+
  have "(first_boot False)\<lparr>bs_last_boot_id := read_boot_id ?E, bs_consecutive_failures := 0,
      bs_last_boot_ok := True\<rparr> = first_boot True"
    by (simp add: first_boot_def read_boot_id_def sample_boot_env_def)
  then obtain tr s' where mk: "mark_boot_success sample_boot_lib ''/d'' ?E (fs_one ?p ''bad'') = (tr, s', Some (Inr []))"
      and cc: "crash_contents s' ?p = {Some ''ok''}"
    using sample_save [where i = "''b1''" and ok = True and dir = "''/d''", OF fs_one_facts(1), of "''bad''"]
    by (auto simp: mark_boot_success_def fs_one_facts bad)
  have two: "boot_collect sample_boot_lib ''/d'' ?E (fs_one ?p ''ok'')
      = ([], fs_one ?p ''ok'', Some (Inr (Inr (boot_report ?E (first_boot True)), [])))"
    by (simp add: boot_collect_def fs_one_facts ok) (simp add: first_boot_def read_boot_id_def sample_boot_env_def)
  from boot_success_resets [OF sample_boot_lib_ok fs_one_facts(1) mk sample_reboot [OF cc] two]
  show ?thesis using two by (auto simp: boot_state_path_sample)
qed

end
