(* ===== verification/Netlink_Monitor.thy ===== *)
theory Netlink_Monitor
  imports Types Std_Map
begin

text \<open>
  The network cache, \<^verbatim>\<open>src/netlink_monitor.cpp\<close>.  A message is given by its header fields and
  by the attributes the loop of the callback visits, with the values the getters of libmnl
  return for them; a datagram is a list of messages and the socket a queue of datagrams.
  The walk over the bytes of a message is modelled separately, in \<open>attr_walk\<close>.
\<close>

unbundle bit_operations_syntax

section \<open>Data\<close>

record nl_stats =
  nl_name :: string
  nl_ifindex :: int
  nl_rx_bytes :: u64
  nl_tx_bytes :: u64
  nl_rx_packets :: u64
  nl_tx_packets :: u64
  nl_rx_errors :: u64
  nl_tx_errors :: u64
  nl_rx_dropped :: u64
  nl_tx_dropped :: u64
  nl_link_up :: bool
  nl_running :: bool
  nl_carrier_up :: bool
  nl_mtu :: u32
  nl_mac :: string
  nl_operstate :: u8
  nl_carrier_changes :: u32
  nl_carrier_up_count :: u32
  nl_carrier_down_count :: u32
  nl_ipv4_addr :: "string option"

definition nl_stats_default :: nl_stats where
  "nl_stats_default = \<lparr>nl_name = [], nl_ifindex = - 1, nl_rx_bytes = 0, nl_tx_bytes = 0,
     nl_rx_packets = 0, nl_tx_packets = 0, nl_rx_errors = 0, nl_tx_errors = 0, nl_rx_dropped = 0,
     nl_tx_dropped = 0, nl_link_up = False, nl_running = False, nl_carrier_up = False, nl_mtu = 0,
     nl_mac = [], nl_operstate = 0, nl_carrier_changes = 0, nl_carrier_up_count = 0,
     nl_carrier_down_count = 0, nl_ipv4_addr = None\<rparr>"

record link_stats64 =
  ls_rx_bytes :: u64
  ls_tx_bytes :: u64
  ls_rx_packets :: u64
  ls_tx_packets :: u64
  ls_rx_errors :: u64
  ls_tx_errors :: u64
  ls_rx_dropped :: u64
  ls_tx_dropped :: u64

text \<open>\<open>A_STATS64 None\<close> is a payload shorter than the struct, which the validation refuses.\<close>

datatype link_attr =
    A_STATS64 "link_stats64 option"
  | A_IFNAME string
  | A_CARRIER u8
  | A_MTU u32
  | A_ADDRESS "u8 list"
  | A_OPERSTATE u8
  | A_CARRIER_CHANGES u32
  | A_CARRIER_UP_COUNT u32
  | A_CARRIER_DOWN_COUNT u32
  | A_OTHER

record link_msg =
  lm_index :: int
  lm_flags :: u32
  lm_attrs :: "link_attr list"

datatype addr_attr = IFA_ADDRESS "u8 list" | IFA_LOCAL "u8 list" | IFA_OTHER

record addr_msg =
  am_family :: u8
  am_index :: int
  am_attrs :: "addr_attr list"

datatype nl_msg =
    NLMSG_DONE
  | NLMSG_ERROR
  | RTM_NEWLINK link_msg
  | RTM_DELLINK link_msg
  | RTM_NEWADDR addr_msg
  | RTM_DELADDR addr_msg
  | NL_OTHER

type_synonym datagram = "nl_msg list"
type_synonym nl_cache = "(int \<times> nl_stats) list"

section \<open>Text\<close>

definition hex2 :: "u8 \<Rightarrow> string" where
  "hex2 b = [digit_char (unat b div 16), digit_char (unat b mod 16)]"

fun join_with :: "string \<Rightarrow> string list \<Rightarrow> string" where
  "join_with sep [] = []"
| "join_with sep [x] = x"
| "join_with sep (x # y # xs) = x @ sep @ join_with sep (y # xs)"

definition format_mac :: "u8 list \<Rightarrow> string" where
  "format_mac bytes = (if length bytes \<noteq> 6 then [] else join_with '':'' (map hex2 bytes))"

definition AF_INET :: u8 where
  "AF_INET = 2"

text \<open>\<^verbatim>\<open>inet_ntop\<close> for IPv4 is dotted decimal; the callback never asks for another family.\<close>

definition format_addr :: "u8 \<Rightarrow> u8 list \<Rightarrow> string" where
  "format_addr family bytes =
     (if family = AF_INET \<and> length bytes \<noteq> 4 then []
      else if family = AF_INET then join_with ''.'' (map (\<lambda>b. show_nat (unat b)) bytes)
      else [])"

section \<open>Callbacks\<close>

fun parse_rtnl_stats :: "link_attr \<Rightarrow> nl_stats \<Rightarrow> nl_stats" where
  "parse_rtnl_stats (A_STATS64 (Some l)) st = st\<lparr>
     nl_rx_bytes := ls_rx_bytes l, nl_tx_bytes := ls_tx_bytes l,
     nl_rx_packets := ls_rx_packets l, nl_tx_packets := ls_tx_packets l,
     nl_rx_errors := ls_rx_errors l, nl_tx_errors := ls_tx_errors l,
     nl_rx_dropped := ls_rx_dropped l, nl_tx_dropped := ls_tx_dropped l\<rparr>"
| "parse_rtnl_stats (A_STATS64 None) st = st"
| "parse_rtnl_stats (A_IFNAME s) st = st\<lparr>nl_name := s\<rparr>"
| "parse_rtnl_stats (A_CARRIER v) st = st\<lparr>nl_carrier_up := (v \<noteq> 0)\<rparr>"
| "parse_rtnl_stats (A_MTU v) st = st\<lparr>nl_mtu := v\<rparr>"
| "parse_rtnl_stats (A_ADDRESS bs) st = (let mac = format_mac bs in if mac = [] then st else st\<lparr>nl_mac := mac\<rparr>)"
| "parse_rtnl_stats (A_OPERSTATE v) st = st\<lparr>nl_operstate := v\<rparr>"
| "parse_rtnl_stats (A_CARRIER_CHANGES v) st = st\<lparr>nl_carrier_changes := v\<rparr>"
| "parse_rtnl_stats (A_CARRIER_UP_COUNT v) st = st\<lparr>nl_carrier_up_count := v\<rparr>"
| "parse_rtnl_stats (A_CARRIER_DOWN_COUNT v) st = st\<lparr>nl_carrier_down_count := v\<rparr>"
| "parse_rtnl_stats A_OTHER st = st"

definition cache_entry :: "nl_cache \<Rightarrow> int \<Rightarrow> nl_stats" where
  "cache_entry cache i = (case map_of cache i of Some st \<Rightarrow> st | None \<Rightarrow> nl_stats_default)"

definition data_cb :: "link_msg \<Rightarrow> nl_cache \<Rightarrow> nl_cache" where
  "data_cb m cache =
     (let st = (cache_entry cache (lm_index m))\<lparr>nl_ifindex := lm_index m,
            nl_link_up := (lm_flags m AND 0x1 \<noteq> 0), nl_running := (lm_flags m AND 0x40 \<noteq> 0)\<rparr>
      in omap_put (lm_index m) (fold parse_rtnl_stats (lm_attrs m) st) cache)"

fun addr_strings :: "u8 \<Rightarrow> addr_attr list \<Rightarrow> string \<times> string \<Rightarrow> string \<times> string" where
  "addr_strings fam [] r = r"
| "addr_strings fam (IFA_ADDRESS bs # as) (a, l) = addr_strings fam as (format_addr fam bs, l)"
| "addr_strings fam (IFA_LOCAL bs # as) (a, l) = addr_strings fam as (a, format_addr fam bs)"
| "addr_strings fam (IFA_OTHER # as) r = addr_strings fam as r"

definition addr_data_cb :: "bool \<Rightarrow> addr_msg \<Rightarrow> nl_cache \<Rightarrow> nl_cache" where
  "addr_data_cb del m cache =
     (if am_family m \<noteq> AF_INET then cache
      else case map_of cache (am_index m) of
        None \<Rightarrow> cache
      | Some st \<Rightarrow>
          if del then omap_put (am_index m) (st\<lparr>nl_ipv4_addr := None\<rparr>) cache
          else
            let (addr, loc) = addr_strings (am_family m) (am_attrs m) ([], []);
                chosen = (if loc \<noteq> [] then loc else addr)
            in if chosen = [] then cache
               else omap_put (am_index m) (st\<lparr>nl_ipv4_addr := Some chosen\<rparr>) cache)"

section \<open>Reading the socket\<close>

fun dispatch :: "nl_msg \<Rightarrow> nl_cache \<Rightarrow> nl_cache" where
  "dispatch (RTM_NEWLINK m) c = data_cb m c"
| "dispatch (RTM_DELLINK m) c = data_cb m c"
| "dispatch (RTM_NEWADDR m) c = addr_data_cb False m c"
| "dispatch (RTM_DELADDR m) c = addr_data_cb True m c"
| "dispatch _ c = c"

text \<open>One received buffer of a dump; \<open>True\<close> when the end or an error was seen.\<close>

fun dump_messages :: "datagram \<Rightarrow> nl_cache \<Rightarrow> bool \<times> nl_cache" where
  "dump_messages [] c = (False, c)"
| "dump_messages (NLMSG_DONE # ms) c = (True, c)"
| "dump_messages (NLMSG_ERROR # ms) c = (True, c)"
| "dump_messages (m # ms) c = dump_messages ms (dispatch m c)"

text \<open>
  The queue holds the datagrams that arrive before \<^verbatim>\<open>poll\<close> times out or a read fails; what the
  loop leaves is returned.
\<close>

fun drain_response :: "datagram list \<Rightarrow> nl_cache \<Rightarrow> datagram list \<times> nl_cache" where
  "drain_response [] c = ([], c)"
| "drain_response (d # ds) c =
     (case dump_messages d c of (stop, c') \<Rightarrow> if stop then (ds, c') else drain_response ds c')"

text \<open>\<open>sent\<close>: the request was sent; \<open>reply\<close>: the datagrams that come in after it.\<close>

definition request_dump :: "bool \<Rightarrow> datagram list \<Rightarrow> datagram list \<Rightarrow> nl_cache \<Rightarrow> datagram list \<times> nl_cache" where
  "request_dump sent reply q c = (if sent then drain_response (q @ reply) c else (q, c))"

definition request_addr_dump :: "bool \<Rightarrow> datagram list \<Rightarrow> datagram list \<Rightarrow> nl_cache \<Rightarrow> datagram list \<times> nl_cache" where
  "request_addr_dump sent reply q c = (if sent then drain_response (q @ reply) c else (q, c))"

definition process_incoming :: "datagram list \<Rightarrow> nl_cache \<Rightarrow> datagram list \<times> nl_cache" where
  "process_incoming q c = (case q of [] \<Rightarrow> ([], c) | d # ds \<Rightarrow> (ds, fold dispatch d c))"

fun drain_events :: "datagram list \<Rightarrow> nl_cache \<Rightarrow> datagram list \<times> nl_cache" where
  "drain_events [] c = ([], c)"
| "drain_events (d # ds) c = drain_events ds (fold dispatch d c)"

definition get_all_stats :: "nl_cache \<Rightarrow> nl_stats list" where
  "get_all_stats cache = map snd cache"

record nl_monitor =
  nm_fd :: int
  nm_queue :: "datagram list"
  nm_cache :: nl_cache

definition nl_monitor_new :: nl_monitor where
  "nl_monitor_new = \<lparr>nm_fd = - 1, nm_queue = [], nm_cache = []\<rparr>"

record nl_init_env =
  ne_open :: "int option"  \<comment> \<open>the descriptor\<close>
  ne_bind :: bool
  ne_nonblock :: bool
  ne_link_sent :: bool
  ne_link_reply :: "datagram list"
  ne_addr_sent :: bool
  ne_addr_reply :: "datagram list"

definition nl_init :: "nl_init_env \<Rightarrow> nl_monitor \<Rightarrow> bool \<times> nl_monitor" where
  "nl_init E M =
     (case ne_open E of
        None \<Rightarrow> (False, M)
      | Some fd \<Rightarrow>
          if \<not> ne_bind E then (False, M)
          else if \<not> ne_nonblock E then (False, M\<lparr>nm_fd := - 1\<rparr>)
          else
            let (q1, c1) = request_dump (ne_link_sent E) (ne_link_reply E) (nm_queue M) (nm_cache M);
                (q2, c2) = request_addr_dump (ne_addr_sent E) (ne_addr_reply E) q1 c1
            in (True, M\<lparr>nm_fd := fd, nm_queue := q2, nm_cache := c2\<rparr>))"

section \<open>The invariant of the cache\<close>

text \<open>Keys are sorted and distinct, and an entry carries its own index.\<close>

definition cache_inv :: "nl_cache \<Rightarrow> bool" where
  "cache_inv c \<longleftrightarrow> omap_wf c \<and> (\<forall>(i, st)\<in>set c. nl_ifindex st = i)"

lemma parse_rtnl_ifindex [simp]: "nl_ifindex (parse_rtnl_stats a st) = nl_ifindex st"
  by (induction a st rule: parse_rtnl_stats.induct) (simp_all add: Let_def)

lemma parse_rtnl_ipv4 [simp]: "nl_ipv4_addr (parse_rtnl_stats a st) = nl_ipv4_addr st"
  by (induction a st rule: parse_rtnl_stats.induct) (simp_all add: Let_def)

lemma parse_rtnl_flags [simp]:
  "nl_running (parse_rtnl_stats a st) = nl_running st" "nl_link_up (parse_rtnl_stats a st) = nl_link_up st"
  by (induction a st rule: parse_rtnl_stats.induct) (simp_all add: Let_def)

lemma fold_parse_rtnl [simp]:
  "nl_ifindex (fold parse_rtnl_stats as st) = nl_ifindex st"
  "nl_ipv4_addr (fold parse_rtnl_stats as st) = nl_ipv4_addr st"
  "nl_running (fold parse_rtnl_stats as st) = nl_running st"
  "nl_link_up (fold parse_rtnl_stats as st) = nl_link_up st"
  by (induction as arbitrary: st) simp_all

lemma cache_inv_put: "cache_inv c \<Longrightarrow> nl_ifindex st = i \<Longrightarrow> cache_inv (omap_put i st c)"
  using set_omap_put_subset [of i st c] by (auto simp: cache_inv_def)

lemma cache_inv_lookup: "cache_inv c \<Longrightarrow> map_of c i = Some st \<Longrightarrow> nl_ifindex st = i"
  by (auto simp: cache_inv_def dest: map_of_SomeD)

lemma data_cb_inv: "cache_inv c \<Longrightarrow> cache_inv (data_cb m c)"
  by (auto simp: data_cb_def Let_def intro: cache_inv_put)

lemma addr_data_cb_inv: "cache_inv c \<Longrightarrow> cache_inv (addr_data_cb del m c)"
  by (auto simp: addr_data_cb_def Let_def cache_inv_lookup intro!: cache_inv_put split: option.splits prod.splits)

lemma dispatch_inv: "cache_inv c \<Longrightarrow> cache_inv (dispatch m c)"
  by (cases m) (simp_all add: data_cb_inv addr_data_cb_inv)

interpretation nl: invariant_handler dispatch cache_inv
  by unfold_locales (rule dispatch_inv)

lemma dump_messages_inv: "cache_inv c \<Longrightarrow> cache_inv (snd (dump_messages ms c))"
  by (induction ms c rule: dump_messages.induct) (simp_all add: data_cb_inv addr_data_cb_inv)

lemma drain_response_inv: "cache_inv c \<Longrightarrow> cache_inv (snd (drain_response q c))"
proof (induction q c rule: drain_response.induct)
  case (2 d ds c)
  then show ?case using dump_messages_inv [of c d] by (auto split: prod.splits)
qed simp

lemma drain_events_fold: "drain_events q c = ([], fold dispatch (concat q) c)"
  by (induction q c rule: drain_events.induct) simp_all

lemma nl_init_inv: "cache_inv (nm_cache M) \<Longrightarrow> cache_inv (nm_cache (snd (nl_init E M)))"
proof -
  assume inv: "cache_inv (nm_cache M)"
  have dump: "cache_inv (snd (request_dump b r q c))" if "cache_inv c" for b r q c
    using drain_response_inv that by (simp add: request_dump_def)
  obtain q1 c1 where 1: "request_dump (ne_link_sent E) (ne_link_reply E) (nm_queue M) (nm_cache M) = (q1, c1)"
    by fastforce
  with dump [OF inv] have c1: "cache_inv c1" by (metis snd_conv)
  have "cache_inv (snd (request_addr_dump (ne_addr_sent E) (ne_addr_reply E) q1 c1))"
    using drain_response_inv c1 by (simp add: request_addr_dump_def)
  then show ?thesis using inv 1 by (auto simp: nl_init_def split: option.splits prod.splits)
qed

section \<open>The monitor over time\<close>

text \<open>
  The steps of a monitor: initialisation, the kernel queueing a datagram, the event loop reading
  one, and the drain before a collection.
\<close>

inductive nl_step :: "nl_monitor \<Rightarrow> nl_monitor \<Rightarrow> bool" where
  Init: "nl_step M (snd (nl_init E M))"
| Arrive: "nl_step M (M\<lparr>nm_queue := nm_queue M @ [d]\<rparr>)"
| Process: "process_incoming (nm_queue M) (nm_cache M) = (q, c) \<Longrightarrow> nl_step M (M\<lparr>nm_queue := q, nm_cache := c\<rparr>)"
| Drain: "drain_events (nm_queue M) (nm_cache M) = (q, c) \<Longrightarrow> nl_step M (M\<lparr>nm_queue := q, nm_cache := c\<rparr>)"

inductive nl_reach :: "nl_monitor \<Rightarrow> bool" where
  start: "nl_reach nl_monitor_new"
| step: "nl_reach M \<Longrightarrow> nl_step M M' \<Longrightarrow> nl_reach M'"

inductive_cases nl_stepE: "nl_step M M'"

lemma nl_step_inv: "nl_step M M' \<Longrightarrow> cache_inv (nm_cache M) \<Longrightarrow> cache_inv (nm_cache M')"
  by (erule nl_stepE)
     (auto simp: nl_init_inv process_incoming_def drain_events_fold nl.fold_inv split: list.splits)

lemma nl_reach_inv: "nl_reach M \<Longrightarrow> cache_inv (nm_cache M)"
proof (induction rule: nl_reach.induct)
  case start
  then show ?case by (simp add: nl_monitor_new_def cache_inv_def)
qed (rule nl_step_inv)

lemma cache_inv_keys: "cache_inv c \<Longrightarrow> map nl_ifindex (get_all_stats c) = map fst c"
  by (auto simp: cache_inv_def get_all_stats_def)

section \<open>The walk over the attributes\<close>

text \<open>
  The loop over the attributes of one message, on the bytes of the receive buffer: it starts at
  the first attribute and asks libmnl at each offset whether an attribute fits into \<open>n\<close> bytes;
  \<open>n\<close> is the length of the whole payload at every turn.  The two functions of libmnl are
  parameters; a buffer is read at any offset.
\<close>

record mnl_attr_ops =
  mnl_attr_ok :: "(nat \<Rightarrow> u8) \<Rightarrow> nat \<Rightarrow> nat \<Rightarrow> bool"
  mnl_attr_next :: "(nat \<Rightarrow> u8) \<Rightarrow> nat \<Rightarrow> nat"

fun attr_walk :: "mnl_attr_ops \<Rightarrow> (nat \<Rightarrow> u8) \<Rightarrow> nat \<Rightarrow> nat \<Rightarrow> nat \<Rightarrow> nat list" where
  "attr_walk L buf n 0 off = []"
| "attr_walk L buf n (Suc fuel) off =
     (if mnl_attr_ok L buf off n then off # attr_walk L buf n fuel (mnl_attr_next L buf off) else [])"

text \<open>What libmnl documents: an attribute starts with its length, and the next one is at the length
  rounded up to a multiple of four.\<close>

definition nla_len :: "(nat \<Rightarrow> u8) \<Rightarrow> nat \<Rightarrow> nat" where
  "nla_len buf off = unat (buf off) + 256 * unat (buf (off + 1))"

definition nla_align :: "nat \<Rightarrow> nat" where
  "nla_align n = (n + 3) div 4 * 4"

definition mnl_attr_laws :: "mnl_attr_ops \<Rightarrow> bool" where
  "mnl_attr_laws L \<longleftrightarrow>
     (\<forall>buf off len. mnl_attr_ok L buf off len \<longleftrightarrow> 4 \<le> len \<and> 4 \<le> nla_len buf off \<and> nla_len buf off \<le> len) \<and>
     (\<forall>buf off. mnl_attr_next L buf off = off + nla_align (nla_len buf off))"

section \<open>Properties\<close>

text \<open>C34: in every reachable state of the monitor the cache is sorted by interface index without
  duplicates and every entry carries its own index, so \<open>get_all_stats\<close> lists each interface once.\<close>

theorem netlink_cache_invariant:
  assumes "nl_reach M"
  shows "sorted_wrt (<) (map nl_ifindex (get_all_stats (nm_cache M)))
    \<and> (map_of (nm_cache M) i = Some st \<longrightarrow> nl_ifindex st = i)"
  using nl_reach_inv [OF assms] cache_inv_keys [of "nm_cache M"] cache_inv_lookup [of "nm_cache M" i st]
  by (simp add: cache_inv_def omap_wf_def)

definition sample_link :: "int \<Rightarrow> link_msg" where
  "sample_link i = \<lparr>lm_index = i, lm_flags = 0x41, lm_attrs = [A_IFNAME ''eth0'', A_MTU 1500]\<rparr>"

theorem netlink_cache_invariant_witness:
  "sorted_wrt (<) (map nl_ifindex (get_all_stats
     (snd (drain_events [[RTM_NEWLINK (sample_link 3)], [RTM_NEWLINK (sample_link 2)]] []))))"
proof -
  let ?M = "nl_monitor_new\<lparr>nm_queue := [[RTM_NEWLINK (sample_link 3)], [RTM_NEWLINK (sample_link 2)]]\<rparr>"
  have "nl_step (nl_monitor_new\<lparr>nm_queue := [[RTM_NEWLINK (sample_link 3)]]\<rparr>) ?M"
    using nl_step.Arrive [of "nl_monitor_new\<lparr>nm_queue := [[RTM_NEWLINK (sample_link 3)]]\<rparr>"] by simp
  moreover have "nl_step nl_monitor_new (nl_monitor_new\<lparr>nm_queue := [[RTM_NEWLINK (sample_link 3)]]\<rparr>)"
    using nl_step.Arrive [of nl_monitor_new] by (simp add: nl_monitor_new_def)
  ultimately have "nl_reach ?M" by (blast intro: nl_reach.intros)
  then have "nl_reach (?M\<lparr>nm_queue := [], nm_cache := snd (drain_events (nm_queue ?M) (nm_cache ?M))\<rparr>)"
    by (rule nl_reach.step) (rule nl_step.Drain, simp add: drain_events_fold)
  from netlink_cache_invariant [OF this] show ?thesis by (simp add: nl_monitor_new_def)
qed


text \<open>A deleted interface is never dropped: after \<^verbatim>\<open>RTM_DELLINK\<close> its entry is still reported, with
  the address it had; no message removes an entry.\<close>

theorem dellink_keeps_interface:
  "(\<exists>st. map_of (dispatch (RTM_DELLINK m) c) (lm_index m) = Some st
       \<and> nl_ipv4_addr st = nl_ipv4_addr (cache_entry c (lm_index m)))
   \<and> dom (map_of c) \<subseteq> dom (map_of (dispatch msg c))"
proof -
  have "dom (map_of c) \<subseteq> dom (map_of (dispatch msg c))"
    by (cases msg) (auto simp: data_cb_def addr_data_cb_def Let_def split: option.splits prod.splits if_splits)
  then show ?thesis by (simp add: data_cb_def Let_def)
qed

text \<open>The loop over the attributes does not stop at the end of the message: the length it passes to
  \<^verbatim>\<open>mnl_attr_ok\<close> does not shrink, so when the bytes behind the message look like an attribute that
  is not longer than the whole payload, they are read as one.\<close>

theorem attr_walk_leaves_message:
  assumes "mnl_attr_laws L" and "nla_len buf off = n" and "4 \<le> n" and "n mod 4 = 0"
    and "4 \<le> nla_len buf (off + n)" and "nla_len buf (off + n) \<le> n"
  shows "off + n \<in> set (attr_walk L buf n (Suc (Suc fuel)) off)"
proof -
  have "nla_align n = n" using assms(4) by (auto simp: nla_align_def)
  then show ?thesis using assms by (simp add: mnl_attr_laws_def)
qed

definition sample_mnl :: mnl_attr_ops where
  "sample_mnl = \<lparr>mnl_attr_ok = (\<lambda>b off len. 4 \<le> len \<and> 4 \<le> nla_len b off \<and> nla_len b off \<le> len),
     mnl_attr_next = (\<lambda>b off. off + nla_align (nla_len b off))\<rparr>"

theorem attr_walk_leaves_message_witness:
  "0 + 4 \<in> set (attr_walk sample_mnl (\<lambda>i. if i mod 4 = 0 then 4 else 0) 4 (Suc (Suc 0)) 0)"
  by (rule attr_walk_leaves_message) (simp_all add: mnl_attr_laws_def sample_mnl_def nla_len_def)

end
