(* ===== verification/Ethtool_Link.thy ===== *)
theory Ethtool_Link
  imports Types
begin

text \<open>
  The ethtool querier, \<^verbatim>\<open>src/ethtool_link.cpp\<close>: a persistent generic-netlink socket with a cached
  family identifier.  What the kernel answers to a request is a parameter: whether the request
  could be sent and what each read of the socket gives.  A list of reads that ends before the
  exchange is over is a socket that blocks, and the result is then \<open>None\<close>.
\<close>

record ethtool_link =
  el_speed_mbps :: "u32 option"
  el_duplex :: "duplex option"

definition ethtool_link_default :: ethtool_link where
  "ethtool_link_default = \<lparr>el_speed_mbps = None, el_duplex = None\<rparr>"

datatype req_status = Req_Ok | Req_MsgError | Req_SocketError

section \<open>Attributes\<close>

text \<open>An attribute with the value its getter returns, \<open>None\<close> when the validation refuses it.\<close>

datatype genl_attr =
    CTRL_ATTR_FAMILY_ID "u16 option"
  | LINKMODES_SPEED "u32 option"
  | LINKMODES_DUPLEX "u8 option"
  | GENL_OTHER

fun family_id_attr_cb :: "genl_attr \<Rightarrow> u16 \<Rightarrow> u16" where
  "family_id_attr_cb (CTRL_ATTR_FAMILY_ID (Some v)) f = v"
| "family_id_attr_cb _ f = f"

definition SPEED_UNKNOWN :: u32 where
  "SPEED_UNKNOWN = - 1"

fun linkmodes_attr_cb :: "genl_attr \<Rightarrow> ethtool_link \<Rightarrow> ethtool_link" where
  "linkmodes_attr_cb (LINKMODES_SPEED (Some sp)) info =
     (if sp \<noteq> 0 \<and> sp \<noteq> SPEED_UNKNOWN then info\<lparr>el_speed_mbps := Some sp\<rparr> else info)"
| "linkmodes_attr_cb (LINKMODES_DUPLEX (Some d)) info =
     (if d = 1 then info\<lparr>el_duplex := Some Duplex_Full\<rparr>
      else if d = 0 then info\<lparr>el_duplex := Some Duplex_Half\<rparr> else info)"
| "linkmodes_attr_cb _ info = info"

section \<open>One exchange\<close>

text \<open>
  A read of the socket: an error, nothing, or data, given by the attributes \<^verbatim>\<open>mnl_cb_run\<close> hands to
  the callback and by its return value (-1 error, 0 stop, 1 go on).
\<close>

datatype recv = Recv_Error | Recv_Empty | Recv_Data "genl_attr list" int

record exchange =
  ex_sent :: bool
  ex_reads :: "recv list"

fun read_replies :: "(genl_attr \<Rightarrow> 'd \<Rightarrow> 'd) \<Rightarrow> recv list \<Rightarrow> 'd \<Rightarrow> (req_status \<times> 'd) option" where
  "read_replies cb [] d = None"
| "read_replies cb (Recv_Error # rs) d = Some (Req_SocketError, d)"
| "read_replies cb (Recv_Empty # rs) d = Some (Req_Ok, d)"
| "read_replies cb (Recv_Data as ret # rs) d =
     (let d' = fold cb as d in
      if ret \<le> 0 then Some (if ret = - 1 then Req_MsgError else Req_Ok, d')
      else read_replies cb rs d')"

definition run_request :: "exchange \<Rightarrow> (genl_attr \<Rightarrow> 'd \<Rightarrow> 'd) \<Rightarrow> 'd \<Rightarrow> (req_status \<times> 'd) option" where
  "run_request x cb d = (if \<not> ex_sent x then Some (Req_SocketError, d) else read_replies cb (ex_reads x) d)"

section \<open>The querier\<close>

record querier =
  q_sock :: bool
  q_portid :: u32
  q_family :: u16
  q_seq :: u32  \<comment> \<open>the counter of \<^verbatim>\<open>next_seq\<close>\<close>

definition querier_new :: "u32 \<Rightarrow> querier" where
  "querier_new seq = \<lparr>q_sock = False, q_portid = 0, q_family = 0, q_seq = seq\<rparr>"

datatype genl_request =
    Get_Family u32 u32 string  \<comment> \<open>sequence number, port, name\<close>
  | Get_Linkmodes u16 u32 u32 string  \<comment> \<open>family, sequence number, port, interface\<close>

record genl_env =
  ge_open :: bool
  ge_bind :: bool
  ge_portid :: u32
  ge_reply :: "genl_request \<Rightarrow> exchange"

definition next_seq :: "querier \<Rightarrow> u32 \<times> querier" where
  "next_seq Q = (q_seq Q + 1, Q\<lparr>q_seq := q_seq Q + 1\<rparr>)"

definition resolve_family :: "genl_env \<Rightarrow> querier \<Rightarrow> (u16 \<times> querier) option" where
  "resolve_family E Q =
     (let (seq, Q') = next_seq Q in
      case run_request (ge_reply E (Get_Family seq (q_portid Q) ''ethtool'')) family_id_attr_cb 0 of
        None \<Rightarrow> None
      | Some (st, family) \<Rightarrow> Some (family, Q'))"

definition query_one :: "genl_env \<Rightarrow> string \<Rightarrow> querier \<Rightarrow> (req_status \<times> ethtool_link option \<times> querier) option" where
  "query_one E ifname Q =
     (let (seq, Q') = next_seq Q in
      case run_request (ge_reply E (Get_Linkmodes (q_family Q) seq (q_portid Q) ifname))
             linkmodes_attr_cb ethtool_link_default of
        None \<Rightarrow> None
      | Some (st, info) \<Rightarrow> Some (st, if st \<noteq> Req_Ok then None else Some info, Q'))"

definition q_reset :: "querier \<Rightarrow> querier" where
  "q_reset Q = Q\<lparr>q_sock := False, q_portid := 0, q_family := 0\<rparr>"

definition ensure_ready :: "genl_env \<Rightarrow> querier \<Rightarrow> (bool \<times> querier) option" where
  "ensure_ready E Q =
     (if \<not> q_sock Q \<and> \<not> ge_open E then Some (False, Q)
      else if \<not> q_sock Q \<and> \<not> ge_bind E then Some (False, q_reset Q)
      else
        let Q1 = (if q_sock Q then Q else Q\<lparr>q_sock := True, q_portid := ge_portid E\<rparr>) in
        if q_family Q1 = 0 then
          (case resolve_family E Q1 of
             None \<Rightarrow> None
           | Some (family, Q2) \<Rightarrow> Some (family \<noteq> 0, Q2\<lparr>q_family := family\<rparr>))
        else Some (True, Q1))"

fun query_loop ::
  "genl_env \<Rightarrow> string list \<Rightarrow> querier \<Rightarrow> (string \<rightharpoonup> ethtool_link) \<Rightarrow> ((string \<rightharpoonup> ethtool_link) \<times> querier) option" where
  "query_loop E [] Q out = Some (out, Q)"
| "query_loop E (n # ns) Q out =
     (case query_one E n Q of
        None \<Rightarrow> None
      | Some (st, info, Q') \<Rightarrow>
          if st = Req_SocketError then Some (out, q_reset Q')
          else query_loop E ns Q'
            (case info of
               Some i \<Rightarrow> if el_speed_mbps i \<noteq> None \<or> el_duplex i \<noteq> None then out(n \<mapsto> i) else out
             | None \<Rightarrow> out))"

definition q_query :: "genl_env \<Rightarrow> string list \<Rightarrow> querier \<Rightarrow> ((string \<rightharpoonup> ethtool_link) \<times> querier) option" where
  "q_query E ifnames Q =
     (if ifnames = [] then Some (Map.empty, Q)
      else case ensure_ready E Q of
        None \<Rightarrow> None
      | Some (ready, Q') \<Rightarrow> if \<not> ready then Some (Map.empty, Q') else query_loop E ifnames Q' Map.empty)"

definition ethtool_query_links :: "genl_env \<Rightarrow> u32 \<Rightarrow> string list \<Rightarrow> (string \<rightharpoonup> ethtool_link) option" where
  "ethtool_query_links E seq ifnames = map_option fst (q_query E ifnames (querier_new seq))"

section \<open>What a reply can carry\<close>

definition link_ok :: "ethtool_link \<Rightarrow> bool" where
  "link_ok i \<longleftrightarrow> el_speed_mbps i \<noteq> Some 0 \<and> el_speed_mbps i \<noteq> Some SPEED_UNKNOWN"

lemma linkmodes_attr_cb_ok: "link_ok i \<Longrightarrow> link_ok (linkmodes_attr_cb a i)"
  by (induction a i rule: linkmodes_attr_cb.induct) (simp_all add: link_ok_def)

interpretation lm: invariant_handler linkmodes_attr_cb link_ok
  by unfold_locales (rule linkmodes_attr_cb_ok)

lemma read_replies_ok: "read_replies linkmodes_attr_cb rs i = Some (st, i') \<Longrightarrow> link_ok i \<Longrightarrow> link_ok i'"
  by (induction linkmodes_attr_cb rs i rule: read_replies.induct)
     (auto simp: Let_def lm.fold_inv split: if_splits)

lemma query_one_ok:
  assumes "query_one E n Q = Some (st, Some i, Q')"
  shows "st = Req_Ok \<and> link_ok i"
  using assms read_replies_ok [of _ ethtool_link_default]
  by (auto simp: query_one_def next_seq_def run_request_def link_ok_def ethtool_link_default_def Let_def
      split: option.splits if_splits)

text \<open>The answers of a loop: requested names only, each with a usable speed or duplex.\<close>

definition answers_ok :: "string set \<Rightarrow> (string \<rightharpoonup> ethtool_link) \<Rightarrow> bool" where
  "answers_ok names out \<longleftrightarrow>
     (\<forall>n i. out n = Some i \<longrightarrow> n \<in> names \<and> link_ok i \<and> (el_speed_mbps i \<noteq> None \<or> el_duplex i \<noteq> None))"

lemma query_loop_ok:
  assumes "query_loop E ns Q out = Some (res, Q')" and "answers_ok names out" and "set ns \<subseteq> names"
  shows "answers_ok names res"
  using assms
proof (induction ns arbitrary: Q out)
  case (Cons n ns)
  obtain st info Q1 where one: "query_one E n Q = Some (st, info, Q1)"
    using Cons.prems(1) by (auto split: option.splits)
  have "answers_ok names (case info of
      Some i \<Rightarrow> if el_speed_mbps i \<noteq> None \<or> el_duplex i \<noteq> None then out(n \<mapsto> i) else out | None \<Rightarrow> out)"
    using Cons.prems(2,3) query_one_ok [of E n Q st _ Q1] one
    by (auto simp: answers_ok_def split: option.splits)
  then show ?case using Cons one by (auto split: if_splits)
qed simp

section \<open>The state of the querier\<close>

definition querier_inv :: "querier \<Rightarrow> bool" where
  "querier_inv Q \<longleftrightarrow> (\<not> q_sock Q \<longrightarrow> q_portid Q = 0 \<and> q_family Q = 0)"

lemma query_one_state: "query_one E n Q = Some (st, i, Q') \<Longrightarrow> Q' = Q\<lparr>q_seq := q_seq Q + 1\<rparr>"
  by (auto simp: query_one_def next_seq_def Let_def split: option.splits)

lemma query_loop_state:
  "query_loop E ns Q out = Some (res, Q') \<Longrightarrow>
   (\<exists>s. Q' = Q\<lparr>q_seq := s\<rparr>) \<or> (\<exists>s. Q' = q_reset (Q\<lparr>q_seq := s\<rparr>))"
proof (induction ns arbitrary: Q out)
  case Nil
  then show ?case by (auto intro: exI [of _ "q_seq Q"])
next
  case (Cons n ns)
  obtain st info Q1 where one: "query_one E n Q = Some (st, info, Q1)"
    using Cons.prems by (auto split: option.splits)
  note Q1 = query_one_state [OF one]
  show ?case
  proof (cases "st = Req_SocketError")
    case True
    then show ?thesis using Cons.prems one Q1 by auto
  next
    case False
    then obtain out' where "query_loop E ns Q1 out' = Some (res, Q')" using Cons.prems one by auto
    from Cons.IH [OF this] show ?thesis unfolding Q1 by auto
  qed
qed

lemma ensure_ready_inv: "querier_inv Q \<Longrightarrow> ensure_ready E Q = Some (r, Q') \<Longrightarrow> querier_inv Q'"
  by (auto simp: ensure_ready_def resolve_family_def next_seq_def querier_inv_def q_reset_def Let_def
      split: if_splits option.splits)

lemma query_loop_inv: "querier_inv Q \<Longrightarrow> query_loop E ns Q out = Some (res, Q') \<Longrightarrow> querier_inv Q'"
  by (drule query_loop_state) (auto simp: querier_inv_def q_reset_def)

lemma q_query_inv: "querier_inv Q \<Longrightarrow> q_query E ns Q = Some (res, Q') \<Longrightarrow> querier_inv Q'"
  using ensure_ready_inv [of Q E] query_loop_inv [of _ E ns Map.empty res Q']
  by (auto simp: q_query_def split: if_splits option.splits)

lemma closed_querier: "querier_inv Q \<Longrightarrow> \<not> q_sock Q \<Longrightarrow> Q = querier_new (q_seq Q)"
  by (simp add: querier_inv_def querier_new_def)

section \<open>Exchanges that end\<close>

fun ends_exchange :: "recv \<Rightarrow> bool" where
  "ends_exchange (Recv_Data as ret) = (ret \<le> 0)"
| "ends_exchange _ = True"

definition exchange_ends :: "exchange \<Rightarrow> bool" where
  "exchange_ends x \<longleftrightarrow> \<not> ex_sent x \<or> list_ex ends_exchange (ex_reads x)"

lemma run_request_ends:
  assumes "exchange_ends x"
  shows "\<exists>r. run_request x cb d = Some r"
proof -
  have "list_ex ends_exchange rs \<Longrightarrow> \<exists>r. read_replies cb rs d = Some r" for rs
    by (induction cb rs d rule: read_replies.induct) (auto simp: Let_def)
  with assms show ?thesis by (auto simp: exchange_ends_def run_request_def)
qed

lemma query_one_ends:
  assumes "\<forall>r. exchange_ends (ge_reply E r)"
  obtains st i Q' where "query_one E n Q = Some (st, i, Q')"
  using run_request_ends [of "ge_reply E (Get_Linkmodes (q_family Q) (q_seq Q + 1) (q_portid Q) n)"
      linkmodes_attr_cb ethtool_link_default] assms
  by (auto simp: query_one_def next_seq_def Let_def)

lemma query_loop_ends:
  assumes "\<forall>r. exchange_ends (ge_reply E r)"
  shows "\<exists>r. query_loop E ns Q out = Some r"
proof (induction ns arbitrary: Q out)
  case (Cons n ns)
  obtain st i Q' where "query_one E n Q = Some (st, i, Q')" by (rule query_one_ends [OF assms])
  then show ?case using Cons.IH by simp
qed simp

lemma ensure_ready_ends:
  assumes "\<forall>r. exchange_ends (ge_reply E r)"
  shows "ensure_ready E Q \<noteq> None"
proof -
  have "\<exists>f Q2. resolve_family E Q1 = Some (f, Q2)" for Q1
    using run_request_ends [of "ge_reply E (Get_Family (q_seq Q1 + 1) (q_portid Q1) ''ethtool'')"
        family_id_attr_cb 0] assms
    by (auto simp: resolve_family_def next_seq_def Let_def)
  then obtain f Q2 where "resolve_family E (if q_sock Q then Q else Q\<lparr>q_sock := True, q_portid := ge_portid E\<rparr>)
      = Some (f, Q2)" by blast
  then show ?thesis
    by (cases "q_sock Q") (auto simp: ensure_ready_def Let_def simp del: not_None_eq)
qed

lemma query_returns:
  assumes "\<forall>r. exchange_ends (ge_reply E r)"
  shows "\<exists>res Q'. q_query E ns Q = Some (res, Q')"
proof -
  obtain ready Q1 where "ensure_ready E Q = Some (ready, Q1)" using ensure_ready_ends [OF assms, of Q] by auto
  then show ?thesis
    using query_loop_ends [OF assms, of ns Q1 Map.empty] by (cases "ns = []"; cases ready) (auto simp: q_query_def)
qed

lemma answers_ok_empty: "answers_ok names Map.empty"
  by (simp add: answers_ok_def)

lemma query_answers_ok: "q_query E ns Q = Some (res, Q') \<Longrightarrow> answers_ok (set ns) res"
  using query_loop_ok [of E ns _ Map.empty res Q' "set ns"]
  by (auto simp: q_query_def answers_ok_empty split: if_splits option.splits)

section \<open>Properties\<close>

text \<open>C36: when every exchange ends, a query ends; its answers are for requested interfaces only, each has a
  speed or a duplex mode, and no speed is zero or the marker for unknown.\<close>

theorem ethtool_query_answers:
  assumes "\<forall>r. exchange_ends (ge_reply E r)"
  shows "\<exists>res Q'. q_query E ns Q = Some (res, Q') \<and>
    (\<forall>n i. res n = Some i \<longrightarrow> n \<in> set ns \<and> (el_speed_mbps i \<noteq> None \<or> el_duplex i \<noteq> None)
       \<and> el_speed_mbps i \<noteq> Some 0 \<and> el_speed_mbps i \<noteq> Some SPEED_UNKNOWN)"
  using query_returns [OF assms, of ns Q] query_answers_ok [of E ns Q]
  by (fastforce simp: answers_ok_def link_ok_def)

definition sample_genl :: genl_env where
  "sample_genl = \<lparr>ge_open = True, ge_bind = True, ge_portid = 9, ge_reply = (\<lambda>r. case r of
     Get_Family seq port name \<Rightarrow> \<lparr>ex_sent = True, ex_reads = [Recv_Data [CTRL_ATTR_FAMILY_ID (Some 20)] 0]\<rparr>
   | Get_Linkmodes fam seq port n \<Rightarrow> \<lparr>ex_sent = True, ex_reads =
       [Recv_Data [LINKMODES_SPEED (Some 1000), LINKMODES_DUPLEX (Some 1)] 1, Recv_Data [] 0]\<rparr>)\<rparr>"

theorem ethtool_query_answers_witness:
  "\<exists>Q'. q_query sample_genl [''eth0''] (querier_new 0)
     = Some ([''eth0'' \<mapsto> \<lparr>el_speed_mbps = Some 1000, el_duplex = Some Duplex_Full\<rparr>], Q')"
proof -
  have "\<forall>r. exchange_ends (ge_reply sample_genl r)"
    by (auto simp: sample_genl_def exchange_ends_def split: genl_request.splits)
  from ethtool_query_answers [OF this, of "[''eth0'']" "querier_new 0"]
  obtain res Q' where "q_query sample_genl [''eth0''] (querier_new 0) = Some (res, Q')" by blast
  moreover from this have "res = [''eth0'' \<mapsto> \<lparr>el_speed_mbps = Some 1000, el_duplex = Some Duplex_Full\<rparr>]"
    unfolding q_query_def ensure_ready_def
    by (simp add: querier_new_def sample_genl_def resolve_family_def next_seq_def
        run_request_def query_one_def ethtool_link_default_def SPEED_UNKNOWN_def)
  ultimately show ?thesis by blast
qed

text \<open>A failure is never permanent and a working socket is kept: every query leaves the querier closed
  with nothing cached or open; from a closed one the next query behaves as the first one ever,
  and with a socket and a resolved family nothing is opened or resolved again.\<close>

theorem ethtool_querier_recovers:
  assumes "querier_inv Q" and "q_query E ns Q = Some (res, Q')"
  shows "querier_inv Q'
    \<and> (\<not> q_sock Q' \<longrightarrow> q_query E' ns' Q' = q_query E' ns' (querier_new (q_seq Q')))
    \<and> (q_sock Q' \<and> q_family Q' \<noteq> 0 \<longrightarrow> ensure_ready E' Q' = Some (True, Q'))"
proof -
  have inv: "querier_inv Q'" by (rule q_query_inv [OF assms])
  have "q_sock Q' \<and> q_family Q' \<noteq> 0 \<longrightarrow> ensure_ready E' Q' = Some (True, Q')"
    by (simp add: ensure_ready_def Let_def)
  with inv closed_querier [OF inv] show ?thesis by auto
qed

theorem ethtool_querier_recovers_witness:
  "querier_inv (snd (the (q_query (sample_genl\<lparr>ge_open := False\<rparr>) [''eth0''] (querier_new 0))))"
proof -
  have "q_query (sample_genl\<lparr>ge_open := False\<rparr>) [''eth0''] (querier_new 0) = Some (Map.empty, querier_new 0)"
    by (simp add: q_query_def ensure_ready_def querier_new_def)
  moreover have "querier_inv (querier_new 0)" by (simp add: querier_inv_def querier_new_def)
  ultimately show ?thesis using ethtool_querier_recovers [of "querier_new 0"] by simp
qed

end
