(* ===== verification/Resources_Probe.thy ===== *)
theory Resources_Probe
  imports Probe_Base Netlink_Monitor Ethtool_Link Aggregator
begin

text \<open>
  The resources probe of \<^verbatim>\<open>src/probes.cpp\<close>: load, memory, file systems, temperatures and network
  interfaces.  What the system calls and files give is the record \<open>resources_env\<close>; sizes keep
  their 64 bits and wrap as in the source.
\<close>

section \<open>Numbers from streams\<close>

text \<open>
  \<^verbatim>\<open>stream >> number\<close> for \<^verbatim>\<open>uint64_t\<close> and \<^verbatim>\<open>int\<close>: blanks are skipped, a sign is allowed (an
  unsigned number with a minus sign wraps), no digits or a number out of range is a failure.
\<close>

definition scan_sign :: "string \<Rightarrow> bool \<times> string" where
  "scan_sign s = (case dropWhile is_space s of
       [] \<Rightarrow> (False, [])
     | c # r \<Rightarrow> if c = CHR ''-'' then (True, r) else if c = CHR ''+'' then (False, r) else (False, c # r))"

definition scan_u64 :: "string \<Rightarrow> u64 option" where
  "scan_u64 s =
     (let (neg, r) = scan_sign s; ds = takeWhile is_digit r; n = read_digits 0 ds in
      if ds = [] \<or> 2 ^ 64 \<le> n then None else Some (if neg then - of_nat n else of_nat n))"

definition scan_int :: "string \<Rightarrow> int option" where
  "scan_int s =
     (let (neg, r) = scan_sign s; ds = takeWhile is_digit r; n = int (read_digits 0 ds);
          v = (if neg then - n else n) in
      if ds = [] \<or> v < - (2 ^ 31) \<or> 2 ^ 31 \<le> v then None else Some v)"

section \<open>Environment\<close>

record sysinfo_data =
  si_totalram :: u64
  si_freeram :: u64
  si_bufferram :: u64
  si_totalswap :: u64
  si_freeswap :: u64
  si_mem_unit :: u32

record statvfs_data =
  f_blocks :: u64
  f_frsize :: u64
  f_bfree :: u64
  f_bavail :: u64

record resources_env =
  re_loadavg :: "(double \<times> double \<times> double) option"
  re_meminfo :: "string option"
  re_meminfo_errno :: int
  re_sysinfo :: "sysinfo_data option"
  re_sysinfo_errno :: int
  re_statvfs :: "path \<Rightarrow> statvfs_data option"
  re_statfs :: "path \<Rightarrow> int option"
  re_thermal_dir :: "string list option"
  re_file :: "path \<Rightarrow> string option"
  re_genl :: genl_env

section \<open>Memory\<close>

record mem_info_stats =
  mem_total_kb :: u64
  mem_available_kb :: u64
  mem_free_kb :: u64
  buffers_kb :: u64
  cached_kb :: u64
  sreclaimable_kb :: u64
  shmem_kb :: u64
  swap_total_kb :: u64
  swap_free_kb :: u64
  has_mem_total :: bool
  has_mem_available :: bool
  has_mem_free :: bool
  has_buffers :: bool
  has_cached :: bool
  has_sreclaimable :: bool
  has_shmem :: bool
  has_swap_total :: bool
  has_swap_free :: bool

definition mem_info_stats_default :: mem_info_stats where
  "mem_info_stats_default = \<lparr>mem_total_kb = 0, mem_available_kb = 0, mem_free_kb = 0, buffers_kb = 0,
     cached_kb = 0, sreclaimable_kb = 0, shmem_kb = 0, swap_total_kb = 0, swap_free_kb = 0,
     has_mem_total = False, has_mem_available = False, has_mem_free = False, has_buffers = False,
     has_cached = False, has_sreclaimable = False, has_shmem = False, has_swap_total = False,
     has_swap_free = False\<rparr>"

definition meminfo_set :: "string \<Rightarrow> u64 \<Rightarrow> mem_info_stats \<Rightarrow> mem_info_stats" where
  "meminfo_set key v st =
     (if key = ''MemTotal:'' then st\<lparr>mem_total_kb := v, has_mem_total := True\<rparr>
      else if key = ''MemAvailable:'' then st\<lparr>mem_available_kb := v, has_mem_available := True\<rparr>
      else if key = ''MemFree:'' then st\<lparr>mem_free_kb := v, has_mem_free := True\<rparr>
      else if key = ''Buffers:'' then st\<lparr>buffers_kb := v, has_buffers := True\<rparr>
      else if key = ''Cached:'' then st\<lparr>cached_kb := v, has_cached := True\<rparr>
      else if key = ''SReclaimable:'' then st\<lparr>sreclaimable_kb := v, has_sreclaimable := True\<rparr>
      else if key = ''Shmem:'' then st\<lparr>shmem_kb := v, has_shmem := True\<rparr>
      else if key = ''SwapTotal:'' then st\<lparr>swap_total_kb := v, has_swap_total := True\<rparr>
      else if key = ''SwapFree:'' then st\<lparr>swap_free_kb := v, has_swap_free := True\<rparr>
      else st)"

definition meminfo_line :: "string \<Rightarrow> mem_info_stats \<Rightarrow> mem_info_stats" where
  "meminfo_line line st =
     (let s = dropWhile is_space line; key = takeWhile (\<lambda>c. \<not> is_space c) s in
      if key = [] then st
      else case scan_u64 (drop (length key) s) of None \<Rightarrow> st | Some v \<Rightarrow> meminfo_set key v st)"

definition meminfo_fallback :: "mem_info_stats \<Rightarrow> mem_info_stats" where
  "meminfo_fallback st =
     (if \<not> has_mem_available st \<and> has_mem_free st \<and> has_buffers st \<and> has_cached st
         \<and> has_sreclaimable st \<and> has_shmem st
      then let available = mem_free_kb st + buffers_kb st + cached_kb st + sreclaimable_kb st
           in st\<lparr>mem_available_kb := (if available > shmem_kb st then available - shmem_kb st else 0),
                 has_mem_available := True\<rparr>
      else st)"

definition read_meminfo :: "resources_env \<Rightarrow> mem_info_stats option \<times> int" where
  "read_meminfo E =
     (case re_meminfo E of
        None \<Rightarrow> (None, re_meminfo_errno E)
      | Some content \<Rightarrow>
          let st = meminfo_fallback (fold meminfo_line (lines_of content) mem_info_stats_default)
          in if \<not> has_mem_total st \<or> \<not> has_mem_available st then (None, 0) else (Some st, 0))"

definition memory_from_kb :: "u64 \<Rightarrow> u64 \<Rightarrow> u64 \<Rightarrow> u64 \<Rightarrow> memory_usage" where
  "memory_from_kb total_kb available_kb swap_total swap_free = \<lparr>
     mem_total_mb = total_kb div 1024,
     mem_used_mb = (if total_kb \<ge> available_kb then (total_kb - available_kb) div 1024 else 0),
     swap_used_mb = (if swap_total \<ge> swap_free then (swap_total - swap_free) div 1024 else 0)\<rparr>"

definition collect_memory :: "resources_env \<Rightarrow> memory_usage probe_result" where
  "collect_memory E =
     (case read_meminfo E of
        (Some m, err) \<Rightarrow>
          Inr (memory_from_kb (mem_total_kb m) (mem_available_kb m) (swap_total_kb m) (swap_free_kb m))
      | (None, err) \<Rightarrow>
          (case re_sysinfo E of
             None \<Rightarrow> Inl (make_probe_error ''resources''
               ''Failed to read memory via /proc/meminfo and sysinfo()''
               (if err \<noteq> 0 then err else re_sysinfo_errno E))
           | Some si \<Rightarrow>
               let unit = (if si_mem_unit si = 0 then 1 else ucast (si_mem_unit si));
                   free_plus_buffer = si_freeram si + si_bufferram si
               in Inr (memory_from_kb ((si_totalram si * unit) div 1024) ((free_plus_buffer * unit) div 1024)
                    ((si_totalswap si * unit) div 1024) ((si_freeswap si * unit) div 1024))))"

definition collect_cpu_load :: "resources_env \<Rightarrow> cpu_load" where
  "collect_cpu_load E =
     (case re_loadavg E of
        Some (a, b, c) \<Rightarrow> \<lparr>load1 = a, load5 = b, load15 = c\<rparr>
      | None \<Rightarrow> cpu_load_default)"

section \<open>File systems\<close>

definition fs_type_to_string :: "int \<Rightarrow> string" where
  "fs_type_to_string t =
     (if t = 0xEF53 then ''ext4''
      else if t = 0x01021994 then ''tmpfs''
      else if t = 0x6969 then ''nfs''
      else if t = 0x9123683E then ''btrfs''
      else if t = 0x58465342 then ''xfs''
      else if t = 0x4d44 then ''vfat''
      else if t = 0x794c7630 then ''overlay''
      else [])"

definition statvfs_usage :: "statvfs_data \<Rightarrow> storage_mount \<Rightarrow> storage_mount" where
  "statvfs_usage sv m =
     (let total = f_blocks sv * f_frsize sv; free = f_bfree sv * f_frsize sv; avail = f_bavail sv * f_frsize sv in
      if total > 0 then
        let used = total - free
        in m\<lparr>sm_used_pct := Some (ucast ((used * 100) div total)), sm_avail_mb := Some (avail div (1024 * 1024))\<rparr>
      else m\<lparr>sm_available := False\<rparr>)"

definition collect_mount :: "resources_env \<Rightarrow> string \<Rightarrow> storage_mount" where
  "collect_mount E p =
     (let m = storage_mount_default\<lparr>sm_mount := p\<rparr>;
          m1 = (case re_statvfs E p of Some sv \<Rightarrow> statvfs_usage sv m | None \<Rightarrow> m\<lparr>sm_available := False\<rparr>)
      in case re_statfs E p of Some t \<Rightarrow> m1\<lparr>sm_fs := fs_type_to_string t\<rparr> | None \<Rightarrow> m1)"

definition collect_storage :: "string list \<Rightarrow> resources_env \<Rightarrow> storage_mount list" where
  "collect_storage mounts E = map (collect_mount E) mounts"

section \<open>Temperatures\<close>

definition thermal_zone_path :: "string \<Rightarrow> string \<Rightarrow> path" where
  "thermal_zone_path name leaf = ''/sys/class/thermal/'' @ name @ ''/'' @ leaf"

definition collect_sensor :: "resources_env \<Rightarrow> string \<Rightarrow> thermal_sensor" where
  "collect_sensor E name =
     (let s = thermal_sensor_default\<lparr>ts_sensor :=
            (case re_file E (thermal_zone_path name ''type'') of Some t \<Rightarrow> first_line t | None \<Rightarrow> name)\<rparr>
      in case Option.bind (re_file E (thermal_zone_path name ''temp'')) scan_int of
           Some millidegrees \<Rightarrow>
             let celsius = d_div (Fin (of_int millidegrees)) (Fin 1000) in
             if d_le (Fin (- 40)) celsius \<and> d_le celsius (Fin 150)
             then s\<lparr>ts_temp_c := Some celsius\<rparr>
             else s\<lparr>ts_available := False\<rparr>
         | None \<Rightarrow> s\<lparr>ts_available := False\<rparr>)"

definition collect_thermal :: "resources_env \<Rightarrow> thermal_sensor list" where
  "collect_thermal E =
     (case re_thermal_dir E of
        None \<Rightarrow> []
      | Some names \<Rightarrow> map (collect_sensor E) (filter (starts_with ''thermal_zone'') names))"

section \<open>Network\<close>

definition is_safe_ifname :: "string \<Rightarrow> bool" where
  "is_safe_ifname name \<longleftrightarrow> name \<noteq> [] \<and>
     list_all (\<lambda>ch. is_alnum ch \<or> ch \<in> {CHR ''.'', CHR ''-'', CHR ''_'', CHR ''@'', CHR '':''}) name"

definition operstate_to_string :: "u8 \<Rightarrow> string" where
  "operstate_to_string st =
     (if st = 0 then ''unknown'' else if st = 1 then ''notpresent'' else if st = 2 then ''down''
      else if st = 3 then ''lowerlayerdown'' else if st = 4 then ''testing''
      else if st = 5 then ''dormant'' else if st = 6 then ''up'' else ''unknown'')"

definition iface_from_netlink :: "nl_stats \<Rightarrow> network_interface \<Rightarrow> network_interface" where
  "iface_from_netlink nl i = i\<lparr>
     ni_link := (if nl_running nl then Link_Up else Link_Down), ni_carrier := nl_carrier_up nl,
     ni_rx_bytes := nl_rx_bytes nl, ni_tx_bytes := nl_tx_bytes nl,
     ni_rx_packets := nl_rx_packets nl, ni_tx_packets := nl_tx_packets nl,
     ni_rx_dropped := nl_rx_dropped nl, ni_tx_dropped := nl_tx_dropped nl,
     ni_rx_err := nl_rx_errors nl, ni_tx_err := nl_tx_errors nl,
     ni_mtu := nl_mtu nl, ni_mac := nl_mac nl, ni_operstate := operstate_to_string (nl_operstate nl),
     ni_carrier_changes := nl_carrier_changes nl, ni_carrier_up_count := nl_carrier_up_count nl,
     ni_carrier_down_count := nl_carrier_down_count nl\<rparr>"

text \<open>The lookup table by name; of two interfaces with one name the later one is kept.\<close>

definition nl_by_name :: "nl_stats list \<Rightarrow> string \<rightharpoonup> nl_stats" where
  "nl_by_name stats = map_of (rev (map (\<lambda>s. (nl_name s, s)) stats))"

definition iface_names :: "string list \<Rightarrow> nl_stats list \<Rightarrow> string list" where
  "iface_names monitored stats =
     (if monitored = [] then filter (\<lambda>n. n \<noteq> ''lo'') (map nl_name stats) else monitored)"

definition collect_iface :: "(string \<rightharpoonup> nl_stats) \<Rightarrow> (string \<rightharpoonup> ethtool_link) \<Rightarrow> string \<Rightarrow> network_interface" where
  "collect_iface nl_map links n =
     (let i = network_interface_default\<lparr>ni_ifname := n, ni_link := Link_Unknown\<rparr> in
      if \<not> is_safe_ifname n then i
      else
        let i1 = (case nl_map n of Some nl \<Rightarrow> iface_from_netlink nl i | None \<Rightarrow> i);
            i2 = (case links n of
                    Some l \<Rightarrow> i1\<lparr>ni_speed_mbps := el_speed_mbps l, ni_duplex := el_duplex l\<rparr> | None \<Rightarrow> i1)
        in case Option.bind (nl_map n) nl_ipv4_addr of Some a \<Rightarrow> i2\<lparr>ni_ip := Some a\<rparr> | None \<Rightarrow> i2)"

definition collect_network ::
  "string list \<Rightarrow> resources_env \<Rightarrow> nl_cache \<Rightarrow> querier \<Rightarrow> (network_interface list \<times> querier) option" where
  "collect_network monitored E cache Q =
     (let stats = get_all_stats cache; names = iface_names monitored stats in
      case q_query (re_genl E) names Q of
        None \<Rightarrow> None
      | Some (links, Q') \<Rightarrow> Some (map (collect_iface (nl_by_name stats) links) names, Q'))"

section \<open>The probe\<close>

record resources_probe =
  rp_mounts :: "string list"
  rp_interfaces :: "string list"
  rp_ethtool :: querier

definition resources_probe_new :: "config \<Rightarrow> string list \<Rightarrow> string list \<Rightarrow> u32 \<Rightarrow> resources_probe" where
  "resources_probe_new cfg mounts ifaces seq = \<lparr>
     rp_mounts = (if mounts = [] then monitored_mounts cfg else mounts),
     rp_interfaces = (if ifaces = [] then monitored_interfaces cfg else ifaces),
     rp_ethtool = querier_new seq\<rparr>"

definition resources_collect ::
  "config \<Rightarrow> resources_env \<Rightarrow> nl_cache \<Rightarrow> resources_probe \<Rightarrow>
   (resources_status probe_result \<times> resources_probe) option" where
  "resources_collect cfg E cache P =
     (case collect_memory E of
        Inl e \<Rightarrow> Some (Inl e, P)
      | Inr mem \<Rightarrow>
          (case collect_network (rp_interfaces P) E cache (rp_ethtool P) of
             None \<Rightarrow> None
           | Some (net, Q) \<Rightarrow>
               Some (Inr (resources_status_default\<lparr>
                 sample_window := sample_window_sec cfg, cpu := collect_cpu_load E, memory := mem,
                 storage := collect_storage (rp_mounts P) E,
                 thermal := (if enable_thermal cfg then collect_thermal E else []),
                 network := net\<rparr>), P\<lparr>rp_ethtool := Q\<rparr>)))"

section \<open>Reading what the kernel prints\<close>

lemma show_nat_digits: "list_all is_digit (show_nat n)"
proof (induction n rule: show_nat.induct)
  case (1 n)
  then show ?case by (simp add: show_nat.simps [of n] is_digit_digit_char)
qed

lemma digit_not_space: "is_digit c \<Longrightarrow> \<not> is_space c \<and> c \<noteq> CHR ''-'' \<and> c \<noteq> CHR ''+''"
  by (auto simp: is_digit_def is_space_def Let_def)

lemma scan_sign_number:
  assumes "list_all is_space ws"
  shows "scan_sign (ws @ show_nat n @ rest) = (False, show_nat n @ rest)"
proof -
  obtain c cs where n: "show_nat n = c # cs" by (cases "show_nat n") simp_all
  have c: "is_digit c" using show_nat_digits [of n] by (simp add: n)
  have "dropWhile is_space (ws @ c # cs @ rest) = c # cs @ rest"
    using assms digit_not_space [OF c] by (subst dropWhile_append2) (auto simp: list_all_iff)
  then show ?thesis using digit_not_space [OF c] by (simp add: scan_sign_def n)
qed

lemma scan_u64_number:
  assumes "list_all is_space ws" and "n < 2 ^ 64" and "rest = [] \<or> \<not> is_digit (hd rest)"
  shows "scan_u64 (ws @ show_nat n @ rest) = Some (of_nat n)"
proof -
  have "takeWhile is_digit (show_nat n @ rest) = show_nat n"
    using assms(3) show_nat_digits [of n]
    by (cases rest) (auto simp: takeWhile_append2 list_all_iff)
  then show ?thesis using assms(2) by (simp add: scan_u64_def scan_sign_number [OF assms(1)] read_show_nat)
qed

text \<open>A line of \<^verbatim>\<open>/proc/meminfo\<close>: a key, blanks, a number and the unit.\<close>

definition kernel_line :: "string \<Rightarrow> nat \<Rightarrow> nat \<Rightarrow> string" where
  "kernel_line key pad n = key @ replicate (Suc pad) (CHR '' '') @ show_nat n @ '' kB''"

lemma meminfo_line_kernel:
  assumes "key \<noteq> []" "list_all (\<lambda>c. \<not> is_space c) key" "n < 2 ^ 64"
  shows "meminfo_line (kernel_line key pad n) st = meminfo_set key (of_nat n) st"
proof -
  have blank: "is_space (CHR '' '')" "\<not> is_digit (CHR '' '')" by (simp_all add: is_space_def is_digit_def)
  have "dropWhile is_space (key @ r) = key @ r" for r using assms(1,2) by (cases key) simp_all
  moreover have "takeWhile (\<lambda>c. \<not> is_space c) (key @ replicate (Suc pad) (CHR '' '') @ r) = key" for r
    using assms(2) blank by (subst takeWhile_append2) (auto simp: list_all_iff)
  moreover have "scan_u64 (replicate (Suc pad) (CHR '' '') @ show_nat n @ '' kB'') = Some (of_nat n)"
    by (rule scan_u64_number) (use assms(3) blank in \<open>auto simp: list_all_iff\<close>)
  ultimately show ?thesis using assms(1) by (simp add: meminfo_line_def kernel_line_def del: replicate.simps)
qed

lemma kernel_line_no_break: "CHR 0x0A \<notin> set key \<Longrightarrow> CHR 0x0A \<notin> set (kernel_line key pad n)"
  using show_nat_digits [of n] by (auto simp: kernel_line_def list_all_iff is_digit_def)

section \<open>Sizes\<close>

lemma used_le_total: "mem_used_mb (memory_from_kb t a st sf) \<le> mem_total_mb (memory_from_kb t a st sf)"
  by (auto simp: memory_from_kb_def word_le_nat_alt unat_div unat_sub intro: div_le_mono)

lemma collect_memory_is:
  "collect_memory E = Inr m \<Longrightarrow> \<exists>t a st sf. m = memory_from_kb t a st sf"
  by (auto simp: collect_memory_def Let_def split: prod.splits option.splits)

lemma unat_times_100: "unat (w :: u64) * 100 < 2 ^ 64 \<Longrightarrow> unat (w * 100) = unat w * 100"
  using unat_mult_lem [of w 100] by simp

lemma memory_from_kb_exact:
  assumes "t < 2 ^ 64" "a \<le> t" "st < 2 ^ 64" "sf \<le> st"
  shows "unat (mem_total_mb (memory_from_kb (of_nat t) (of_nat a) (of_nat st) (of_nat sf))) = t div 1024"
    and "unat (mem_used_mb (memory_from_kb (of_nat t) (of_nat a) (of_nat st) (of_nat sf))) = (t - a) div 1024"
    and "unat (swap_used_mb (memory_from_kb (of_nat t) (of_nat a) (of_nat st) (of_nat sf))) = (st - sf) div 1024"
proof -
  have "(of_nat a :: u64) \<le> of_nat t" "(of_nat sf :: u64) \<le> of_nat st"
    using assms by (simp_all add: word_le_nat_alt unat_of_nat_small)
  then show "unat (mem_total_mb (memory_from_kb (of_nat t) (of_nat a) (of_nat st) (of_nat sf))) = t div 1024"
    "unat (mem_used_mb (memory_from_kb (of_nat t) (of_nat a) (of_nat st) (of_nat sf))) = (t - a) div 1024"
    "unat (swap_used_mb (memory_from_kb (of_nat t) (of_nat a) (of_nat st) (of_nat sf))) = (st - sf) div 1024"
    using assms by (simp_all add: memory_from_kb_def unat_div unat_sub unat_of_nat_small)
qed

lemmas meminfo_keys = meminfo_line_kernel [of "''MemTotal:''"] meminfo_line_kernel [of "''MemFree:''"]
  meminfo_line_kernel [of "''MemAvailable:''"] meminfo_line_kernel [of "''SwapTotal:''"]
  meminfo_line_kernel [of "''SwapFree:''"]

lemma read_meminfo_direct:
  "re_meminfo E = Some c \<Longrightarrow> fold meminfo_line (lines_of c) mem_info_stats_default = st \<Longrightarrow>
   has_mem_total st \<Longrightarrow> has_mem_available st \<Longrightarrow> read_meminfo E = (Some st, 0)"
  by (simp add: read_meminfo_def meminfo_fallback_def)

lemma collect_memory_kernel:
  assumes "re_meminfo E = Some (unlines [kernel_line ''MemTotal:'' p1 t, kernel_line ''MemFree:'' p2 f,
      kernel_line ''MemAvailable:'' p3 a, kernel_line ''SwapTotal:'' p4 st, kernel_line ''SwapFree:'' p5 sf])"
    and "t < 2 ^ 64" "f < 2 ^ 64" "a < 2 ^ 64" "st < 2 ^ 64" "sf < 2 ^ 64"
  shows "collect_memory E = Inr (memory_from_kb (of_nat t) (of_nat a) (of_nat st) (of_nat sf))"
proof -
  let ?ls = "[kernel_line ''MemTotal:'' p1 t, kernel_line ''MemFree:'' p2 f,
      kernel_line ''MemAvailable:'' p3 a, kernel_line ''SwapTotal:'' p4 st, kernel_line ''SwapFree:'' p5 sf]"
  define st0 where "st0 = fold meminfo_line ?ls mem_info_stats_default"
  have st0: "has_mem_total st0" "has_mem_available st0" "mem_total_kb st0 = of_nat t"
      "mem_available_kb st0 = of_nat a" "swap_total_kb st0 = of_nat st" "swap_free_kb st0 = of_nat sf"
    using assms(2-6) by (simp_all add: st0_def meminfo_keys is_space_def meminfo_set_def)
  have "lines_of (unlines ?ls) = ?ls"
    by (rule lines_of_unlines) (auto intro!: kernel_line_no_break)
  then have "fold meminfo_line (lines_of (unlines ?ls)) mem_info_stats_default = st0"
    by (simp only: st0_def)
  from read_meminfo_direct [OF assms(1) this st0(1,2)] have "read_meminfo E = (Some st0, 0)" .
  then show ?thesis by (simp add: collect_memory_def st0)
qed

lemma collect_memory_used_le: "collect_memory E = Inr m \<Longrightarrow> mem_used_mb m \<le> mem_total_mb m"
  using collect_memory_is [of E m] used_le_total by blast

lemma statvfs_pct:
  assumes "unat (f_blocks sv) * unat (f_frsize sv) * 100 < 2 ^ 64" and "0 < unat (f_blocks sv) * unat (f_frsize sv)"
    and "f_bfree sv \<le> f_blocks sv"
  shows "\<exists>p. sm_used_pct (statvfs_usage sv m) = Some p \<and> unat p \<le> 100
    \<and> unat p = (unat (f_blocks sv) - unat (f_bfree sv)) * unat (f_frsize sv) * 100
        div (unat (f_blocks sv) * unat (f_frsize sv))"
proof -
  let ?B = "unat (f_blocks sv)" and ?F = "unat (f_frsize sv)" and ?R = "unat (f_bfree sv)"
  let ?t = "f_blocks sv * f_frsize sv" and ?f = "f_bfree sv * f_frsize sv"
  have R: "?R \<le> ?B" using assms(3) by (simp add: word_le_nat_alt)
  then have RF: "?R * ?F \<le> ?B * ?F" by simp
  have t: "unat ?t = ?B * ?F" using assms(1) by (intro unat_mult_lem [THEN iffD1]) simp
  have "?R * ?F < 2 ^ 64" using assms(1) RF by linarith
  then have f: "unat ?f = ?R * ?F" by (intro unat_mult_lem [THEN iffD1]) simp
  have u: "unat (?t - ?f) = (?B - ?R) * ?F"
    using RF by (simp add: unat_sub word_le_nat_alt t f diff_mult_distrib)
  have le: "(?B - ?R) * ?F * 100 \<le> ?B * ?F * 100" by simp
  then have u100: "unat ((?t - ?f) * 100) = (?B - ?R) * ?F * 100"
    using assms(1) unat_times_100 [of "?t - ?f"] unfolding u by linarith
  let ?q = "(?B - ?R) * ?F * 100 div (?B * ?F)"
  have "?q \<le> ?B * ?F * 100 div (?B * ?F)" using le by (rule div_le_mono)
  then have q: "?q \<le> 100" using assms(2) by simp
  have "unat (ucast ((?t - ?f) * 100 div ?t) :: u8) = ?q"
    using q by (simp only: unsigned_ucast_eq unat_div u100 t) (simp add: take_bit_nat_eq_self)
  moreover have "0 < ?t" using assms(2) t by (simp add: word_less_nat_alt)
  ultimately show ?thesis using q by (simp add: statvfs_usage_def Let_def)
qed

text \<open>Mounts and sensors either carry a value or are marked unavailable, never both or neither.\<close>

lemma collect_mount_marks: "sm_mount (collect_mount E p) = p \<and> (sm_available (collect_mount E p) \<longleftrightarrow> sm_used_pct (collect_mount E p) \<noteq> None)"
  by (simp add: collect_mount_def statvfs_usage_def storage_mount_default_def Let_def split: option.splits)

lemma collect_sensor_marks:
  "(ts_available (collect_sensor E n) \<longleftrightarrow> ts_temp_c (collect_sensor E n) \<noteq> None) \<and>
   (ts_temp_c (collect_sensor E n) = Some t \<longrightarrow> d_le (Fin (- 40)) t \<and> d_le t (Fin 150))"
  by (auto simp: collect_sensor_def thermal_sensor_default_def Let_def split: option.splits)

section \<open>Network\<close>

lemma nl_by_name_unique:
  assumes "distinct (map nl_name stats)" and "nl \<in> set stats"
  shows "nl_by_name stats (nl_name nl) = Some nl"
proof -
  have "distinct (map fst (rev (map (\<lambda>s. (nl_name s, s)) stats)))"
    using assms(1) by (simp add: rev_map [symmetric] comp_def)
  then show ?thesis using assms(2) by (simp add: nl_by_name_def)
qed

lemma collect_iface_name: "ni_ifname (collect_iface nl links n) = n"
  by (simp add: collect_iface_def iface_from_netlink_def Let_def split: option.splits)

lemma collect_iface_speed:
  "ni_speed_mbps (collect_iface nl links n) = Some v \<Longrightarrow> \<exists>l. links n = Some l \<and> el_speed_mbps l = Some v"
  by (auto simp: collect_iface_def iface_from_netlink_def network_interface_default_def Let_def
      split: option.splits if_splits)

lemma collect_iface_cache:
  assumes "is_safe_ifname n" and "nl n = Some st"
  shows "ni_rx_bytes (collect_iface nl links n) = nl_rx_bytes st \<and> ni_tx_bytes (collect_iface nl links n) = nl_tx_bytes st
    \<and> ni_ip (collect_iface nl links n) = nl_ipv4_addr st
    \<and> ni_link (collect_iface nl links n) = (if nl_running st then Link_Up else Link_Down)"
  using assms
  by (simp add: collect_iface_def iface_from_netlink_def network_interface_default_def Let_def split: option.splits)

section \<open>Properties\<close>


definition sample_resources_env :: resources_env where
  "sample_resources_env = \<lparr>re_loadavg = None, re_meminfo = Some (unlines [kernel_line ''MemTotal:'' 7 4096,
       kernel_line ''MemFree:'' 8 512, kernel_line ''MemAvailable:'' 3 1024,
       kernel_line ''SwapTotal:'' 6 0, kernel_line ''SwapFree:'' 7 0]),
     re_meminfo_errno = 0, re_sysinfo = None, re_sysinfo_errno = 38,
     re_statvfs = (\<lambda>p. Some \<lparr>f_blocks = 200, f_frsize = 4096, f_bfree = 50, f_bavail = 40\<rparr>),
     re_statfs = (\<lambda>p. Some 0xEF53), re_thermal_dir = Some [''thermal_zone0'', ''cooling_device0''],
     re_file = (\<lambda>p. None), re_genl = sample_genl\<rparr>"


text \<open>For a file system smaller than 184 PB whose free blocks do not exceed its blocks, the reported
  percentage is the exact quotient rounded down, at most 100.\<close>

theorem storage_percentage_exact:
  assumes "re_statvfs E p = Some sv" and "unat (f_blocks sv) * unat (f_frsize sv) * 100 < 2 ^ 64"
    and "0 < unat (f_blocks sv) * unat (f_frsize sv)" and "f_bfree sv \<le> f_blocks sv"
  shows "\<exists>pct. sm_used_pct (collect_mount E p) = Some pct \<and> unat pct \<le> 100
    \<and> unat pct = (unat (f_blocks sv) - unat (f_bfree sv)) * unat (f_frsize sv) * 100
        div (unat (f_blocks sv) * unat (f_frsize sv))"
proof -
  have "sm_used_pct (collect_mount E p) = sm_used_pct (statvfs_usage sv (storage_mount_default\<lparr>sm_mount := p\<rparr>))"
    using assms(1) by (simp add: collect_mount_def Let_def split: option.splits)
  then show ?thesis using statvfs_pct [OF assms(2-4)] by simp
qed

theorem storage_percentage_exact_witness:
  "\<exists>pct. sm_used_pct (collect_mount sample_resources_env ''/'') = Some pct \<and> unat pct = 75"
proof -
  have "re_statvfs sample_resources_env ''/'' = Some \<lparr>f_blocks = 200, f_frsize = 4096, f_bfree = 50, f_bavail = 40\<rparr>"
    by (simp add: sample_resources_env_def)
  from storage_percentage_exact [OF this] show ?thesis by auto
qed

text \<open>Nothing monitored is hidden: the mounts are reported in the configured order, every mount and
  every sensor carries a value exactly when it is marked available, a temperature lies between
  -40 and 150, and what is unavailable is rated unavailable, never ok.\<close>

theorem resources_report_or_mark:
  "map sm_mount (collect_storage mounts E) = mounts
   \<and> list_all (\<lambda>m. sm_available m = (sm_used_pct m \<noteq> None)
        \<and> (if sm_available m then mount_severity cfg m \<in> {Sev_Ok, Sev_Warn, Sev_Crit}
           else mount_severity cfg m = Sev_Unavailable)) (collect_storage mounts E)
   \<and> list_all (\<lambda>s. ts_available s = (ts_temp_c s \<noteq> None)
        \<and> (case ts_temp_c s of Some t \<Rightarrow> d_le (Fin (- 40)) t \<and> d_le t (Fin 150)
           | None \<Rightarrow> sensor_severity cfg s = Sev_Unavailable)) (collect_thermal E)"
proof -
  have m: "sm_available (collect_mount E p) = (sm_used_pct (collect_mount E p) \<noteq> None)"
      "sm_mount (collect_mount E p) = p" for p
    using collect_mount_marks [of E p] by auto
  have s: "ts_available (collect_sensor E n) = (ts_temp_c (collect_sensor E n) \<noteq> None)
      \<and> (\<forall>t. ts_temp_c (collect_sensor E n) = Some t \<longrightarrow> d_le (Fin (- 40)) t \<and> d_le t (Fin 150))" for n
    using collect_sensor_marks by blast
  have "map sm_mount (collect_storage mounts E) = mounts"
    by (simp add: collect_storage_def comp_def m(2))
  moreover have "list_all (\<lambda>s. ts_available s = (ts_temp_c s \<noteq> None)
        \<and> (case ts_temp_c s of Some t \<Rightarrow> d_le (Fin (- 40)) t \<and> d_le t (Fin 150)
           | None \<Rightarrow> sensor_severity cfg s = Sev_Unavailable)) (collect_thermal E)"
    using s by (auto simp: collect_thermal_def list_all_iff sensor_severity_def split: option.splits)
  moreover have st: "sm_available (collect_mount E p) = (sm_used_pct (collect_mount E p) \<noteq> None)
        \<and> (if sm_available (collect_mount E p) then mount_severity cfg (collect_mount E p) \<in> {Sev_Ok, Sev_Warn, Sev_Crit}
           else mount_severity cfg (collect_mount E p) = Sev_Unavailable)" for p
    using m(1) [of p] by (auto simp: mount_severity_def split: option.splits)
  then have "list_all (\<lambda>m. sm_available m = (sm_used_pct m \<noteq> None)
        \<and> (if sm_available m then mount_severity cfg m \<in> {Sev_Ok, Sev_Warn, Sev_Crit}
           else mount_severity cfg m = Sev_Unavailable)) (collect_storage mounts E)"
    unfolding collect_storage_def list_all_iff set_map by (intro ballI; elim imageE; hypsubst)
  ultimately show ?thesis by (intro conjI)
qed

text \<open>C37: when the exchanges of the ethtool socket end, the probe returns; it fails exactly when neither
  \<^verbatim>\<open>/proc/meminfo\<close> nor \<open>sysinfo\<close> gives the memory, and then it names itself and has an error code
  whenever a call reported one.\<close>

theorem resources_collect_returns:
  assumes "\<forall>r. exchange_ends (ge_reply (re_genl E) r)"
  shows "\<exists>r P'. resources_collect cfg E cache P = Some (r, P')
    \<and> ((\<exists>e. r = Inl e) \<longleftrightarrow> fst (read_meminfo E) = None \<and> re_sysinfo E = None)
    \<and> (\<forall>e. r = Inl e \<longrightarrow> pe_probe e = ''resources'' \<and> (re_sysinfo_errno E \<noteq> 0 \<longrightarrow> pe_code e \<noteq> 0))"
proof -
  obtain links Q' where q: "q_query (re_genl E) (iface_names (rp_interfaces P) (get_all_stats cache)) (rp_ethtool P)
      = Some (links, Q')"
    using query_returns [OF assms] by blast
  obtain m err where rm: "read_meminfo E = (m, err)" by fastforce
  show ?thesis
    by (cases m; cases "re_sysinfo E")
       (simp_all add: resources_collect_def collect_memory_def rm collect_network_def q make_probe_error_def Let_def)
qed

theorem resources_collect_returns_witness:
  "\<exists>r P'. resources_collect config_defaults (sample_resources_env\<lparr>re_meminfo := None\<rparr>) []
     (resources_probe_new config_defaults [] [] 0) = Some (Inl r, P') \<and> pe_code r \<noteq> 0"
proof -
  have "\<forall>r. exchange_ends (ge_reply (re_genl (sample_resources_env\<lparr>re_meminfo := None\<rparr>)) r)"
    by (auto simp: sample_resources_env_def sample_genl_def exchange_ends_def split: genl_request.splits)
  from resources_collect_returns [OF this, of config_defaults "[]" "resources_probe_new config_defaults [] [] 0"]
  show ?thesis by (fastforce simp: read_meminfo_def sample_resources_env_def)
qed

text \<open>C39: the network section lists the configured interfaces in their order, or all but the loopback one;
  an interface with a safe name carries the state, counters and address of the cache entry of
  its name, and a link speed is never zero or the kernel's marker for unknown.\<close>

theorem network_matches_cache:
  assumes "collect_network monitored E cache Q = Some (net, Q')"
    and "distinct (map nl_name (get_all_stats cache))"
  shows "map ni_ifname net = (if monitored = [] then filter (\<lambda>n. n \<noteq> ''lo'') (map nl_name (get_all_stats cache)) else monitored)
    \<and> (\<forall>i\<in>set net. \<forall>st\<in>set (get_all_stats cache). ni_ifname i = nl_name st \<and> is_safe_ifname (nl_name st) \<longrightarrow>
          ni_rx_bytes i = nl_rx_bytes st \<and> ni_tx_bytes i = nl_tx_bytes st \<and> ni_ip i = nl_ipv4_addr st
          \<and> ni_link i = (if nl_running st then Link_Up else Link_Down))
    \<and> (\<forall>i\<in>set net. ni_speed_mbps i \<noteq> Some 0 \<and> ni_speed_mbps i \<noteq> Some SPEED_UNKNOWN)"
proof -
  let ?st = "get_all_stats cache"
  let ?names = "iface_names monitored ?st"
  obtain links where q: "q_query (re_genl E) ?names Q = Some (links, Q')"
    and net: "net = map (collect_iface (nl_by_name ?st) links) ?names"
    using assms(1) by (auto simp: collect_network_def Let_def split: option.splits)
  have links: "\<forall>n i. links n = Some i \<longrightarrow> el_speed_mbps i \<noteq> Some 0 \<and> el_speed_mbps i \<noteq> Some SPEED_UNKNOWN"
    using query_answers_ok [OF q] by (auto simp: answers_ok_def link_ok_def)
  have "ni_speed_mbps (collect_iface (nl_by_name ?st) links n) \<notin> {Some 0, Some SPEED_UNKNOWN}" for n
    using collect_iface_speed [of "nl_by_name ?st" links n] links by fastforce
  moreover have "map ni_ifname net = ?names" by (simp add: net collect_iface_name comp_def)
  moreover have "ni_rx_bytes i = nl_rx_bytes st \<and> ni_tx_bytes i = nl_tx_bytes st \<and> ni_ip i = nl_ipv4_addr st
      \<and> ni_link i = (if nl_running st then Link_Up else Link_Down)"
    if "i \<in> set net" "st \<in> set ?st" "ni_ifname i = nl_name st" "is_safe_ifname (nl_name st)" for i st
    using that collect_iface_cache [of "nl_name st" "nl_by_name ?st" st links] nl_by_name_unique [OF assms(2) that(2)]
    by (auto simp: net collect_iface_name)
  ultimately show ?thesis by (auto simp: net iface_names_def)
qed

definition sample_cache :: nl_cache where
  "sample_cache = [(2, nl_stats_default\<lparr>nl_name := ''eth0'', nl_ifindex := 2, nl_running := True, nl_rx_bytes := 77\<rparr>)]"

theorem network_matches_cache_witness:
  "\<exists>i Q'. collect_network [''eth0''] sample_resources_env sample_cache (querier_new 0) = Some ([i], Q')
     \<and> ni_rx_bytes i = 77 \<and> ni_link i = Link_Up"
proof -
  have ends: "\<forall>r. exchange_ends (ge_reply (re_genl sample_resources_env) r)"
    by (auto simp: sample_resources_env_def sample_genl_def exchange_ends_def split: genl_request.splits)
  obtain links Q' where q: "q_query (re_genl sample_resources_env) [''eth0''] (querier_new 0) = Some (links, Q')"
    using query_returns [OF ends] by blast
  then have run: "collect_network [''eth0''] sample_resources_env sample_cache (querier_new 0)
      = Some ([collect_iface (nl_by_name (get_all_stats sample_cache)) links ''eth0''], Q')"
    by (simp add: collect_network_def iface_names_def Let_def)
  have "is_safe_ifname ''eth0''" by (simp add: is_safe_ifname_def is_alnum_def)
  then show ?thesis
    using network_matches_cache [OF run] run
    by (simp add: sample_cache_def get_all_stats_def collect_iface_name)
qed

end
