(* ===== verification/Utf8.thy ===== *)
theory Utf8
  imports Prelude
begin

text \<open>
  \<open>sanitize_utf8\<close> of \<^verbatim>\<open>src/journal.cpp\<close>.  Well-formed UTF-8 is specified independently
  of the decoder, as the concatenation of the encodings of Unicode scalar values; the sanitiser
  is shown to return such a string for every input and to leave one alone.
\<close>

unbundle bit_operations_syntax

section \<open>The UTF-8 sanitiser\<close>

abbreviation byte :: "char \<Rightarrow> nat" where
  "byte c \<equiv> of_char c"

text \<open>U+FFFD, the bytes EF BF BD.\<close>

definition utf8_replacement :: string where
  "utf8_replacement = [char_of (0xEF :: nat), char_of (0xBF :: nat), char_of (0xBD :: nat)]"

text \<open>The lead byte of a multibyte sequence gives its length, the first bits and the least code point.\<close>

definition utf8_lead :: "nat \<Rightarrow> (nat \<times> u32 \<times> u32) option" where
  "utf8_lead c =
     (if c AND 0xE0 = 0xC0 then Some (2, of_nat (c AND 0x1F), 0x80)
      else if c AND 0xF0 = 0xE0 then Some (3, of_nat (c AND 0x0F), 0x800)
      else if c AND 0xF8 = 0xF0 then Some (4, of_nat (c AND 0x07), 0x10000)
      else None)"

text \<open>The continuation bytes; \<open>None\<close> when one of them is not a continuation byte.\<close>

fun utf8_continue :: "u32 \<Rightarrow> nat list \<Rightarrow> u32 option" where
  "utf8_continue cp [] = Some cp"
| "utf8_continue cp (cc # ccs) =
     (if cc AND 0xC0 \<noteq> 0x80 then None
      else utf8_continue (push_bit 6 cp OR of_nat (cc AND 0x3F)) ccs)"

text \<open>The length of the well-formed sequence at the front, if there is one.\<close>

definition utf8_sequence :: "string \<Rightarrow> nat option" where
  "utf8_sequence s =
     (case s of
        [] \<Rightarrow> None
      | c # cs \<Rightarrow>
          if byte c < 0x80 then Some 1
          else case utf8_lead (byte c) of
            None \<Rightarrow> None
          | Some (seq_len, cp0, min_cp) \<Rightarrow>
              if length s < seq_len then None
              else case utf8_continue cp0 (map byte (take (seq_len - 1) cs)) of
                None \<Rightarrow> None
              | Some cp \<Rightarrow>
                  if cp < min_cp \<or> cp > 0x10FFFF \<or> (cp \<ge> 0xD800 \<and> cp \<le> 0xDFFF) then None
                  else Some seq_len)"

fun sanitize_utf8 :: "string \<Rightarrow> string" where
  "sanitize_utf8 [] = []"
| "sanitize_utf8 (c # cs) =
     (case utf8_sequence (c # cs) of
        None \<Rightarrow> utf8_replacement @ sanitize_utf8 cs
      | Some k \<Rightarrow> take k (c # cs) @ sanitize_utf8 (drop (k - 1) cs))"

section \<open>Bit tests as ranges\<close>

lemma nat_bit_high: "n < (2 :: nat) ^ m \<Longrightarrow> m \<le> k \<Longrightarrow> \<not> bit n k"
  by (metis bit_iff_odd div_less even_zero less_le_trans one_le_numeral power_increasing)

lemma and_high_mask:
  fixes n :: nat
  assumes "n < 2 ^ (a + b)"
  shows "n AND push_bit a (mask b) = 2 ^ a * (n div 2 ^ a)"
proof -
  have "bit n k \<Longrightarrow> k < a + b" for k
    using nat_bit_high [OF assms, of k] by (cases "k < a + b") auto
  then have "n AND push_bit a (mask b) = push_bit a (drop_bit a n)"
    by (intro bit_eqI) (auto simp: bit_simps less_diff_conv2 add.commute)
  then show ?thesis by (simp add: push_bit_eq_mult drop_bit_eq_div mult.commute)
qed

lemma nat_div_iff: "0 < k \<Longrightarrow> n div k = m \<longleftrightarrow> k * m \<le> n \<and> n < k * Suc m" for n :: nat
  by (metis div_nat_eqI less_mult_imp_div_less mult.commute mult_Suc_right
      nat_mult_le_cancel_disj times_div_less_eq_dividend dividend_less_times_div add.commute)

lemma lead_tests:
  assumes "n < (256 :: nat)"
  shows "n AND 0xE0 = 0xC0 \<longleftrightarrow> 192 \<le> n \<and> n < 224"
    and "n AND 0xF0 = 0xE0 \<longleftrightarrow> 224 \<le> n \<and> n < 240"
    and "n AND 0xF8 = 0xF0 \<longleftrightarrow> 240 \<le> n \<and> n < 248"
    and "n AND 0xC0 = 0x80 \<longleftrightarrow> 128 \<le> n \<and> n < 192"
proof -
  have masks: "push_bit 5 (mask 3) = (0xE0 :: nat)" "push_bit 4 (mask 4) = (0xF0 :: nat)"
      "push_bit 3 (mask 5) = (0xF8 :: nat)" "push_bit 6 (mask 2) = (0xC0 :: nat)"
    by (simp_all add: mask_eq_exp_minus_1 push_bit_eq_mult)
  have "n AND 0xE0 = 32 * (n div 32)" "n AND 0xF0 = 16 * (n div 16)" "n AND 0xF8 = 8 * (n div 8)"
      "n AND 0xC0 = 64 * (n div 64)"
    using assms and_high_mask [of n 5 3] and_high_mask [of n 4 4] and_high_mask [of n 3 5]
      and_high_mask [of n 6 2] by (simp_all add: masks)
  then show "n AND 0xE0 = 0xC0 \<longleftrightarrow> 192 \<le> n \<and> n < 224"
    and "n AND 0xF0 = 0xE0 \<longleftrightarrow> 224 \<le> n \<and> n < 240"
    and "n AND 0xF8 = 0xF0 \<longleftrightarrow> 240 \<le> n \<and> n < 248"
    and "n AND 0xC0 = 0x80 \<longleftrightarrow> 128 \<le> n \<and> n < 192"
    using nat_div_iff [of 32 n 6] nat_div_iff [of 16 n 14] nat_div_iff [of 8 n 30]
      nat_div_iff [of 64 n 2] by simp_all
qed

lemma low_bits:
  "n AND 0x1F = n mod (32 :: nat)" "n AND 0xF = n mod (16 :: nat)"
  "n AND 7 = n mod (8 :: nat)" "n AND 0x3F = n mod (64 :: nat)"
  using take_bit_eq_mask [of 5 n] take_bit_eq_mask [of 4 n] take_bit_eq_mask [of 3 n]
    take_bit_eq_mask [of 6 n]
  by (simp_all add: take_bit_eq_mod mask_eq_exp_minus_1)

lemma shift_or_nat: "x < 64 \<Longrightarrow> push_bit 6 a OR x = a * 64 + (x :: nat)"
proof -
  assume x: "x < 64"
  have "push_bit 6 a + x = push_bit 6 a OR x"
    using nat_bit_high [of x 6] x by (intro disjunctive_add) (auto simp: bit_simps not_le)
  then show ?thesis by (simp add: push_bit_eq_mult)
qed

lemma unat_shift_or:
  fixes cp :: u32
  assumes "unat cp < 2 ^ 26" and "x < 64"
  shows "unat (push_bit 6 cp OR of_nat x) = unat cp * 64 + x"
proof -
  have "unat (push_bit 6 cp) = push_bit 6 (unat cp)"
    using assms by (simp only: unsigned_push_bit_eq) (simp add: take_bit_nat_eq_self push_bit_eq_mult)
  moreover have "unat (of_nat x :: u32) = x" using assms by (simp add: unat_of_nat_small)
  ultimately show ?thesis using assms by (simp add: unsigned_or_eq shift_or_nat)
qed

section \<open>Well-formed UTF-8\<close>

definition scalar_value :: "nat \<Rightarrow> bool" where
  "scalar_value cp \<longleftrightarrow> cp \<le> 0x10FFFF \<and> \<not> (0xD800 \<le> cp \<and> cp \<le> 0xDFFF)"

definition utf8_encode :: "nat \<Rightarrow> nat list" where
  "utf8_encode cp =
     (if cp < 0x80 then [cp]
      else if cp < 0x800 then [0xC0 + cp div 64, 0x80 + cp mod 64]
      else if cp < 0x10000 then [0xE0 + cp div 4096, 0x80 + cp div 64 mod 64, 0x80 + cp mod 64]
      else [0xF0 + cp div 262144, 0x80 + cp div 4096 mod 64, 0x80 + cp div 64 mod 64,
            0x80 + cp mod 64])"

definition utf8_text :: "nat list \<Rightarrow> string" where
  "utf8_text cps = map char_of (concat (map utf8_encode cps))"

definition utf8_wf :: "string \<Rightarrow> bool" where
  "utf8_wf s \<longleftrightarrow> (\<exists>cps. (\<forall>cp\<in>set cps. scalar_value cp) \<and> s = utf8_text cps)"

lemma utf8_encode_bytes: "cp \<le> 0x10FFFF \<Longrightarrow> b \<in> set (utf8_encode cp) \<Longrightarrow> b < 256"
  by (auto simp: utf8_encode_def less_mult_imp_div_less split: if_splits)

lemma utf8_wf_Nil: "utf8_wf []"
  by (auto simp: utf8_wf_def utf8_text_def intro: exI [of _ "[]"])

lemma utf8_wf_Cons:
  assumes "scalar_value cp" "utf8_wf s"
  shows "utf8_wf (map char_of (utf8_encode cp) @ s)"
proof -
  obtain cps where "\<forall>cp\<in>set cps. scalar_value cp" "s = utf8_text cps"
    using assms by (auto simp: utf8_wf_def)
  then show ?thesis using assms
    by (auto simp: utf8_wf_def utf8_text_def intro!: exI [of _ "cp # cps"])
qed

text \<open>The sequence test in terms of natural numbers, one case per length.\<close>

abbreviation cont_byte :: "char \<Rightarrow> bool" where
  "cont_byte c \<equiv> 128 \<le> byte c \<and> byte c < 192"

lemma utf8_lead_nat:
  "utf8_lead (byte c) =
     (if 192 \<le> byte c \<and> byte c < 224 then Some (2, of_nat (byte c mod 32), 0x80)
      else if 224 \<le> byte c \<and> byte c < 240 then Some (3, of_nat (byte c mod 16), 0x800)
      else if 240 \<le> byte c \<and> byte c < 248 then Some (4, of_nat (byte c mod 8), 0x10000)
      else None)"
  by (simp add: utf8_lead_def lead_tests low_bits)

lemma utf8_continue_nat:
  "\<forall>c\<in>set cs. cont_byte c \<Longrightarrow> 6 * length cs \<le> 32 \<Longrightarrow> unat cp < 2 ^ (32 - 6 * length cs) \<Longrightarrow>
   \<exists>r. utf8_continue cp (map byte cs) = Some r \<and>
     unat r = foldl (\<lambda>v c. v * 64 + byte c mod 64) (unat cp) cs"
proof (induction cs arbitrary: cp)
  case (Cons c cs)
  let ?k = "32 - 6 * length (c # cs)"
  let ?cp = "push_bit 6 cp OR of_nat (byte c mod 64) :: u32"
  have "(2 :: nat) ^ ?k \<le> 2 ^ 26" by (rule power_increasing) simp_all
  then have small: "unat cp < 2 ^ 26" using Cons.prems(3) by linarith
  have u: "unat ?cp = unat cp * 64 + byte c mod 64"
    by (rule unat_shift_or [OF small]) simp
  have "32 - 6 * length cs = ?k + 6" using Cons.prems(2) by simp
  then have "(2 :: nat) ^ (32 - 6 * length cs) = 2 ^ ?k * 2 ^ 6" by (simp only: power_add)
  then have "(2 :: nat) ^ (32 - 6 * length cs) = 2 ^ ?k * 64" by simp
  note k = this
  have "unat cp + 1 \<le> 2 ^ ?k" using Cons.prems(3) by simp
  then have "(unat cp + 1) * 64 \<le> 2 ^ ?k * 64" by (rule mult_le_mono1)
  moreover have "unat ?cp < (unat cp + 1) * 64" unfolding u by simp
  ultimately have "unat ?cp < 2 ^ (32 - 6 * length cs)" unfolding k by (rule less_le_trans [rotated])
  with Cons.IH [of ?cp] Cons.prems
  obtain r where "utf8_continue ?cp (map byte cs) = Some r"
      "unat r = foldl (\<lambda>v c. v * 64 + byte c mod 64) (unat ?cp) cs" by auto
  moreover have "byte c AND 0xC0 = 0x80" using Cons.prems(1) lead_tests(4) [of "byte c"] by simp
  ultimately show ?case by (simp only: utf8_continue.simps list.map u foldl_Cons low_bits) simp
qed simp

lemma utf8_continue_bad: "\<exists>c\<in>set cs. \<not> cont_byte c \<Longrightarrow> utf8_continue cp (map byte cs) = None"
  by (induction cs arbitrary: cp) (auto simp: lead_tests)

lemma utf8_sequence_multi:
  assumes lead: "utf8_lead (byte c) = Some (k, of_nat n, min_cp)" and high: "128 \<le> byte c"
    and k: "k = Suc (length cs)" and len: "length cs \<le> 3" and n: "n < 32"
  shows "utf8_sequence (c # cs @ r) =
    (let v = foldl (\<lambda>v c. v * 64 + byte c mod 64) n cs in
     if (\<forall>c\<in>set cs. cont_byte c) \<and> unat min_cp \<le> v \<and> scalar_value v then Some k else None)"
proof (cases "\<forall>c\<in>set cs. cont_byte c")
  case True
  have un: "unat (of_nat n :: u32) = n" using n by (simp add: unat_of_nat_small)
  have "(2 :: nat) ^ 5 \<le> 2 ^ (32 - 6 * length cs)" using len by (intro power_increasing) auto
  with n have "unat (of_nat n :: u32) < 2 ^ (32 - 6 * length cs)" by (simp add: un)
  with utf8_continue_nat [OF True, of "of_nat n"] len obtain w
    where "utf8_continue (of_nat n) (map byte cs) = Some w"
      "unat w = foldl (\<lambda>v c. v * 64 + byte c mod 64) n cs" by (auto simp: un)
  with True lead high k show ?thesis
    by (auto simp: utf8_sequence_def scalar_value_def word_less_nat_alt word_le_nat_alt Let_def)
next
  case False
  then have "utf8_continue (of_nat n) (map byte cs) = None" by (intro utf8_continue_bad) blast
  with False lead high k show ?thesis by (auto simp: utf8_sequence_def Let_def)
qed

text \<open>The three multibyte forms, by the bits they carry.\<close>

lemma utf8_sequence_2:
  assumes "192 \<le> byte c" "byte c < 224"
  shows "utf8_sequence (c # c1 # r) =
    (let v = byte c mod 32 * 64 + byte c1 mod 64 in
     if cont_byte c1 \<and> 0x80 \<le> v \<and> scalar_value v then Some 2 else None)"
  using assms utf8_sequence_multi [of c 2 "byte c mod 32" "0x80" "[c1]" r]
  by (simp add: utf8_lead_nat)

lemma utf8_sequence_3:
  assumes "224 \<le> byte c" "byte c < 240"
  shows "utf8_sequence (c # c1 # c2 # r) =
    (let v = (byte c mod 16 * 64 + byte c1 mod 64) * 64 + byte c2 mod 64 in
     if cont_byte c1 \<and> cont_byte c2 \<and> 0x800 \<le> v \<and> scalar_value v then Some 3 else None)"
proof -
  have "byte c mod 16 < 32" by (rule less_trans [of _ 16]) simp_all
  then show ?thesis
    using assms utf8_sequence_multi [of c 3 "byte c mod 16" "0x800" "[c1, c2]" r]
    by (simp add: utf8_lead_nat)
qed

lemma utf8_sequence_4:
  assumes "240 \<le> byte c" "byte c < 248"
  shows "utf8_sequence (c # c1 # c2 # c3 # r) =
    (let v = ((byte c mod 8 * 64 + byte c1 mod 64) * 64 + byte c2 mod 64) * 64 + byte c3 mod 64 in
     if cont_byte c1 \<and> cont_byte c2 \<and> cont_byte c3 \<and> 0x10000 \<le> v \<and> scalar_value v
     then Some 4 else None)"
proof -
  have "byte c mod 8 < 32" by (rule less_trans [of _ 8]) simp_all
  then show ?thesis
    using assms utf8_sequence_multi [of c 4 "byte c mod 8" "0x10000" "[c1, c2, c3]" r]
    by (simp add: utf8_lead_nat)
qed

lemma offset_mod: "k dvd m \<Longrightarrow> a < k \<Longrightarrow> (m + a) mod k = (a :: nat)"
  by (auto simp: dvd_def)

lemma digit64: "b < 64 \<Longrightarrow> (x * 64 + b) div 64 = x" "b < 64 \<Longrightarrow> (x * 64 + b) mod 64 = b" for b :: nat
  by simp_all

lemma div_powers_64: "v div 4096 = v div 64 div 64" "v div 262144 = v div 64 div 64 div 64" for v :: nat
  by (simp_all flip: div_mult2_eq)

lemma cont_byteE:
  assumes "cont_byte c"
  obtains b where "b < 64" "byte c = 128 + b" "byte c mod 64 = b"
proof
  show "byte c - 128 < 64" "byte c = 128 + (byte c - 128)" using assms by linarith+
  then show "byte c mod 64 = byte c - 128" using offset_mod [of 64 128 "byte c - 128"] by simp
qed

lemma utf8_sequence_sound_2:
  assumes "utf8_sequence (c # cs) = Some k" "192 \<le> byte c" "byte c < 224"
  shows "\<exists>cp. scalar_value cp \<and> map byte (take k (c # cs)) = utf8_encode cp"
proof -
  obtain c1 r where cs: "cs = c1 # r"
    using assms by (cases cs) (auto simp: utf8_sequence_def utf8_lead_nat)
  define a where "a = byte c - 192"
  have a: "byte c = 192 + a" "a < 32" using assms(2,3) by (simp_all add: a_def)
  have m: "byte c mod 32 = a" using a offset_mod [of 32 192 a] by simp
  define v where "v = a * 64 + byte c1 mod 64"
  from assms have v: "cont_byte c1" "0x80 \<le> v" "scalar_value v" "k = 2"
    by (auto simp: cs utf8_sequence_2 m v_def Let_def split: if_splits)
  obtain b where b: "b < 64" "byte c1 = 128 + b" "byte c1 mod 64 = b" using v(1) by (rule cont_byteE)
  have "v = a * 64 + b" "v < 0x800" using a b by (simp_all add: v_def)
  then have "utf8_encode v = [byte c, byte c1]" using a b v(2) by (simp add: utf8_encode_def digit64)
  then show ?thesis using v by (auto simp: cs)
qed

lemma utf8_sequence_sound_3:
  assumes "utf8_sequence (c # cs) = Some k" "224 \<le> byte c" "byte c < 240"
  shows "\<exists>cp. scalar_value cp \<and> map byte (take k (c # cs)) = utf8_encode cp"
proof -
  obtain c1 c2 r where cs: "cs = c1 # c2 # r"
    using assms by (cases cs; cases "tl cs") (auto simp: utf8_sequence_def utf8_lead_nat)
  define a where "a = byte c - 224"
  have a: "byte c = 224 + a" "a < 16" using assms(2,3) by (simp_all add: a_def)
  have m: "byte c mod 16 = a" using a offset_mod [of 16 224 a] by simp
  define v where "v = (a * 64 + byte c1 mod 64) * 64 + byte c2 mod 64"
  from assms have v: "cont_byte c1" "cont_byte c2" "0x800 \<le> v" "scalar_value v" "k = 3"
    by (auto simp: cs utf8_sequence_3 m v_def Let_def split: if_splits)
  obtain b1 where b1: "b1 < 64" "byte c1 = 128 + b1" "byte c1 mod 64 = b1" using v(1) by (rule cont_byteE)
  obtain b2 where b2: "b2 < 64" "byte c2 = 128 + b2" "byte c2 mod 64 = b2" using v(2) by (rule cont_byteE)
  have eq: "v = (a * 64 + b1) * 64 + b2" and lt: "v < 0x10000" using a b1 b2 by (simp_all add: v_def)
  have "v div 64 = a * 64 + b1" "v mod 64 = b2" unfolding eq using b2 by (simp_all only: digit64)
  then have "utf8_encode v = [byte c, byte c1, byte c2]"
    using a b1 b2 v(3) lt by (simp add: utf8_encode_def div_powers_64)
  then show ?thesis using v by (auto simp: cs)
qed

lemma utf8_sequence_sound_4:
  assumes "utf8_sequence (c # cs) = Some k" "240 \<le> byte c" "byte c < 248"
  shows "\<exists>cp. scalar_value cp \<and> map byte (take k (c # cs)) = utf8_encode cp"
proof -
  obtain c1 c2 c3 r where cs: "cs = c1 # c2 # c3 # r"
    using assms by (cases cs; cases "tl cs"; cases "tl (tl cs)") (auto simp: utf8_sequence_def utf8_lead_nat)
  define a where "a = byte c - 240"
  have a: "byte c = 240 + a" "a < 8" using assms(2,3) by (simp_all add: a_def)
  have m: "byte c mod 8 = a" using a offset_mod [of 8 240 a] by simp
  define v where "v = ((a * 64 + byte c1 mod 64) * 64 + byte c2 mod 64) * 64 + byte c3 mod 64"
  from assms have v: "cont_byte c1" "cont_byte c2" "cont_byte c3" "0x10000 \<le> v" "scalar_value v" "k = 4"
    by (auto simp: cs utf8_sequence_4 m v_def Let_def split: if_splits)
  obtain b1 where b1: "b1 < 64" "byte c1 = 128 + b1" "byte c1 mod 64 = b1" using v(1) by (rule cont_byteE)
  obtain b2 where b2: "b2 < 64" "byte c2 = 128 + b2" "byte c2 mod 64 = b2" using v(2) by (rule cont_byteE)
  obtain b3 where b3: "b3 < 64" "byte c3 = 128 + b3" "byte c3 mod 64 = b3" using v(3) by (rule cont_byteE)
  have eq: "v = ((a * 64 + b1) * 64 + b2) * 64 + b3" using b1 b2 b3 by (simp only: v_def)
  have "v div 64 = (a * 64 + b1) * 64 + b2" "v mod 64 = b3" unfolding eq using b3 by (simp_all only: digit64)
  moreover have "((a * 64 + b1) * 64 + b2) div 64 = a * 64 + b1" "((a * 64 + b1) * 64 + b2) mod 64 = b2"
    using b2 by (simp_all only: digit64)
  ultimately have "utf8_encode v = [byte c, byte c1, byte c2, byte c3]"
    using a b1 b2 b3 v(4) by (simp add: utf8_encode_def div_powers_64 del: distrib_left_numeral add_mult_distrib distrib_right)
  then show ?thesis using v by (auto simp: cs)
qed

lemma utf8_sequence_sound:
  assumes "utf8_sequence (c # cs) = Some k"
  shows "\<exists>cp. scalar_value cp \<and> map byte (take k (c # cs)) = utf8_encode cp"
proof (cases "byte c < 128")
  case True
  with assms have "k = 1" by (simp add: utf8_sequence_def)
  with True show ?thesis
    by (intro exI [of _ "byte c"]) (simp add: scalar_value_def utf8_encode_def)
next
  case False
  with assms have "192 \<le> byte c" "byte c < 248"
    by (auto simp: utf8_sequence_def utf8_lead_nat split: if_splits)
  then show ?thesis
    using utf8_sequence_sound_2 [OF assms] utf8_sequence_sound_3 [OF assms]
      utf8_sequence_sound_4 [OF assms] by (meson not_le)
qed

text \<open>The other direction, on the base-64 digits of the code point.\<close>

lemma base64_digit: "\<exists>x b. n = x * 64 + b \<and> b < (64 :: nat)"
  by (intro exI [of _ "n div 64"] exI [of _ "n mod 64"]) simp

lemma cont_mod: "b < 64 \<Longrightarrow> (128 + b) mod 64 = (b :: nat)"
  by (rule offset_mod) simp_all

lemma utf8_sequence_complete_2:
  assumes "scalar_value (a * 64 + b)" "0x80 \<le> a * 64 + b" "a < 32" "b < 64"
  shows "utf8_sequence (char_of (192 + a) # char_of (128 + b) # r) = Some 2"
proof -
  have "(192 + a) mod 32 = a" using assms by (intro offset_mod) simp_all
  then show ?thesis using assms by (simp add: utf8_sequence_2 Let_def cont_mod)
qed

lemma utf8_sequence_complete_3:
  assumes "scalar_value ((a * 64 + b1) * 64 + b2)" "0x800 \<le> (a * 64 + b1) * 64 + b2"
    and "a < 16" "b1 < 64" "b2 < 64"
  shows "utf8_sequence (char_of (224 + a) # char_of (128 + b1) # char_of (128 + b2) # r) = Some 3"
proof -
  have "(224 + a) mod 16 = a" using assms by (intro offset_mod) simp_all
  then show ?thesis using assms by (simp add: utf8_sequence_3 Let_def cont_mod)
qed

lemma utf8_sequence_complete_4:
  assumes "scalar_value (((a * 64 + b1) * 64 + b2) * 64 + b3)" "0x10000 \<le> ((a * 64 + b1) * 64 + b2) * 64 + b3"
    and "a < 8" "b1 < 64" "b2 < 64" "b3 < 64"
  shows "utf8_sequence (char_of (240 + a) # char_of (128 + b1) # char_of (128 + b2) #
     char_of (128 + b3) # r) = Some 4"
proof -
  have "(240 + a) mod 8 = a" using assms by (intro offset_mod) simp_all
  then show ?thesis using assms by (simp add: utf8_sequence_4 Let_def cont_mod)
qed

lemma utf8_sequence_complete:
  assumes "scalar_value cp"
  shows "utf8_sequence (map char_of (utf8_encode cp) @ r) = Some (length (utf8_encode cp))"
proof -
  obtain x b3 where x: "cp = x * 64 + b3" "b3 < 64" using base64_digit by blast
  obtain y b2 where y: "x = y * 64 + b2" "b2 < 64" using base64_digit by blast
  obtain a b1 where a: "y = a * 64 + b1" "b1 < 64" using base64_digit by blast
  have d: "cp div 64 = x" "cp mod 64 = b3" "x div 64 = y" "x mod 64 = b2" "y div 64 = a" "y mod 64 = b1"
    using x y a by (simp_all only: digit64)
  have range: "cp < 0x110000" using assms by (simp add: scalar_value_def)
  consider "cp < 0x80" | "0x80 \<le> cp" "cp < 0x800" | "0x800 \<le> cp" "cp < 0x10000" | "0x10000 \<le> cp"
    by linarith
  then show ?thesis
  proof cases
    case 1
    then show ?thesis by (simp add: utf8_encode_def utf8_sequence_def)
  next
    case 2
    then have "utf8_encode cp = [192 + x, 128 + b3]" "x < 32"
      using x by (simp_all add: utf8_encode_def d)
    with utf8_sequence_complete_2 [of x b3 r] assms 2 x show ?thesis by simp
  next
    case 3
    then have "utf8_encode cp = [224 + y, 128 + b2, 128 + b3]"
      by (simp add: utf8_encode_def div_powers_64 d)
    moreover have "y < 16" using 3 x(1) y(1) by simp
    ultimately show ?thesis
      using utf8_sequence_complete_3 [of y b2 b3 r] assms 3 x y by simp
  next
    case 4
    then have "utf8_encode cp = [240 + a, 128 + b1, 128 + b2, 128 + b3]"
      by (simp add: utf8_encode_def div_powers_64 d)
    moreover have "a < 8" using range x(1) y(1) a(1) by simp
    ultimately show ?thesis
      using utf8_sequence_complete_4 [of a b1 b2 b3 r] assms 4 x y a by simp
  qed
qed

section \<open>Correctness of the sanitiser\<close>

lemma replacement_scalar:
  "utf8_replacement = map char_of (utf8_encode 0xFFFD)" "scalar_value 0xFFFD"
  by (simp_all add: utf8_replacement_def utf8_encode_def scalar_value_def)

lemma map_char_of_byte: "map char_of (map byte s) = s"
  by (simp add: map_idI)

lemma utf8_encode_nonempty: "utf8_encode cp \<noteq> []"
  by (simp add: utf8_encode_def)

lemma sanitize_utf8_wf: "utf8_wf (sanitize_utf8 s)"
proof (induction s rule: sanitize_utf8.induct)
  case 1
  then show ?case by (simp add: utf8_wf_Nil)
next
  case (2 c cs)
  show ?case
  proof (cases "utf8_sequence (c # cs)")
    case None
    with 2 show ?thesis
      using utf8_wf_Cons [OF replacement_scalar(2)] by (simp add: replacement_scalar(1))
  next
    case (Some k)
    then obtain cp where cp: "scalar_value cp" "map byte (take k (c # cs)) = utf8_encode cp"
      using utf8_sequence_sound by blast
    then have "take k (c # cs) = map char_of (utf8_encode cp)" by (metis map_char_of_byte)
    with Some 2 utf8_wf_Cons [OF cp(1)] show ?thesis by simp
  qed
qed

lemma sanitize_utf8_encode:
  assumes "scalar_value cp"
  shows "sanitize_utf8 (map char_of (utf8_encode cp) @ r) = map char_of (utf8_encode cp) @ sanitize_utf8 r"
proof -
  obtain c cs where e: "map char_of (utf8_encode cp) = c # (cs :: string)"
    using utf8_encode_nonempty by (cases "utf8_encode cp") auto
  then have "length (utf8_encode cp) = Suc (length cs)" by (metis length_Cons length_map)
  with utf8_sequence_complete [OF assms, of r] show ?thesis by (simp add: e)
qed

lemma sanitize_utf8_id: "utf8_wf s \<Longrightarrow> sanitize_utf8 s = s"
proof -
  assume "utf8_wf s"
  then obtain cps where "\<forall>cp\<in>set cps. scalar_value cp" and s: "s = utf8_text cps"
    by (auto simp: utf8_wf_def)
  then have "sanitize_utf8 (utf8_text cps) = utf8_text cps"
    by (induction cps arbitrary: s) (simp_all add: utf8_text_def sanitize_utf8_encode)
  then show ?thesis by (simp add: s)
qed

section \<open>Properties\<close>

text \<open>C11: whatever bytes the journal holds, the sanitised text is well-formed UTF-8, that is, the
  concatenation of the encodings of Unicode scalar values; text that is well-formed already is
  returned unchanged, so sanitising twice is sanitising once.\<close>

theorem sanitize_utf8_correct:
  "utf8_wf (sanitize_utf8 s) \<and> (utf8_wf s \<longrightarrow> sanitize_utf8 s = s)
   \<and> sanitize_utf8 (sanitize_utf8 s) = sanitize_utf8 s"
  by (simp add: sanitize_utf8_wf sanitize_utf8_id)

theorem sanitize_utf8_correct_witness:
  "sanitize_utf8 ''ok'' = ''ok''"
proof -
  have "utf8_text [111, 107] = ''ok''" by (simp add: utf8_text_def utf8_encode_def char_of_def bit_Suc bit_0)
  moreover have "scalar_value 111" "scalar_value 107" by (simp_all add: scalar_value_def)
  ultimately have "utf8_wf ''ok''"
    unfolding utf8_wf_def by (metis empty_iff empty_set list.set_cases set_ConsD)
  then show ?thesis using sanitize_utf8_correct [of "''ok''"] by blast
qed

end
