(* ===== verification/Journal.thy ===== *)
theory Journal
  imports Config Utf8
begin

text \<open>
  Journal text handling, \<^verbatim>\<open>src/journal.cpp\<close> and \<^verbatim>\<open>inc/journal.hpp\<close>:
  the \<open>JournalEntry\<close> struct and \<open>filter_journal_entries\<close>, which turns entries (newest first) into
  excerpt lines.
\<close>

section \<open>Entries and excerpts\<close>

record journal_entry =
  je_realtime_usec :: u64
  je_priority :: int
  je_message :: string
  je_unit :: string
  je_unit_hint :: string
  je_syslog_id :: string

definition journal_entry_default :: journal_entry where
  "journal_entry_default = \<lparr>je_realtime_usec = 0, je_priority = 6, je_message = '''',
     je_unit = '''', je_unit_hint = '''', je_syslog_id = ''''\<rparr>"

definition matches_unit :: "journal_entry \<Rightarrow> string \<Rightarrow> bool" where
  "matches_unit e name \<longleftrightarrow> je_unit e = name \<or> je_unit_hint e = name \<or> je_syslog_id e = name"

definition trim_message :: "string \<Rightarrow> string" where
  "trim_message m =
     take 512 (trim_back (\<lambda>c. c = CHR 0x0A \<or> c = CHR 0x0D) m)"

text \<open>
  The window test: \<open>now\<close> is the wall clock in microseconds, and the subtraction wraps.
\<close>

definition use_window :: "log_excerpt_cfg \<Rightarrow> bool" where
  "use_window le = (case log_excerpt_window_sec le of None \<Rightarrow> False | Some w \<Rightarrow> w > 0)"

definition window_cutoff :: "log_excerpt_cfg \<Rightarrow> u64 \<Rightarrow> u64" where
  "window_cutoff le now =
     (case log_excerpt_window_sec le of None \<Rightarrow> 0 | Some w \<Rightarrow> if w > 0 then now - w * 1000000 else 0)"

fun filter_loop ::
  "log_excerpt_cfg \<Rightarrow> bool \<Rightarrow> u64 \<Rightarrow> nat \<Rightarrow> journal_entry list \<Rightarrow> string list \<Rightarrow> string list" where
  "filter_loop le win cutoff max_lines [] out = out"
| "filter_loop le win cutoff max_lines (e # es) out =
     (if win \<and> je_realtime_usec e < cutoff then filter_loop le win cutoff max_lines es out
      else if (case log_excerpt_min_priority le of None \<Rightarrow> False | Some p \<Rightarrow> \<not> je_priority e \<le> p)
        then filter_loop le win cutoff max_lines es out
      else
        let msg = trim_message (je_message e); out' = (if msg \<noteq> [] then out @ [msg] else out) in
        if length out' \<ge> max_lines then out' else filter_loop le win cutoff max_lines es out')"

definition filter_journal_entries :: "log_excerpt_cfg \<Rightarrow> u64 \<Rightarrow> journal_entry list \<Rightarrow> string list" where
  "filter_journal_entries le now entries =
     (if entries = [] then []
      else filter_loop le (use_window le) (window_cutoff le now)
        (if log_excerpt_max_lines le \<noteq> 0 then unat (log_excerpt_max_lines le) else 20) entries [])"

section \<open>The filter loop\<close>

definition keep_entry :: "log_excerpt_cfg \<Rightarrow> u64 \<Rightarrow> journal_entry \<Rightarrow> bool" where
  "keep_entry le now e \<longleftrightarrow>
     (use_window le \<longrightarrow> window_cutoff le now \<le> je_realtime_usec e) \<and>
     (case log_excerpt_min_priority le of None \<Rightarrow> True | Some p \<Rightarrow> je_priority e \<le> p)"

definition excerpt_lines :: "log_excerpt_cfg \<Rightarrow> u64 \<Rightarrow> journal_entry list \<Rightarrow> string list" where
  "excerpt_lines le now es =
     filter (\<lambda>l. l \<noteq> []) (map (trim_message \<circ> je_message) (filter (keep_entry le now) es))"

definition max_lines_of :: "log_excerpt_cfg \<Rightarrow> nat" where
  "max_lines_of le = (if log_excerpt_max_lines le \<noteq> 0 then unat (log_excerpt_max_lines le) else 20)"

lemma max_lines_pos: "0 < max_lines_of le"
  by (simp add: max_lines_of_def unat_gt_0)

lemma filter_loop_take:
  "length out < n \<Longrightarrow>
   filter_loop le (use_window le) (window_cutoff le now) n es out = take n (out @ excerpt_lines le now es)"
proof (induction es arbitrary: out)
  case Nil
  then show ?case by (simp add: excerpt_lines_def)
next
  case (Cons e es)
  let ?msg = "trim_message (je_message e)"
  show ?case
  proof (cases "keep_entry le now e")
    case False
    then have "filter_loop le (use_window le) (window_cutoff le now) n (e # es) out =
        filter_loop le (use_window le) (window_cutoff le now) n es out"
      by (auto simp: keep_entry_def not_le split: option.splits)
    then show ?thesis using Cons False by (simp add: excerpt_lines_def)
  next
    case True
    let ?out = "if ?msg \<noteq> [] then out @ [?msg] else out"
    have "filter_loop le (use_window le) (window_cutoff le now) n (e # es) out =
        (if length ?out \<ge> n then ?out else filter_loop le (use_window le) (window_cutoff le now) n es ?out)"
      using True by (auto simp: keep_entry_def not_le not_less Let_def split: option.splits)
    moreover have "out @ excerpt_lines le now (e # es) = ?out @ excerpt_lines le now es"
      using True by (simp add: excerpt_lines_def)
    moreover have "length ?out \<le> n" using Cons.prems by simp
    ultimately show ?thesis using Cons.IH [of ?out] by auto
  qed
qed

lemma filter_journal_entries_eq:
  "filter_journal_entries le now es = take (max_lines_of le) (excerpt_lines le now es)"
  using filter_loop_take [of "[]" "max_lines_of le" le now es] max_lines_pos [of le]
  by (cases "es = []")
     (simp_all add: filter_journal_entries_def excerpt_lines_def max_lines_of_def)

lemma trim_message_length: "length (trim_message m) \<le> 512"
  by (simp add: trim_message_def)

lemma excerpt_lines_rev_mono: "set (excerpt_lines le now (filter P es)) \<subseteq> set (excerpt_lines le now es)"
  by (auto simp: excerpt_lines_def)

text \<open>As long as the window does not reach back before the epoch, the cutoff is the difference.\<close>

lemma window_cutoff_exact:
  assumes "log_excerpt_window_sec le = Some w" and "unat w * 1000000 \<le> unat now"
  shows "unat (window_cutoff le now) = (if w = 0 then 0 else unat now - unat w * 1000000)"
proof -
  have "unat w * 1000000 < 2 ^ 64" using assms(2) unsigned_less [of now, where 'a = nat] by simp
  then have m: "unat (w * 1000000) = unat w * 1000000" by (simp add: unat_word_ariths)
  then have "w * 1000000 \<le> now" using assms(2) by (simp add: word_le_nat_alt)
  then show ?thesis using assms(1) m
    by (simp add: window_cutoff_def word_gt_0 unat_sub)
qed

text \<open>A window that reaches back before the epoch wraps: entries of the present are dropped.\<close>

lemma window_cutoff_wraps:
  assumes "log_excerpt_window_sec le = Some w" and "unat now < unat w * 1000000"
    and "unat w * 1000000 < 2 ^ 64"
  shows "now < window_cutoff le now"
proof -
  have m: "unat (w * 1000000) = unat w * 1000000" using assms(3) by (simp add: unat_word_ariths)
  with assms(2) have less: "now < w * 1000000" by (simp add: word_less_nat_alt)
  have "w \<noteq> 0" using assms(2) by auto
  moreover have "now < now - w * 1000000"
    using less assms(3) m by (simp add: word_less_nat_alt unat_sub_if')
  ultimately show ?thesis using assms(1) by (simp add: window_cutoff_def word_gt_0)
qed

section \<open>Properties\<close>

text \<open>A reporting window that reaches back before the epoch wraps around: every entry stamped at or
  before the present is dropped, where a window that long should drop none.\<close>

theorem long_window_drops_all:
  assumes "log_excerpt_window_sec le = Some w" and "unat now < unat w * 1000000"
    and "unat w * 1000000 < 2 ^ 64" and "\<forall>e\<in>set es. je_realtime_usec e \<le> now"
  shows "filter_journal_entries le now es = []"
proof -
  have "use_window le" using assms(1,2) by (auto simp: use_window_def word_gt_0)
  moreover have "now < window_cutoff le now" by (rule window_cutoff_wraps [OF assms(1-3)])
  ultimately have "\<forall>e\<in>set es. \<not> keep_entry le now e"
    using assms(4) by (auto simp: keep_entry_def not_le intro: le_less_trans)
  then show ?thesis by (simp add: filter_journal_entries_eq excerpt_lines_def filter_empty_conv)
qed

theorem long_window_drops_all_witness:
  "filter_journal_entries (log_excerpt_default\<lparr>log_excerpt_window_sec := Some 3000000000\<rparr>)
     1700000000000000 [journal_entry_default\<lparr>je_realtime_usec := 1600000000000000,
       je_message := ''oom''\<rparr>] = []"
  by (rule long_window_drops_all [where w = 3000000000]) simp_all

end
