(* ===== verification/Journal_Reader.thy ===== *)
theory Journal_Reader
  imports Journal
begin

text \<open>
  The persistent journal reader, \<^verbatim>\<open>src/journal_reader.cpp\<close>: the pure buffer operations
  of \<^verbatim>\<open>journal_detail\<close> and the \<open>JournalReader\<close> class.  The \<^verbatim>\<open>sd_journal\<close> library and
  the steady clock are a parameter, the record \<open>sd_api\<close> over an opaque state of the outside
  world.  The refill loop of \<open>rebuild_from_tail\<close> ends by its deadline only, so it is a partial
  function; that it returns is a theorem about clocks that advance.
\<close>

section \<open>Queries over the buffer\<close>

definition error_priority :: "config \<Rightarrow> int" where
  "error_priority cfg = (case log_excerpt_min_priority (log_excerpt cfg) of None \<Rightarrow> 3 | Some p \<Rightarrow> p)"

definition buffer_cap :: "config \<Rightarrow> nat" where
  "buffer_cap cfg = (let n = journal_buffer_max_entries (log_excerpt cfg) in
     if n \<noteq> 0 then unat n else 1000)"

text \<open>\<open>now\<close> is the reading of the wall clock this call makes.\<close>

definition in_window :: "config \<Rightarrow> u64 \<Rightarrow> journal_entry \<Rightarrow> bool" where
  "in_window cfg now e =
     (case log_excerpt_window_sec (log_excerpt cfg) of
        None \<Rightarrow> True
      | Some w \<Rightarrow> if w = 0 then True else je_realtime_usec e \<ge> now - w * 1000000)"

fun evict_loop :: "nat \<Rightarrow> journal_entry list \<Rightarrow> journal_entry list" where
  "evict_loop cap [] = []"
| "evict_loop cap (e # es) = (if length (e # es) > cap then evict_loop cap es else e # es)"

definition evict :: "config \<Rightarrow> journal_entry list \<Rightarrow> journal_entry list" where
  "evict cfg buffer = evict_loop (buffer_cap cfg) buffer"

text \<open>The loops read the clock once per entry: \<open>clk i\<close> is the reading at position \<open>i\<close>.\<close>

fun error_count_loop :: "config \<Rightarrow> (nat \<Rightarrow> u64) \<Rightarrow> nat \<Rightarrow> journal_entry list \<Rightarrow> u32 \<Rightarrow> u32" where
  "error_count_loop cfg clk i [] n = n"
| "error_count_loop cfg clk i (e # es) n =
     error_count_loop cfg clk (Suc i) es
       (if je_priority e \<le> error_priority cfg \<and> in_window cfg (clk i) e then n + 1 else n)"

definition error_count :: "config \<Rightarrow> (nat \<Rightarrow> u64) \<Rightarrow> journal_entry list \<Rightarrow> u32" where
  "error_count cfg clk buffer = error_count_loop cfg clk 0 buffer 0"

fun severity_loop :: "config \<Rightarrow> (nat \<Rightarrow> u64) \<Rightarrow> nat \<Rightarrow> journal_entry list \<Rightarrow> bool \<Rightarrow> bool \<times> bool" where
  "severity_loop cfg clk i [] warn = (False, warn)"
| "severity_loop cfg clk i (e # es) warn =
     (if \<not> in_window cfg (clk i) e then severity_loop cfg clk (Suc i) es warn
      else if je_priority e \<le> 2 then (True, warn)
      else severity_loop cfg clk (Suc i) es (if je_priority e \<le> 3 then True else warn))"

definition overall_severity :: "config \<Rightarrow> (nat \<Rightarrow> u64) \<Rightarrow> journal_entry list \<Rightarrow> severity" where
  "overall_severity cfg clk buffer =
     (let (crit, warn) = severity_loop cfg clk 0 buffer False in
      if crit then Sev_Crit else if warn then Sev_Warn else Sev_Ok)"

definition recent_errors :: "config \<Rightarrow> u64 \<Rightarrow> journal_entry list \<Rightarrow> string list" where
  "recent_errors cfg now buffer =
     filter_journal_entries (log_excerpt cfg) now
       (filter (\<lambda>e. je_priority e \<le> error_priority cfg) (rev buffer))"

definition excerpt_for_unit :: "config \<Rightarrow> u64 \<Rightarrow> journal_entry list \<Rightarrow> string \<Rightarrow> string list" where
  "excerpt_for_unit cfg now buffer unit =
     filter_journal_entries (log_excerpt cfg) now (filter (\<lambda>e. matches_unit e unit) (rev buffer))"

section \<open>The library\<close>

text \<open>
  One field per function of \<^verbatim>\<open>sd_journal\<close> the reader calls; each acts on the state of the
  outside world.  \<open>sd_open f\<close> with \<open>f = True\<close> opens the system journal, with \<open>f = False\<close> the local one,
  and tells whether a handle was obtained; \<open>sd_data\<close> is the raw field, \<open>None\<close> when absent.
\<close>

record 'w sd_api =
  sd_open :: "bool \<Rightarrow> 'w \<Rightarrow> bool \<times> 'w"
  sd_close :: "'w \<Rightarrow> 'w"
  sd_seek_tail :: "'w \<Rightarrow> int \<times> 'w"
  sd_previous_skip :: "nat \<Rightarrow> 'w \<Rightarrow> int \<times> 'w"
  sd_next :: "'w \<Rightarrow> int \<times> 'w"
  sd_wait :: "'w \<Rightarrow> int \<times> 'w"
  sd_realtime :: "'w \<Rightarrow> u64 option"
  sd_data :: "'w \<Rightarrow> string \<Rightarrow> string option"
  sd_steady :: "'w \<Rightarrow> int \<times> 'w"

section \<open>Reading one entry\<close>

text \<open>\<^verbatim>\<open>std::atoi\<close>: blanks, an optional sign, then digits.\<close>

definition atoi :: "string \<Rightarrow> int" where
  "atoi s = (let t = dropWhile is_space s in
     case t of
       [] \<Rightarrow> 0
     | c # cs \<Rightarrow>
         if c = CHR ''-'' then - int (read_digits 0 (takeWhile is_digit cs))
         else if c = CHR ''+'' then int (read_digits 0 (takeWhile is_digit cs))
         else int (read_digits 0 (takeWhile is_digit t)))"

definition strip_field :: "string \<Rightarrow> string \<Rightarrow> string" where
  "strip_field name d =
     (let pre = length name + 1 in
      if length d > pre \<and> starts_with (name @ ''='') d then drop pre d else d)"

definition read_field :: "'w sd_api \<Rightarrow> 'w \<Rightarrow> string \<Rightarrow> string" where
  "read_field A w name = (case sd_data A w name of None \<Rightarrow> '''' | Some d \<Rightarrow> strip_field name d)"

definition read_current :: "'w sd_api \<Rightarrow> 'w \<Rightarrow> journal_entry" where
  "read_current A w = \<lparr>
     je_realtime_usec = (case sd_realtime A w of None \<Rightarrow> 0 | Some u \<Rightarrow> u),
     je_priority = (case sd_data A w ''PRIORITY'' of
        None \<Rightarrow> 6 | Some d \<Rightarrow> atoi (strip_field ''PRIORITY'' d)),
     je_message = (case sd_data A w ''MESSAGE'' of
        None \<Rightarrow> '''' | Some d \<Rightarrow> sanitize_utf8 (take 1024 (strip_field ''MESSAGE'' d))),
     je_unit = read_field A w ''_SYSTEMD_UNIT'',
     je_unit_hint = read_field A w ''UNIT'',
     je_syslog_id = read_field A w ''SYSLOG_IDENTIFIER''\<rparr>"

section \<open>The reader\<close>

record journal_reader =
  jr_open :: bool
  jr_buffer :: "journal_entry list"

definition journal_reader_new :: journal_reader where
  "journal_reader_new = \<lparr>jr_open = False, jr_buffer = []\<rparr>"

definition max_entries :: "config \<Rightarrow> nat" where
  "max_entries cfg = buffer_cap cfg"

definition push_capped :: "nat \<Rightarrow> journal_entry list \<Rightarrow> journal_entry \<Rightarrow> journal_entry list" where
  "push_capped cap buffer e = (let b = buffer @ [e] in if length b > cap then tl b else b)"

partial_function (option) rebuild_loop ::
  "'w sd_api \<Rightarrow> nat \<Rightarrow> int \<Rightarrow> bool \<Rightarrow> journal_entry list \<Rightarrow> 'w \<Rightarrow> (journal_entry list \<times> 'w) option" where
  "rebuild_loop A cap deadline have_entry buffer w =
     (if \<not> have_entry then Some (buffer, w)
      else if fst (sd_steady A w) \<ge> deadline then Some (buffer, snd (sd_steady A w))
      else let w1 = snd (sd_steady A w) in
        rebuild_loop A cap deadline (fst (sd_next A w1) > 0)
          (push_capped cap buffer (read_current A w1)) (snd (sd_next A w1)))"

definition rebuild_from_tail :: "'w sd_api \<Rightarrow> config \<Rightarrow> journal_reader \<Rightarrow> 'w \<Rightarrow> (journal_reader \<times> 'w) option"
where
  "rebuild_from_tail A cfg r w =
     (if \<not> jr_open r then Some (r, w)
      else
        let r0 = r\<lparr>jr_buffer := []\<rparr>; (seek, w1) = sd_seek_tail A w in
        if seek < 0 then Some (r0, w1)
        else
          let cap = max_entries cfg; (moved, w2) = sd_previous_skip A cap w1;
              (start, w3) = sd_steady A w2;
              deadline = start + journal_scan_timeout (log_excerpt cfg) * 1000000
          in map_option (\<lambda>(b, w'). (r0\<lparr>jr_buffer := b\<rparr>, w'))
               (rebuild_loop A cap deadline (moved > 0) [] w3))"

definition open_and_prime :: "'w sd_api \<Rightarrow> config \<Rightarrow> journal_reader \<Rightarrow> 'w \<Rightarrow>
   (bool \<times> journal_reader \<times> 'w) option" where
  "open_and_prime A cfg r w =
     (let (ok1, w1) = sd_open A True w; (ok, w2) = (if ok1 then (True, w1) else sd_open A False w1) in
      if \<not> ok then Some (False, r\<lparr>jr_open := False\<rparr>, w2)
      else map_option (\<lambda>(r', w'). (True, r'\<lparr>jr_buffer := evict cfg (jr_buffer r')\<rparr>, w'))
             (rebuild_from_tail A cfg (r\<lparr>jr_open := True\<rparr>) w2))"

definition journal_init :: "'w sd_api \<Rightarrow> config \<Rightarrow> journal_reader \<Rightarrow> 'w \<Rightarrow>
   (bool \<times> journal_reader \<times> 'w) option" where
  "journal_init A cfg r w = open_and_prime A cfg r w"

definition close_handle :: "'w sd_api \<Rightarrow> journal_reader \<Rightarrow> 'w \<Rightarrow> journal_reader \<times> 'w" where
  "close_handle A r w = (r\<lparr>jr_open := False\<rparr>, if jr_open r then sd_close A w else w)"

text \<open>
  The catch-up loop; the first argument counts down the budget.  The first result is false
  when the library reported an error.
\<close>

fun ingest_loop :: "'w sd_api \<Rightarrow> nat \<Rightarrow> journal_entry list \<Rightarrow> 'w \<Rightarrow> bool \<times> nat \<times> journal_entry list \<times> 'w"
where
  "ingest_loop A 0 buffer w = (True, 0, buffer, w)"
| "ingest_loop A (Suc n) buffer w =
     (let (r, w1) = sd_next A w in
      if r < 0 then (False, Suc n, buffer, w1)
      else if r = 0 then (True, Suc n, buffer, w1)
      else ingest_loop A n (buffer @ [read_current A w1]) w1)"

definition ingest :: "'w sd_api \<Rightarrow> config \<Rightarrow> journal_reader \<Rightarrow> 'w \<Rightarrow> (journal_reader \<times> 'w) option" where
  "ingest A cfg r w =
     (if \<not> jr_open r then map_option snd (open_and_prime A cfg r w)
      else
        let (wt, w1) = sd_wait A w in
        if wt < 0 then Some (close_handle A r w1)
        else
          let (ok, left, b, w2) = ingest_loop A (2 * max_entries cfg) (jr_buffer r) w1;
              r1 = r\<lparr>jr_buffer := b\<rparr>
          in if \<not> ok then Some (close_handle A r1 w2)
             else map_option (\<lambda>(r', w'). (r'\<lparr>jr_buffer := evict cfg (jr_buffer r')\<rparr>, w'))
                    (if left = 0 then rebuild_from_tail A cfg r1 w2 else Some (r1, w2)))"

section \<open>Bounded buffers\<close>

text \<open>
  The contract of a buffer that keeps the newest \<open>cap\<close> elements: trimming drops from the front.
  Trimming as one goes is then the same as trimming the whole history once.
\<close>

locale bounded_log =
  fixes cap :: nat and trim :: "'a list \<Rightarrow> 'a list"
  assumes trim_eq: "trim xs = drop (length xs - cap) xs"
begin

lemma trim_length: "length (trim xs) = min (length xs) cap"
  by (simp add: trim_eq)

lemma trim_short: "length xs \<le> cap \<Longrightarrow> trim xs = xs"
  by (simp add: trim_eq)

lemma trim_idem: "trim (trim xs) = trim xs"
  by (simp add: trim_short trim_length)

lemma trim_history: "trim (trim xs @ ys) = trim (xs @ ys)"
  by (cases "length xs \<le> cap") (auto simp: trim_eq drop_append add.commute)

lemma trim_suffix: "\<exists>old. xs = old @ trim xs"
  by (metis append_take_drop_id trim_eq)

end

lemma evict_loop_eq: "evict_loop cap xs = drop (length xs - cap) xs"
proof (induction cap xs rule: evict_loop.induct)
  case (2 cap e es)
  then show ?case by (cases "length (e # es) > cap") (auto simp: Suc_diff_le)
qed simp

interpretation jbuf: bounded_log "buffer_cap cfg" "evict cfg" for cfg
  by unfold_locales (simp add: evict_def evict_loop_eq)

interpretation jpush: bounded_log cap "evict_loop cap" for cap
  by unfold_locales (rule evict_loop_eq)

lemma push_capped_evict: "length b \<le> cap \<Longrightarrow> push_capped cap b e = evict_loop cap (b @ [e])"
  by (cases "cap = length b"; cases b) (auto simp: push_capped_def Let_def evict_loop_eq)

lemma push_capped_length: "length b \<le> cap \<Longrightarrow> length (push_capped cap b e) \<le> cap"
  by (simp add: push_capped_evict jpush.trim_length)

section \<open>The refill loop\<close>

text \<open>The loop keeps the buffer within its cap, whatever the library returns.\<close>

lemma rebuild_loop_bound:
  "rebuild_loop A cap d h b w = Some y \<Longrightarrow> length b \<le> cap \<longrightarrow> length (fst y) \<le> cap"
proof (erule rebuild_loop.raw_induct [rotated], goal_cases)
  case (1 loop A cap d h b w y)
  then show ?case by (auto simp: Let_def push_capped_length split: if_splits)
qed

text \<open>
  It returns when the clock advances by a nanosecond or more from one pass to the next.
\<close>

definition clock_advances :: "'w sd_api \<Rightarrow> bool" where
  "clock_advances A \<longleftrightarrow>
     (\<forall>w. fst (sd_steady A w) < fst (sd_steady A (snd (sd_next A (snd (sd_steady A w))))))"

lemma rebuild_loop_returns:
  assumes "clock_advances A"
  shows "rebuild_loop A cap d h b w \<noteq> None"
proof (induction "nat (d - fst (sd_steady A w))" arbitrary: h b w rule: less_induct)
  case less
  let ?w1 = "snd (sd_steady A w)"
  show ?case
  proof (cases "\<not> h \<or> fst (sd_steady A w) \<ge> d")
    case True
    then show ?thesis by (subst rebuild_loop.simps) auto
  next
    case False
    have "fst (sd_steady A w) < fst (sd_steady A (snd (sd_next A ?w1)))"
      using assms by (simp add: clock_advances_def)
    with False have "nat (d - fst (sd_steady A (snd (sd_next A ?w1)))) < nat (d - fst (sd_steady A w))"
      by linarith
    from less [OF this, of "fst (sd_next A ?w1) > 0" "push_capped cap b (read_current A ?w1)"]
    show ?thesis using False by (subst rebuild_loop.simps) (simp add: Let_def)
  qed
qed

section \<open>The reader's operations\<close>

text \<open>
  The cap holds whenever the handle is open.  When \<open>sd_journal_next\<close> fails, the entries read so far
  stay in the buffer and \<open>evict\<close> is not called, so a closed reader may hold up to three times the cap.
\<close>

definition reader_bounded :: "config \<Rightarrow> journal_reader \<Rightarrow> bool" where
  "reader_bounded cfg r \<longleftrightarrow>
     length (jr_buffer r) \<le> (if jr_open r then buffer_cap cfg else 3 * buffer_cap cfg)"

lemma evict_bound: "length (evict cfg b) \<le> buffer_cap cfg"
  by (simp add: jbuf.trim_length)

lemma rebuild_from_tail_open: "rebuild_from_tail A cfg r w = Some (r', w') \<Longrightarrow> jr_open r' = jr_open r"
  by (auto simp: rebuild_from_tail_def Let_def split: if_splits prod.splits)

lemma open_and_prime_bounded:
  assumes "open_and_prime A cfg r w = Some (ok, r', w')" and "reader_bounded cfg r"
  shows "reader_bounded cfg r' \<and> jr_open r' = ok"
  using assms evict_bound
  by (auto simp: open_and_prime_def reader_bounded_def Let_def dest: rebuild_from_tail_open
      split: prod.splits if_splits)

lemma ingest_loop_length:
  "ingest_loop A n b w = (ok, left, b', w') \<Longrightarrow> length b' \<le> length b + n"
  by (induction A n b w rule: ingest_loop.induct) (fastforce split: prod.splits if_splits)+

lemma ingest_bounded:
  assumes "ingest A cfg r w = Some (r', w')" and "reader_bounded cfg r"
  shows "reader_bounded cfg r'"
proof (cases "jr_open r")
  case False
  with assms obtain ok where "open_and_prime A cfg r w = Some (ok, r', w')" by (auto simp: ingest_def)
  from open_and_prime_bounded [OF this assms(2)] show ?thesis ..
next
  case True
  obtain wt w1 where wt: "sd_wait A w = (wt, w1)" by fastforce
  obtain ok left b w2 where loop: "ingest_loop A (2 * max_entries cfg) (jr_buffer r) w1 = (ok, left, b, w2)"
    by (cases "ingest_loop A (2 * max_entries cfg) (jr_buffer r) w1") auto
  have "length b \<le> 3 * buffer_cap cfg"
    using ingest_loop_length [OF loop] True assms(2) by (simp add: reader_bounded_def max_entries_def)
  note b = this
  consider "wt < 0" | "0 \<le> wt" "\<not> ok" | "0 \<le> wt" ok by linarith
  then show ?thesis
  proof cases
    case 1
    with assms True wt show ?thesis by (auto simp: ingest_def close_handle_def reader_bounded_def)
  next
    case 2
    with assms(1) True wt loop b show ?thesis
      by (auto simp: ingest_def close_handle_def reader_bounded_def)
  next
    case 3
    with assms(1) True wt loop have "jr_open r' \<and> (\<exists>b'. jr_buffer r' = evict cfg b')"
      by (auto simp: ingest_def Let_def dest!: rebuild_from_tail_open split: if_splits)
    then show ?thesis by (auto simp: reader_bounded_def evict_bound)
  qed
qed

lemma rebuild_from_tail_returns: "clock_advances A \<Longrightarrow> rebuild_from_tail A cfg r w \<noteq> None"
  unfolding rebuild_from_tail_def Let_def case_prod_beta
  by (simp add: rebuild_loop_returns del: not_None_eq)

lemma open_and_prime_returns: "clock_advances A \<Longrightarrow> open_and_prime A cfg r w \<noteq> None"
  unfolding open_and_prime_def Let_def case_prod_beta
  by (simp add: rebuild_from_tail_returns del: not_None_eq)

lemma ingest_returns: "clock_advances A \<Longrightarrow> ingest A cfg r w \<noteq> None"
  unfolding ingest_def Let_def case_prod_beta
  by (simp add: open_and_prime_returns rebuild_from_tail_returns del: not_None_eq)

text \<open>The entries the catch-up loop reads do not depend on the buffer it appends them to.\<close>

lemma ingest_loop_append:
  "ingest_loop A n (b @ c) w = (case ingest_loop A n c w of (ok, left, es, w') \<Rightarrow> (ok, left, b @ es, w'))"
proof (induction A n c w rule: ingest_loop.induct)
  case (2 A n c w)
  then show ?case by (auto split: prod.splits)
qed simp

lemma ingest_history:
  assumes "jr_open r" and "jr_buffer r = evict cfg hist"
    and "sd_wait A w = (wt, w1)" "0 \<le> wt"
    and "ingest_loop A (2 * max_entries cfg) [] w1 = (True, left, new, w2)" "0 < left"
  shows "ingest A cfg r w = Some (r\<lparr>jr_buffer := evict cfg (hist @ new)\<rparr>, w2)"
  using assms ingest_loop_append [of A "2 * max_entries cfg" "evict cfg hist" "[]" w1]
  by (simp add: ingest_def jbuf.trim_history)

section \<open>Queries\<close>

lemma error_count_loop_eq:
  "error_count_loop cfg clk i es n = n + of_nat (length (filter
     (\<lambda>(k, e). je_priority e \<le> error_priority cfg \<and> in_window cfg (clk k) e) (enumerate i es)))"
  by (induction es arbitrary: i n) simp_all

lemma severity_loop_eq:
  "severity_loop cfg clk i es warn = (c, v) \<Longrightarrow>
     (c \<longleftrightarrow> (\<exists>(k, e)\<in>set (enumerate i es). in_window cfg (clk k) e \<and> je_priority e \<le> 2)) \<and>
     (\<not> c \<longrightarrow> (v \<longleftrightarrow> warn \<or> (\<exists>(k, e)\<in>set (enumerate i es). in_window cfg (clk k) e \<and> je_priority e \<le> 3)))"
proof (induction es arbitrary: i warn)
  case (Cons e es)
  then show ?case
    using Cons.IH [of "Suc i"] by (auto split: if_splits)
qed simp

lemma buffer_cap_pos: "0 < buffer_cap cfg"
  by (simp add: buffer_cap_def Let_def unat_gt_0)

lemma enumerate_nth_ex:
  "(\<exists>(k, e)\<in>set (enumerate 0 es). P k e) \<longleftrightarrow> (\<exists>k<length es. P k (es ! k))"
  by (auto simp: in_set_enumerate_eq)

text \<open>A reader over its life: construction, \<open>init\<close>, then one \<open>ingest\<close> per cycle, in any order.\<close>

inductive reader_run :: "'w sd_api \<Rightarrow> config \<Rightarrow> journal_reader \<Rightarrow> bool" for A cfg where
  run_new: "reader_run A cfg journal_reader_new"
| run_init: "reader_run A cfg r \<Longrightarrow> journal_init A cfg r w = Some (ok, r', w') \<Longrightarrow> reader_run A cfg r'"
| run_ingest: "reader_run A cfg r \<Longrightarrow> ingest A cfg r w = Some (r', w') \<Longrightarrow> reader_run A cfg r'"

lemma reader_run_bounded: "reader_run A cfg r \<Longrightarrow> reader_bounded cfg r"
proof (induction rule: reader_run.induct)
  case run_new
  then show ?case by (simp add: reader_bounded_def journal_reader_new_def)
next
  case (run_init r w ok r' w')
  from open_and_prime_bounded [OF run_init.hyps(2) [unfolded journal_init_def] run_init.IH]
  show ?case ..
next
  case (run_ingest r w r' w')
  from ingest_bounded [OF run_ingest.hyps(2) run_ingest.IH] show ?case .
qed

section \<open>Properties\<close>

text \<open>C16: over its whole life and whatever the journal library returns, the reader holds at most the
  configured number of entries while its handle is open, and at most three times as many after
  a failed read, where the entries of the interrupted catch-up are kept.\<close>

theorem reader_buffer_bounded:
  assumes "reader_run A cfg r"
  shows "length (jr_buffer r) \<le> (if jr_open r then buffer_cap cfg else 3 * buffer_cap cfg)"
  using reader_run_bounded [OF assms] by (simp add: reader_bounded_def)

text \<open>A library over a journal of no entries whose clock ticks once per call.\<close>

definition empty_sd :: "int sd_api" where
  "empty_sd = \<lparr>sd_open = (\<lambda>f w. (True, w)), sd_close = (\<lambda>w. w), sd_seek_tail = (\<lambda>w. (0, w)),
     sd_previous_skip = (\<lambda>n w. (0, w)), sd_next = (\<lambda>w. (0, w)), sd_wait = (\<lambda>w. (0, w)),
     sd_realtime = (\<lambda>w. None), sd_data = (\<lambda>w n. None), sd_steady = (\<lambda>w. (w, w + 1))\<rparr>"

lemma empty_sd_init:
  "journal_init empty_sd cfg r 0 = Some (True, \<lparr>jr_open = True, jr_buffer = []\<rparr>, 1)"
  by (simp add: journal_init_def open_and_prime_def rebuild_from_tail_def empty_sd_def
      rebuild_loop.simps evict_def)

theorem reader_buffer_bounded_witness:
  "length (jr_buffer \<lparr>jr_open = True, jr_buffer = []\<rparr>) \<le> buffer_cap config_defaults"
  using reader_buffer_bounded
    [OF run_init [OF run_new empty_sd_init [of config_defaults]]] by simp

text \<open>C22: with a clock that advances, \<open>init\<close> and \<open>ingest\<close> return: the refill loop, which has no bound of
  its own on the number of entries, ends by its deadline.\<close>

theorem reader_returns:
  assumes "clock_advances A"
  shows "(\<exists>ok r' w'. journal_init A cfg r w = Some (ok, r', w')) \<and> (\<exists>r' w'. ingest A cfg r w = Some (r', w'))"
  using open_and_prime_returns [OF assms, of cfg r w] ingest_returns [OF assms, of cfg r w]
  by (auto simp: journal_init_def)

theorem reader_returns_witness:
  "\<exists>r' w'. ingest empty_sd config_defaults journal_reader_new 0 = Some (r', w')"
  using reader_returns [of empty_sd] by (simp add: clock_advances_def empty_sd_def)



text \<open>The journal severity is crit when an entry in the window has priority 2 or less, otherwise
  warn when one has priority 3, otherwise ok; the error count is the number of entries in the
  window at the configured priority (the buffer being far smaller than the counter's range).\<close>

theorem journal_queries:
  assumes "length b < 2 ^ 32"
  shows "overall_severity cfg clk b =
      (if \<exists>k<length b. in_window cfg (clk k) (b ! k) \<and> je_priority (b ! k) \<le> 2 then Sev_Crit
       else if \<exists>k<length b. in_window cfg (clk k) (b ! k) \<and> je_priority (b ! k) \<le> 3 then Sev_Warn
       else Sev_Ok)
    \<and> unat (error_count cfg clk b) = card {k. k < length b \<and>
        je_priority (b ! k) \<le> error_priority cfg \<and> in_window cfg (clk k) (b ! k)}"
proof
  obtain c v where cv: "severity_loop cfg clk 0 b False = (c, v)" by fastforce
  from severity_loop_eq [OF cv] cv
  show "overall_severity cfg clk b =
      (if \<exists>k<length b. in_window cfg (clk k) (b ! k) \<and> je_priority (b ! k) \<le> 2 then Sev_Crit
       else if \<exists>k<length b. in_window cfg (clk k) (b ! k) \<and> je_priority (b ! k) \<le> 3 then Sev_Warn
       else Sev_Ok)"
    unfolding enumerate_nth_ex by (auto simp: overall_severity_def)
  let ?P = "\<lambda>k e. je_priority e \<le> error_priority cfg \<and> in_window cfg (clk k) e"
  let ?f = "filter (\<lambda>(k, e). ?P k e) (enumerate 0 b)"
  have "distinct (map fst ?f)" by (rule distinct_map_filter_key) simp
  then have "length ?f = card (fst ` set ?f)" using distinct_card [of "map fst ?f"] by simp
  also have "fst ` set ?f = {k. k < length b \<and> ?P k (b ! k)}"
    by (force simp: in_set_enumerate_eq image_iff)
  finally have len: "length ?f = card {k. k < length b \<and> ?P k (b ! k)}" .
  have "length ?f \<le> length b" using length_filter_le [of _ "enumerate 0 b"] by simp
  with assms have "unat (of_nat (length ?f) :: u32) = length ?f" by (intro unat_of_nat_small) simp
  then show "unat (error_count cfg clk b) = card {k. k < length b \<and> ?P k (b ! k)}"
    by (simp add: error_count_def error_count_loop_eq len)
qed

theorem journal_queries_witness:
  "overall_severity config_defaults (\<lambda>_. 0) [journal_entry_default\<lparr>je_priority := 3\<rparr>] = Sev_Warn"
  using journal_queries [of "[journal_entry_default\<lparr>je_priority := 3\<rparr>]" config_defaults "\<lambda>_. 0"]
  by (simp add: in_window_def config_defaults_def log_excerpt_default_def)

text \<open>An excerpt is the first lines, newest first and at most \<open>max_lines\<close>, of the matching messages
  in the window and at the priority, each without trailing line breaks, not empty, and at most
  512 bytes long.\<close>

theorem excerpt_for_unit_lines:
  "excerpt_for_unit cfg now b unit = take (max_lines_of (log_excerpt cfg))
     (filter (\<lambda>l. l \<noteq> []) (map (trim_message \<circ> je_message)
       (filter (\<lambda>e. matches_unit e unit \<and> keep_entry (log_excerpt cfg) now e) (rev b))))
   \<and> length (excerpt_for_unit cfg now b unit) \<le> max_lines_of (log_excerpt cfg)
   \<and> list_all (\<lambda>l. l \<noteq> [] \<and> length l \<le> 512) (excerpt_for_unit cfg now b unit)"
  unfolding excerpt_for_unit_def filter_journal_entries_eq excerpt_lines_def
  by (auto simp: list_all_iff trim_message_length conj_commute dest!: in_set_takeD)

end
