(* ===== verification/Dbus_Probes.thy ===== *)
theory Dbus_Probes
  imports Resources_Probe Journal_Reader
begin

text \<open>
  The probes that ask other services over D-Bus, \<^verbatim>\<open>src/probes_dbus.cpp\<close>, and the update and journal
  probes of \<^verbatim>\<open>src/probes.cpp\<close>: monitored units, time synchronisation and real-time clock, updates
  (RAUC, else a state file), and the journal.  What a call or a property returns is a parameter,
  \<open>Inl\<close> of the message of the error.
\<close>

section \<open>Services\<close>

record unit_bus =
  ub_active :: "string \<Rightarrow> string + string"   \<comment> \<open>\<^verbatim>\<open>GetUnit\<close> and \<^verbatim>\<open>ActiveState\<close>\<close>
  ub_restarts :: "string \<Rightarrow> string + u32"
  ub_result :: "string \<Rightarrow> string + string"

record services_env =
  sv_bus :: "unit_bus option"
  sv_journal :: "journal_entry list option"
  sv_clock :: "string \<Rightarrow> u64"  \<comment> \<open>the clock when the excerpt of a unit is taken\<close>

definition is_safe_unit_name :: "string \<Rightarrow> bool" where
  "is_safe_unit_name name \<longleftrightarrow> name \<noteq> [] \<and>
     list_all (\<lambda>ch. is_alnum ch \<or> ch \<in> {CHR ''.'', CHR ''-'', CHR ''_'', CHR ''@'', CHR '':''}) name"

definition svc_suffix :: string where
  "svc_suffix = ''.service''"

definition socket_of :: "string \<Rightarrow> string option" where
  "socket_of name =
     (if length name > length svc_suffix \<and> drop (length name - length svc_suffix) name = svc_suffix
      then Some (take (length name - length svc_suffix) name @ ''.socket'') else None)"

definition unit_state :: "unit_bus \<Rightarrow> string \<Rightarrow> string \<Rightarrow> service_unit \<Rightarrow> service_unit" where
  "unit_state B name active u =
     (if active = ''active'' then u\<lparr>su_state := Svc_Active\<rparr>
      else if active = ''inactive'' then
        let u1 = u\<lparr>su_state := Svc_Inactive\<rparr> in
        (case socket_of name of
           None \<Rightarrow> u1
         | Some sock \<Rightarrow>
             if ub_active B sock = Inr ''active''
             then u1\<lparr>su_state := Svc_Active, su_result := Some ''socket-activated''\<rparr> else u1)
      else if active = ''failed'' then u\<lparr>su_state := Svc_Failed\<rparr>
      else if active = ''activating'' then u\<lparr>su_state := Svc_Activating\<rparr>
      else if active = ''deactivating'' then u\<lparr>su_state := Svc_Deactivating\<rparr>
      else u)"

definition query_unit :: "config \<Rightarrow> services_env \<Rightarrow> unit_bus \<Rightarrow> string \<Rightarrow> service_unit" where
  "query_unit cfg E B name =
     (let u = service_unit_default\<lparr>su_name := name, su_state := Svc_Unknown, su_restart_count := 0\<rparr> in
      if \<not> is_safe_unit_name name then u\<lparr>su_detail := Some ''Invalid unit name''\<rparr>
      else case ub_active B name of
        Inl err \<Rightarrow> u\<lparr>su_detail := Some err\<rparr>
      | Inr active \<Rightarrow>
          let u1 = unit_state B name active u;
              u2 = u1\<lparr>su_restart_count := (case ub_restarts B name of Inr n \<Rightarrow> n | Inl _ \<Rightarrow> 0)\<rparr>;
              u3 = (case ub_result B name of Inr r \<Rightarrow> u2\<lparr>su_result := Some r\<rparr> | Inl _ \<Rightarrow> u2)
          in case sv_journal E of
               Some buffer \<Rightarrow> u3\<lparr>su_log_excerpt := excerpt_for_unit cfg (sv_clock E name) buffer name\<rparr>
             | None \<Rightarrow> u3)"

definition evaluate_unit_severity :: "config \<Rightarrow> service_unit \<Rightarrow> severity" where
  "evaluate_unit_severity cfg u =
     (if su_state u = Svc_Failed then Sev_Crit
      else if su_restart_count u \<ge> service_restart_crit (cfg_thresholds cfg) then Sev_Crit
      else if su_restart_count u \<ge> service_restart_warn (cfg_thresholds cfg) then Sev_Warn
      else if su_state u = Svc_Inactive then Sev_Warn
      else if su_state u = Svc_Active then Sev_Ok
      else Sev_Unknown)"

definition monitored_units :: "config \<Rightarrow> string list \<Rightarrow> string list" where
  "monitored_units cfg units = (if units = [] then monitored_services cfg else units)"

fun services_loop :: "config \<Rightarrow> services_env \<Rightarrow> unit_bus \<Rightarrow> string list \<Rightarrow> services_status \<Rightarrow> services_status" where
  "services_loop cfg E B [] st = st"
| "services_loop cfg E B (n # ns) st =
     (let u0 = query_unit cfg E B n; u = u0\<lparr>su_severity := evaluate_unit_severity cfg u0\<rparr>;
          overall = (if su_severity u = Sev_Crit then Sev_Crit
                     else if su_severity u = Sev_Warn \<and> services_overall st \<noteq> Sev_Crit then Sev_Warn
                     else services_overall st)
      in services_loop cfg E B ns (st\<lparr>services_overall := overall, services_units := services_units st @ [u]\<rparr>))"

definition unavailable_unit :: "string \<Rightarrow> service_unit" where
  "unavailable_unit n = service_unit_default\<lparr>su_name := n, su_state := Svc_Unknown,
     su_severity := Sev_Unknown, su_detail := Some ''D-Bus unavailable''\<rparr>"

definition services_collect :: "config \<Rightarrow> services_env \<Rightarrow> string list \<Rightarrow> services_status probe_result" where
  "services_collect cfg E units =
     (let st = services_status_default\<lparr>services_overall := Sev_Ok\<rparr> in
      case sv_bus E of
        None \<Rightarrow> Inr (st\<lparr>services_units := map unavailable_unit units, services_overall := Sev_Unknown\<rparr>)
      | Some B \<Rightarrow> Inr (services_loop cfg E B units st))"

section \<open>Time\<close>

record time_env =
  te_ntp :: "(bool \<times> bool) option"  \<comment> \<open>\<^verbatim>\<open>NTP\<close> and \<^verbatim>\<open>NTPSynchronized\<close>; \<open>None\<close>: no bus or an error\<close>
  te_now :: time_point
  te_rtc_file :: "string \<Rightarrow> string option"  \<comment> \<open>files under the directory of the clock\<close>

definition collect_ntp :: "time_env \<Rightarrow> ntp_status" where
  "collect_ntp E =
     (case te_ntp E of
        None \<Rightarrow> ntp_status_default
      | Some (enabled, synced) \<Rightarrow>
          let n = ntp_status_default\<lparr>ntp_enabled := enabled\<rparr> in
          if synced then n\<lparr>ntp_state := Some Sync_Locked, ntp_last_sync_at := Some (te_now E)\<rparr>
          else if enabled then n\<lparr>ntp_state := Some Sync_FreeRunning\<rparr> else n)"

definition collect_rtc :: "time_env \<Rightarrow> rtc_status" where
  "collect_rtc E =
     (let r = rtc_status_default\<lparr>rtc_enabled := True\<rparr>;
          r1 = (case Option.bind (te_rtc_file E ''hctosys'') scan_int of
                  Some v \<Rightarrow> r\<lparr>rtc_hctosys := (v = 1)\<rparr> | None \<Rightarrow> r);
          r2 = (case Option.bind (te_rtc_file E ''battery_voltage'') scan_u64 of
                  Some uv \<Rightarrow> r1\<lparr>rtc_voltage_mv := Some (ucast (uv div 1000))\<rparr> | None \<Rightarrow> r1)
      in case Option.bind (te_rtc_file E ''since_epoch'') scan_u64 of
           Some e \<Rightarrow> r2\<lparr>rtc_drift_sec := Some (to_time_t (te_now E) - sint e)\<rparr> | None \<Rightarrow> r2)"

definition evaluate_sync_severity :: "config \<Rightarrow> time_sync_status \<Rightarrow> severity" where
  "evaluate_sync_severity cfg st =
     (let sev = (if enable_ntp cfg \<and> (time_sync_source st = Src_None
                     \<or> (time_sync_source st = Src_Ntp \<and> ntp_state (ts_ntp st) \<noteq> Some Sync_Locked))
                 then Sev_Warn else Sev_Ok)
      in case (if enable_rtc cfg then rtc_voltage_mv (ts_rtc st) else None) of
           None \<Rightarrow> sev
         | Some v \<Rightarrow>
             if v < rtc_voltage_crit_mv (cfg_thresholds cfg) then Sev_Crit
             else if v < rtc_voltage_warn_mv (cfg_thresholds cfg) \<and> sev = Sev_Ok then Sev_Warn
             else sev)"

definition time_sync_collect :: "config \<Rightarrow> time_env \<Rightarrow> time_sync_status probe_result" where
  "time_sync_collect cfg E =
     (let st = time_sync_status_default\<lparr>time_sync_source := Src_None\<rparr>;
          st1 = (if enable_ntp cfg then
                   let n = collect_ntp E in
                   st\<lparr>ts_ntp := n, time_sync_source :=
                     (if ntp_enabled n \<and> ntp_state n = Some Sync_Locked then Src_Ntp else time_sync_source st)\<rparr>
                 else st);
          st2 = st1\<lparr>ts_ptp := (ts_ptp st1)\<lparr>ptp_enabled := enable_ptp cfg\<rparr>\<rparr>;
          st3 = (if enable_rtc cfg then st2\<lparr>ts_rtc := collect_rtc E\<rparr> else st2)
      in Inr (st3\<lparr>time_sync_overall := evaluate_sync_severity cfg st3\<rparr>))"

section \<open>Updates\<close>

datatype dbus_variant = V_String string | V_Other

type_synonym slot_props = "(string \<times> dbus_variant) list"

definition prop_str :: "slot_props \<Rightarrow> string \<Rightarrow> string" where
  "prop_str props key = (case map_of props key of Some (V_String s) \<Rightarrow> s | _ \<Rightarrow> [])"

definition update_id :: "string \<Rightarrow> string \<Rightarrow> string \<Rightarrow> string" where
  "update_id version build dflt =
     (if version \<noteq> [] \<and> build \<noteq> [] then version @ ''/'' @ build
      else if build \<noteq> [] then build
      else if version \<noteq> [] then version
      else dflt)"

definition rauc_update :: "slot_props \<Rightarrow> update_status \<Rightarrow> update_status" where
  "rauc_update props st =
     (let bootname = prop_str props ''bootname'';
          st1 = (if bootname \<noteq> [] then st\<lparr>active_slot := Some bootname\<rparr> else st);
          u = last_update_default\<lparr>
            lu_id := update_id (prop_str props ''bundle.version'') (prop_str props ''bundle.build'') (lu_id last_update_default),
            lu_installed_at := parse_time (prop_str props ''activated.timestamp'')\<rparr>;
          boot = prop_str props ''boot-status''; slot = prop_str props ''status''
      in if boot = ''good'' \<and> slot = ''ok'' then
           let compatible = prop_str props ''bundle.compatible'';
               u1 = u\<lparr>lu_result := Upd_Success\<rparr>
           in st1\<lparr>last_update := Some (if compatible \<noteq> [] then u1\<lparr>lu_detail := Some compatible\<rparr> else u1)\<rparr>
         else st1\<lparr>update_overall := Sev_Warn, last_update := Some (u\<lparr>lu_result := Upd_Failed,
           lu_detail := Some (''boot-status='' @ boot @ '' status='' @ slot)\<rparr>)\<rparr>)"

text \<open>\<open>slots\<close>: the reply of RAUC, \<open>None\<close> without a bus or on an error.\<close>

definition collect_rauc_update :: "(string \<times> slot_props) list option \<Rightarrow> update_status \<Rightarrow> bool \<times> update_status" where
  "collect_rauc_update slots st =
     (case slots of
        None \<Rightarrow> (False, st)
      | Some ss \<Rightarrow>
          (case find (\<lambda>(name, props). prop_str props ''state'' = ''booted'') ss of
             None \<Rightarrow> (False, st)
           | Some (name, props) \<Rightarrow> (True, rauc_update props st)))"

definition load_installed_at :: "json_lib \<Rightarrow> json \<Rightarrow> last_update_info \<Rightarrow> string + last_update_info" where
  "load_installed_at J j = jfield j ''installed_at'' (get_string J) (\<lambda>s u. u\<lparr>lu_installed_at := parse_time s\<rparr>)"

definition load_result :: "json_lib \<Rightarrow> json \<Rightarrow> last_update_info \<Rightarrow> string + last_update_info" where
  "load_result J j = jfield j ''result'' (get_string J) (\<lambda>s u.
     if s = ''success'' then u\<lparr>lu_result := Upd_Success\<rparr>
     else if s = ''failed'' then u\<lparr>lu_result := Upd_Failed\<rparr> else u)"

definition load_last_update :: "json_lib \<Rightarrow> string option \<Rightarrow> last_update_info option" where
  "load_last_update J file =
     (case file of
        None \<Rightarrow> None
      | Some content \<Rightarrow>
          (case jl_parse J False content of
             Inl _ \<Rightarrow> None
           | Inr j \<Rightarrow>
               (case run_steps
                  [jfield j ''id'' (get_string J) (\<lambda>s u. u\<lparr>lu_id := s\<rparr>),
                   load_installed_at J j, load_result J j,
                   jfield j ''detail'' (get_string J) (\<lambda>s u. u\<lparr>lu_detail := Some s\<rparr>)] last_update_default of
                  Inl _ \<Rightarrow> None | Inr u \<Rightarrow> Some u)))"

definition update_collect ::
  "json_lib \<Rightarrow> config \<Rightarrow> (string \<times> slot_props) list option \<Rightarrow> string option \<Rightarrow> update_status probe_result" where
  "update_collect J cfg slots file =
     (let st = update_status_default\<lparr>update_overall := Sev_Ok\<rparr> in
      if \<not> enable_update_tracking cfg then Inr st
      else case collect_rauc_update slots st of
        (True, st') \<Rightarrow> Inr st'
      | (False, st') \<Rightarrow>
          let st'' = st'\<lparr>last_update := load_last_update J file\<rparr> in
          Inr (case last_update st'' of
                 None \<Rightarrow> st''\<lparr>update_overall := Sev_Unknown\<rparr>
               | Some u \<Rightarrow> if lu_result u = Upd_Failed then st''\<lparr>update_overall := Sev_Warn\<rparr> else st''))"

section \<open>Journal\<close>

definition journal_collect :: "config \<Rightarrow> (nat \<Rightarrow> u64) \<Rightarrow> (nat \<Rightarrow> u64) \<Rightarrow> u64 \<Rightarrow> journal_entry list option \<Rightarrow> journal_status probe_result" where
  "journal_collect cfg clk1 clk2 now buffer =
     (let st = journal_status_default\<lparr>journal_overall := Sev_Ok\<rparr> in
      Inr (case buffer of
             None \<Rightarrow> st
           | Some b \<Rightarrow> st\<lparr>journal_overall := overall_severity cfg clk1 b, journal_error_count := error_count cfg clk2 b,
               journal_recent_errors := recent_errors cfg now b\<rparr>))"

section \<open>Overall ratings\<close>

definition unit_report :: "config \<Rightarrow> services_env \<Rightarrow> unit_bus \<Rightarrow> string \<Rightarrow> service_unit" where
  "unit_report cfg E B n =
     (let u = query_unit cfg E B n in u\<lparr>su_severity := evaluate_unit_severity cfg u\<rparr>)"

lemma evaluate_unit_range: "evaluate_unit_severity cfg u \<in> {Sev_Ok, Sev_Warn, Sev_Crit, Sev_Unknown}"
  by (auto simp: evaluate_unit_severity_def)

lemma unit_report_range: "su_severity (unit_report cfg E B n) \<in> {Sev_Ok, Sev_Warn, Sev_Crit, Sev_Unknown}"
  using evaluate_unit_range by (simp add: unit_report_def Let_def)

lemma overall_step_max:
  assumes "w \<in> {Sev_Ok, Sev_Warn, Sev_Crit}" and "s \<in> {Sev_Ok, Sev_Warn, Sev_Crit, Sev_Unknown}"
  shows "(if s = Sev_Crit then Sev_Crit else if s = Sev_Warn \<and> w \<noteq> Sev_Crit then Sev_Warn else w) = max w s"
  using assms by (auto simp: max_def severity_order_simps)

lemma max_range:
  assumes "w \<in> {Sev_Ok, Sev_Warn, Sev_Crit}" and "s \<in> {Sev_Ok, Sev_Warn, Sev_Crit, Sev_Unknown}"
  shows "max w s \<in> {Sev_Ok, Sev_Warn, Sev_Crit}"
  using assms by (auto simp: max_def severity_order_simps)

lemma services_loop_eq:
  assumes "services_overall st \<in> {Sev_Ok, Sev_Warn, Sev_Crit}"
  shows "services_loop cfg E B ns st = st\<lparr>
     services_overall := fold max (map su_severity (map (unit_report cfg E B) ns)) (services_overall st),
     services_units := services_units st @ map (unit_report cfg E B) ns\<rparr>"
  using assms
proof (induction ns arbitrary: st)
  case (Cons n ns)
  let ?u = "unit_report cfg E B n"
  let ?st = "st\<lparr>services_overall := max (services_overall st) (su_severity ?u), services_units := services_units st @ [?u]\<rparr>"
  have "services_loop cfg E B (n # ns) st = services_loop cfg E B ns (st\<lparr>
      services_overall := (if su_severity ?u = Sev_Crit then Sev_Crit
        else if su_severity ?u = Sev_Warn \<and> services_overall st \<noteq> Sev_Crit then Sev_Warn
        else services_overall st), services_units := services_units st @ [?u]\<rparr>)"
    by (simp only: services_loop.simps Let_def unit_report_def)
  then have "services_loop cfg E B (n # ns) st = services_loop cfg E B ns ?st"
    by (simp only: overall_step_max [OF Cons.prems unit_report_range [of cfg E B n]])
  moreover have "services_overall ?st \<in> {Sev_Ok, Sev_Warn, Sev_Crit}"
    using max_range [OF Cons.prems unit_report_range [of cfg E B n]] by simp
  ultimately show ?case using Cons.IH [of ?st] by (simp add: max.commute del: services_loop.simps)
qed simp

lemma query_unit_name: "su_name (query_unit cfg E B n) = n"
  by (auto simp: query_unit_def unit_state_def Let_def split: sum.splits option.splits)

lemma ntp_part: "time_sync_source st = (if enable_ntp cfg \<and> te_ntp E = Some (True, True) then Src_Ntp else Src_None) \<Longrightarrow>
    (enable_ntp cfg \<longrightarrow> ts_ntp st = collect_ntp E) \<Longrightarrow>
    (enable_ntp cfg \<and> (time_sync_source st = Src_None \<or> (time_sync_source st = Src_Ntp \<and> ntp_state (ts_ntp st) \<noteq> Some Sync_Locked)))
      = (enable_ntp cfg \<and> te_ntp E \<noteq> Some (True, True))"
  by (auto simp: collect_ntp_def)

lemma ntp_locked: "ntp_enabled (collect_ntp E) \<and> ntp_state (collect_ntp E) = Some Sync_Locked \<longleftrightarrow> te_ntp E = Some (True, True)"
  by (auto simp: collect_ntp_def ntp_status_default_def Let_def split: option.splits)

definition rtc_severity :: "config \<Rightarrow> u32 option \<Rightarrow> severity" where
  "rtc_severity cfg mv =
     (case mv of
        None \<Rightarrow> Sev_Ok
      | Some v \<Rightarrow> if v < rtc_voltage_crit_mv (cfg_thresholds cfg) then Sev_Crit
                  else if v < rtc_voltage_warn_mv (cfg_thresholds cfg) then Sev_Warn else Sev_Ok)"

lemma evaluate_sync_max:
  assumes "time_sync_source st = (if enable_ntp cfg \<and> te_ntp E = Some (True, True) then Src_Ntp else Src_None)"
    and "enable_ntp cfg \<longrightarrow> ts_ntp st = collect_ntp E"
  shows "evaluate_sync_severity cfg st = max
      (if enable_ntp cfg \<and> te_ntp E \<noteq> Some (True, True) then Sev_Warn else Sev_Ok)
      (rtc_severity cfg (if enable_rtc cfg then rtc_voltage_mv (ts_rtc st) else None))"
  unfolding evaluate_sync_severity_def ntp_part [OF assms] Let_def
  by (cases "if enable_rtc cfg then rtc_voltage_mv (ts_rtc st) else None")
     (simp_all add: rtc_severity_def max_def severity_order_simps)

definition sample_services_env :: services_env where
  "sample_services_env = \<lparr>sv_bus = Some \<lparr>ub_active = (\<lambda>n. if n = ''b.service'' then Inr ''failed'' else Inr ''active''),
     ub_restarts = (\<lambda>_. Inr 0), ub_result = (\<lambda>_. Inr ''success'')\<rparr>, sv_journal = None, sv_clock = (\<lambda>_. 0)\<rparr>"

section \<open>Properties\<close>



text \<open>The time section is rated by the worse of two independent checks: a warning when synchronisation is
  wanted and the clock is not locked, and the battery of the real-time clock against its
  thresholds.\<close>

theorem time_sync_overall_is_max:
  "\<exists>st. time_sync_collect cfg E = Inr st \<and>
    time_sync_overall st = max
      (if enable_ntp cfg \<and> te_ntp E \<noteq> Some (True, True) then Sev_Warn else Sev_Ok)
      (case (if enable_rtc cfg then rtc_voltage_mv (collect_rtc E) else None) of
         None \<Rightarrow> Sev_Ok
       | Some v \<Rightarrow> if v < rtc_voltage_crit_mv (cfg_thresholds cfg) then Sev_Crit
                   else if v < rtc_voltage_warn_mv (cfg_thresholds cfg) then Sev_Warn else Sev_Ok)"
  unfolding rtc_severity_def [symmetric] time_sync_collect_def Let_def
  by (simp add: time_sync_status_default_def ntp_locked evaluate_sync_max [of _ cfg E])

text \<open>The update section is unknown exactly when neither RAUC nor the state file tells of an update,
  and a warning exactly when the last update failed; RAUC's answer wins over the file.\<close>

theorem update_overall_cases:
  assumes "enable_update_tracking cfg"
  shows "\<exists>st. update_collect J cfg slots c = Inr st
    \<and> (update_overall st = Sev_Unknown \<longleftrightarrow> last_update st = None)
    \<and> (update_overall st = Sev_Warn \<longleftrightarrow> (\<exists>u. last_update st = Some u \<and> lu_result u = Upd_Failed))
    \<and> update_overall st \<in> {Sev_Ok, Sev_Warn, Sev_Unknown}
    \<and> (\<not> fst (collect_rauc_update slots st) \<longrightarrow> last_update st = load_last_update J c \<and> active_slot st = None)"
  using assms
  by (auto simp: update_collect_def collect_rauc_update_def rauc_update_def update_status_default_def Let_def
      split: option.splits prod.splits if_splits)

theorem update_overall_cases_witness:
  "\<exists>st. update_collect sample_json_lib config_defaults None None = Inr st \<and> update_overall st = Sev_Unknown"
proof -
  have on: "enable_update_tracking config_defaults" by (simp add: config_defaults_def)
  from update_overall_cases [OF on, of sample_json_lib None None]
  show ?thesis by (auto simp: collect_rauc_update_def load_last_update_def)
qed

text \<open>A socket-activated service is reported active, but the note about it is overwritten when the
  service has a result.\<close>

lemma socket_activated_unit:
  assumes "is_safe_unit_name n" "socket_of n = Some sock" "ub_active B n = Inr ''inactive''"
    and "ub_active B sock = Inr ''active''" "ub_result B n = Inr r"
  shows "su_state (query_unit cfg E B n) = Svc_Active \<and> su_result (query_unit cfg E B n) = Some r"
  using assms by (simp add: query_unit_def unit_state_def Let_def split: option.splits)

end
