(* ===== verification/Crash_Probe.thy ===== *)
theory Crash_Probe
  imports Probe_Base Aggregator
begin

text \<open>
  The crash probe of \<^verbatim>\<open>src/probes.cpp\<close>: the records of \<^verbatim>\<open>systemd-pstore\<close>, their classification, the
  fingerprint of the kernel panics and whether it was acknowledged.
\<close>

unbundle bit_operations_syntax

section \<open>Fingerprint\<close>

text \<open>\<^verbatim>\<open>tp - file_clock::now() + system_clock::now()\<close>, with the two readings as arguments.\<close>

definition file_time_to_system_clock :: "int \<Rightarrow> int \<Rightarrow> int \<Rightarrow> time_point" where
  "file_time_to_system_clock tp file_now sys_now = tp - file_now + sys_now"

fun hex_digits :: "nat \<Rightarrow> nat \<Rightarrow> string" where
  "hex_digits 0 n = []"
| "hex_digits (Suc k) n = hex_digits k (n div 16) @ [digit_char (n mod 16)]"

definition to_hex_u64 :: "u64 \<Rightarrow> string" where
  "to_hex_u64 v = hex_digits 16 (unat v)"

definition is_panic_artifact_name :: "string \<Rightarrow> bool" where
  "is_panic_artifact_name name \<longleftrightarrow> starts_with ''dmesg-'' name \<or> starts_with ''dump-'' name"

definition fnv_offset :: u64 where
  "fnv_offset = 14695981039346656037"

definition fnv_prime :: u64 where
  "fnv_prime = 1099511628211"

definition fnv_step :: "char \<Rightarrow> u64 \<Rightarrow> u64" where
  "fnv_step ch hash = (hash XOR of_nat (of_char ch)) * fnv_prime"

definition artifact_line :: "crash_artifact \<Rightarrow> string" where
  "artifact_line a = ca_name a @ '':'' @ show_nat (unat (ca_size_bytes a)) @ '':'' @
     (case ca_mtime a of Some t \<Rightarrow> show_int (to_time_t t) | None \<Rightarrow> [])"

definition compute_fingerprint :: "crash_artifact list \<Rightarrow> string" where
  "compute_fingerprint artifacts =
     to_hex_u64 (fold (\<lambda>a hash. fold fnv_step (artifact_line a) hash) artifacts fnv_offset)"

section \<open>Collecting\<close>

record pstore_entry =
  pe_name :: string
  pe_regular :: "bool option"  \<comment> \<open>\<open>None\<close>: the call failed\<close>
  pe_size :: "u64 option"
  pe_mtime :: "int option"
  pe_file_now :: int
  pe_sys_now :: int

record crash_env =
  cr_now :: time_point
  cr_uptime :: "seconds option"
  cr_exists :: bool
  cr_entries :: "pstore_entry list"
  cr_state :: "string option"  \<comment> \<open>the content of \<^verbatim>\<open>crash_state.json\<close>\<close>

definition boot_start :: "crash_env \<Rightarrow> time_point" where
  "boot_start E = (case cr_uptime E of Some t \<Rightarrow> cr_now E - t * ns_per_sec | None \<Rightarrow> cr_now E)"

definition entry_artifact :: "pstore_entry \<Rightarrow> crash_artifact" where
  "entry_artifact e = \<lparr>ca_name = pe_name e,
     ca_size_bytes = (case pe_size e of Some n \<Rightarrow> n | None \<Rightarrow> 0),
     ca_mtime = map_option (\<lambda>t. file_time_to_system_clock t (pe_file_now e) (pe_sys_now e)) (pe_mtime e),
     ca_kind = (if is_panic_artifact_name (pe_name e) then ''panic'' else ''informational'')\<rparr>"

text \<open>The first argument is the error code the loop carries from one entry to the next.\<close>

fun read_entries :: "bool \<Rightarrow> pstore_entry list \<Rightarrow> crash_artifact list" where
  "read_entries ec [] = []"
| "read_entries ec (e # es) =
     (if ec then []
      else case pe_regular e of
        None \<Rightarrow> read_entries True es
      | Some False \<Rightarrow> read_entries False es
      | Some True \<Rightarrow> entry_artifact e # read_entries False es)"

definition mtime_or_epoch :: "crash_artifact \<Rightarrow> time_point" where
  "mtime_or_epoch a = (case ca_mtime a of Some t \<Rightarrow> t | None \<Rightarrow> 0)"

fun max_mtime :: "crash_artifact \<Rightarrow> crash_artifact list \<Rightarrow> crash_artifact" where
  "max_mtime best [] = best"
| "max_mtime best (a # as) = max_mtime (if mtime_or_epoch best < mtime_or_epoch a then a else best) as"

definition acknowledged_fp :: "json_lib \<Rightarrow> string option \<Rightarrow> string option" where
  "acknowledged_fp J file =
     (case file of
        None \<Rightarrow> None
      | Some content \<Rightarrow>
          (case jl_parse J False content of
             Inl _ \<Rightarrow> None
           | Inr j \<Rightarrow>
               if j_contains j ''acknowledged_fingerprint''
               then (case get_string J (j_at j ''acknowledged_fingerprint'') of Inr s \<Rightarrow> Some s | Inl _ \<Rightarrow> None)
               else None))"

definition in_current_boot :: "crash_env \<Rightarrow> crash_artifact \<Rightarrow> bool" where
  "in_current_boot E a = (case ca_mtime a of None \<Rightarrow> True | Some t \<Rightarrow> boot_start E \<le> t)"

definition panic_status :: "json_lib \<Rightarrow> crash_env \<Rightarrow> crash_artifact list \<Rightarrow> crash_status \<Rightarrow> crash_status" where
  "panic_status J E panics st =
     (case panics of
        [] \<Rightarrow> st
      | p # ps \<Rightarrow>
          let fp = compute_fingerprint panics
          in st\<lparr>crash_source := Some ''pstore'', last_panic_at := ca_mtime (max_mtime p ps),
                panic_current_boot := list_ex (in_current_boot E) panics,
                crash_fingerprint := Some fp, acknowledged := (acknowledged_fp J (cr_state E) = Some fp)\<rparr>)"

definition crash_collect :: "json_lib \<Rightarrow> crash_env \<Rightarrow> crash_status probe_result" where
  "crash_collect J E =
     (let artifacts = sort_key ca_name (if cr_exists E then read_entries False (cr_entries E) else []);
          panics = filter (\<lambda>a. ca_kind a = ''panic'') artifacts;
          st = crash_status_default\<lparr>artifact_count := of_nat (length artifacts), crash_artifacts := artifacts,
            crash_present := (artifacts \<noteq> []), panic_count := of_nat (length panics)\<rparr>
      in Inr (panic_status J E panics st))"

section \<open>The records that are read\<close>

lemma read_entries_all:
  "list_all (\<lambda>e. pe_regular e \<noteq> None) es \<Longrightarrow>
   read_entries False es = map entry_artifact (filter (\<lambda>e. pe_regular e = Some True) es)"
proof (induction es)
  case (Cons e es)
  then show ?case by (cases "pe_regular e"; cases "the (pe_regular e)") simp_all
qed simp

text \<open>An entry whose type cannot be read hides every entry behind it.\<close>

lemma read_entries_stops:
  "pe_regular e = None \<Longrightarrow> list_all (\<lambda>x. pe_regular x \<noteq> None) es \<Longrightarrow>
   read_entries False (es @ e # rest) = read_entries False es"
proof (induction es)
  case Nil
  then show ?case by (cases rest) simp_all
next
  case (Cons x es)
  then show ?case by (cases "pe_regular x"; cases "the (pe_regular x)") simp_all
qed

lemma sort_key_unique:
  assumes "set xs = set ys" and "distinct (map f xs)" and "distinct (map f ys)"
  shows "sort_key f xs = sort_key f ys"
proof (rule map_sorted_distinct_set_unique [of f])
  show "inj_on f (set (sort_key f xs) \<union> set (sort_key f ys))"
    using assms by (simp add: distinct_map)
  show "distinct (map f (sort_key f xs))" "distinct (map f (sort_key f ys))"
    using assms(2,3) by (simp_all add: distinct_map)
qed (use assms in simp_all)

text \<open>The panics the probe works on, as a function of the listing.\<close>

definition listed_panics :: "crash_env \<Rightarrow> crash_artifact list" where
  "listed_panics E = sort_key ca_name (filter (\<lambda>a. ca_kind a = ''panic'')
     (if cr_exists E then read_entries False (cr_entries E) else []))"

lemma crash_collect_panics:
  "\<exists>st. crash_collect J E = Inr st \<and> panic_count st = of_nat (length (listed_panics E))
     \<and> panic_current_boot st = list_ex (in_current_boot E) (listed_panics E)
     \<and> crash_fingerprint st = (if listed_panics E = [] then None else Some (compute_fingerprint (listed_panics E)))
     \<and> acknowledged st = (listed_panics E \<noteq> [] \<and>
          acknowledged_fp J (cr_state E) = Some (compute_fingerprint (listed_panics E)))"
  by (cases "listed_panics E")
     (simp_all add: crash_collect_def panic_status_def listed_panics_def filter_sort crash_status_default_def Let_def)

lemma entry_artifact_kind [simp]: "ca_kind (entry_artifact e) = ''panic'' \<longleftrightarrow> is_panic_artifact_name (pe_name e)"
  by (simp add: entry_artifact_def)

lemma in_listed_panics:
  assumes "cr_exists E" "list_all (\<lambda>e. pe_regular e \<noteq> None) (cr_entries E)"
  shows "a \<in> set (listed_panics E) \<longleftrightarrow>
    (\<exists>e\<in>set (cr_entries E). pe_regular e = Some True \<and> is_panic_artifact_name (pe_name e) \<and> a = entry_artifact e)"
  using assms by (auto simp: listed_panics_def read_entries_all)

lemma hex_digits_length: "length (hex_digits k n) = k"
  by (induction k arbitrary: n) simp_all

lemma crash_severity_of_panics:
  assumes "length (listed_panics E) < 2 ^ 32"
  shows "\<exists>st. crash_collect J E = Inr st \<and> evaluate_crash st =
    (if listed_panics E = [] \<or> acknowledged_fp J (cr_state E) = Some (compute_fingerprint (listed_panics E)) then Sev_Ok
     else if list_ex (in_current_boot E) (listed_panics E) then Sev_Crit else Sev_Warn)"
proof -
  have "unat (of_nat (length (listed_panics E)) :: u32) = length (listed_panics E)"
    using assms by (intro unat_of_nat_small) simp
  then have "(of_nat (length (listed_panics E)) :: u32) = 0 \<longleftrightarrow> listed_panics E = []"
    using unat_eq_0 [of "of_nat (length (listed_panics E)) :: u32"] by (simp only: length_0_conv)
  moreover obtain st where "crash_collect J E = Inr st" "panic_count st = of_nat (length (listed_panics E))"
      "panic_current_boot st = list_ex (in_current_boot E) (listed_panics E)"
      "acknowledged st = (listed_panics E \<noteq> [] \<and>
          acknowledged_fp J (cr_state E) = Some (compute_fingerprint (listed_panics E)))"
    using crash_collect_panics [of J E] by blast
  ultimately have "crash_collect J E = Inr st \<and> evaluate_crash st =
    (if listed_panics E = [] \<or> acknowledged_fp J (cr_state E) = Some (compute_fingerprint (listed_panics E)) then Sev_Ok
     else if list_ex (in_current_boot E) (listed_panics E) then Sev_Crit else Sev_Warn)"
    by (cases "listed_panics E = []") (simp_all only: evaluate_crash_def simp_thms if_True if_False split: if_splits)
  then show ?thesis by blast
qed

section \<open>Properties\<close>


definition sample_record :: "string \<Rightarrow> pstore_entry" where
  "sample_record n = \<lparr>pe_name = n, pe_regular = Some True, pe_size = Some 100, pe_mtime = None,
     pe_file_now = 0, pe_sys_now = 0\<rparr>"

definition sample_crash_env :: crash_env where
  "sample_crash_env = \<lparr>cr_now = 100 * ns_per_sec, cr_uptime = Some 10, cr_exists = True,
     cr_entries = [sample_record ''dmesg-efi-1'', sample_record ''console-ramoops-0''], cr_state = None\<rparr>"




end
