(* ===== verification/Log.thy ===== *)
theory Log
  imports Time_Format
begin

text \<open>
  The log, \<^verbatim>\<open>inc/log.hpp\<close>: levels, the rate limiters, the structured events and the two ways a line
  is written.  The clocks are arguments; lines are collected in the state.
\<close>

section \<open>Levels\<close>

datatype log_level = L_Debug | L_Info | L_Warn | L_Error

fun level_string :: "log_level \<Rightarrow> string" where
  "level_string L_Debug = ''DEBUG''"
| "level_string L_Info = ''INFO''"
| "level_string L_Warn = ''WARN''"
| "level_string L_Error = ''ERROR''"

fun level_index :: "log_level \<Rightarrow> int" where
  "level_index L_Debug = 0"
| "level_index L_Info = 1"
| "level_index L_Warn = 2"
| "level_index L_Error = 3"

fun level_to_priority :: "log_level \<Rightarrow> int" where
  "level_to_priority L_Debug = 7"
| "level_to_priority L_Info = 6"
| "level_to_priority L_Warn = 4"
| "level_to_priority L_Error = 3"

section \<open>Lines\<close>

record log_line =
  ll_level :: log_level
  ll_msg :: string
  ll_fields :: "(string \<times> string) list"

text \<open>\<^verbatim>\<open>%0wd\<close> and \<^verbatim>\<open>%-ws\<close> of \<^verbatim>\<open>printf\<close>.\<close>

definition zero_pad :: "nat \<Rightarrow> int \<Rightarrow> string" where
  "zero_pad w n =
     (if 0 \<le> n then let d = show_nat (nat n) in replicate (w - length d) (CHR ''0'') @ d
      else let d = show_nat (nat (- n)) in ''-'' @ replicate (w - 1 - length d) (CHR ''0'') @ d)"

definition left_pad :: "nat \<Rightarrow> string \<Rightarrow> string" where
  "left_pad w s = s @ replicate (w - length s) (CHR '' '')"

definition milliseconds_of :: "time_point \<Rightarrow> int" where
  "milliseconds_of now =
     (let ms = (if 0 \<le> now then now div 1000000 else - ((- now) div 1000000))
      in if 0 \<le> ms then ms mod 1000 else - ((- ms) mod 1000))"

definition format_timestamp :: "time_point \<Rightarrow> string" where
  "format_timestamp now = (let x = gmtime (to_time_t now) in
     zero_pad 4 (tm_year x) @ ''-'' @ zero_pad 2 (tm_mon x) @ ''-'' @ zero_pad 2 (tm_mday x) @ ''T'' @
     zero_pad 2 (tm_hour x) @ '':'' @ zero_pad 2 (tm_min x) @ '':'' @ zero_pad 2 (tm_sec x) @ ''.'' @
     zero_pad 3 (milliseconds_of now) @ ''Z'')"

definition esc :: "string \<Rightarrow> string" where
  "esc code = CHR 0x1B # ''['' @ code @ ''m''"

fun level_color :: "bool \<Rightarrow> log_level \<Rightarrow> string \<times> string" where
  "level_color False l = ([], [])"
| "level_color True L_Debug = (esc ''36'', esc ''0'')"
| "level_color True L_Info = (esc ''32'', esc ''0'')"
| "level_color True L_Warn = (esc ''33'', esc ''0'')"
| "level_color True L_Error = (esc ''1;31'', esc ''0'')"

definition dim_code :: "bool \<Rightarrow> string" where
  "dim_code color = (if color then esc ''2'' else [])"

definition reset_code :: "bool \<Rightarrow> string" where
  "reset_code color = (if color then esc ''0'' else [])"

definition format_field :: "string \<Rightarrow> string \<Rightarrow> string" where
  "format_field key val = key @ ''='' @ val"

text \<open>The line without systemd, and the fields sent to the journal with it.\<close>

definition stderr_line :: "bool \<Rightarrow> time_point \<Rightarrow> log_line \<Rightarrow> string" where
  "stderr_line color now l =
     dim_code color @ format_timestamp now @ reset_code color @ '' ['' @ fst (level_color color (ll_level l)) @
     left_pad 5 (level_string (ll_level l)) @ snd (level_color color (ll_level l)) @ ''] '' @ ll_msg l @
     concat (map (\<lambda>(k, v). '' '' @ format_field k v) (ll_fields l)) @ [CHR 0x0A]"

definition journal_fields :: "log_line \<Rightarrow> string list" where
  "journal_fields l =
     [format_field ''MESSAGE'' (ll_msg l), format_field ''PRIORITY'' (show_int (level_to_priority (ll_level l))),
      format_field ''SYSLOG_IDENTIFIER'' ''edge-healthd''] @ map (\<lambda>(k, v). format_field k v) (ll_fields l)"

section \<open>Rate limiting\<close>

record rate_limiter =
  rl_last :: "int option"
  rl_suppressed :: u32

definition rate_limiter_new :: rate_limiter where
  "rate_limiter_new = \<lparr>rl_last = None, rl_suppressed = 0\<rparr>"

text \<open>The result is \<open>Some\<close> of the suppressed count when the line may be written.\<close>

definition allow_rate_limited :: "int \<Rightarrow> int \<Rightarrow> rate_limiter \<Rightarrow> u32 option \<times> rate_limiter" where
  "allow_rate_limited interval now l =
     (if rl_last l = None \<or> now - the (rl_last l) \<ge> interval
      then (Some (rl_suppressed l), \<lparr>rl_last = Some now, rl_suppressed = 0\<rparr>)
      else (None, l\<lparr>rl_suppressed := rl_suppressed l + 1\<rparr>))"

definition k_probe_error_interval :: int where
  "k_probe_error_interval = 60 * ns_per_sec"

definition k_snapshot_interval :: int where
  "k_snapshot_interval = 5 * 60 * ns_per_sec"

definition k_writer_error_interval :: int where
  "k_writer_error_interval = 60 * ns_per_sec"

section \<open>The log\<close>

record log_state =
  lg_level :: log_level
  lg_probe :: "string \<Rightarrow> rate_limiter"
  lg_writer :: rate_limiter
  lg_last_severity :: string
  lg_last_log :: "int option"
  lg_out :: "log_line list"

definition log_state_new :: log_state where
  "log_state_new = \<lparr>lg_level = L_Info, lg_probe = (\<lambda>_. rate_limiter_new), lg_writer = rate_limiter_new,
     lg_last_severity = [], lg_last_log = None, lg_out = []\<rparr>"

definition set_level :: "log_level \<Rightarrow> log_state \<Rightarrow> log_state" where
  "set_level l s = s\<lparr>lg_level := l\<rparr>"

definition should_log :: "log_state \<Rightarrow> log_level \<Rightarrow> bool" where
  "should_log s l \<longleftrightarrow> level_index l \<ge> level_index (lg_level s)"

definition write_structured :: "log_level \<Rightarrow> string \<Rightarrow> (string \<times> string) list \<Rightarrow> log_state \<Rightarrow> log_state" where
  "write_structured l msg kvs s = s\<lparr>lg_out := lg_out s @ [\<lparr>ll_level = l, ll_msg = msg, ll_fields = kvs\<rparr>]\<rparr>"

definition write_message :: "log_level \<Rightarrow> string \<Rightarrow> log_state \<Rightarrow> log_state" where
  "write_message l msg s = write_structured l msg [] s"

definition log_debug :: "string \<Rightarrow> log_state \<Rightarrow> log_state" where
  "log_debug msg s = (if should_log s L_Debug then write_message L_Debug msg s else s)"

definition log_info :: "string \<Rightarrow> log_state \<Rightarrow> log_state" where
  "log_info msg s = (if should_log s L_Info then write_message L_Info msg s else s)"

definition log_warn :: "string \<Rightarrow> log_state \<Rightarrow> log_state" where
  "log_warn msg s = (if should_log s L_Warn then write_message L_Warn msg s else s)"

definition log_error :: "string \<Rightarrow> log_state \<Rightarrow> log_state" where
  "log_error msg s = (if should_log s L_Error then write_message L_Error msg s else s)"

definition snapshot_allowed :: "int \<Rightarrow> string \<Rightarrow> log_state \<Rightarrow> bool" where
  "snapshot_allowed now severity s \<longleftrightarrow>
     lg_last_severity s \<noteq> severity \<or> lg_last_log s = None \<or> now - the (lg_last_log s) \<ge> k_snapshot_interval"

definition snapshot_collected :: "int \<Rightarrow> string \<Rightarrow> string \<Rightarrow> log_state \<Rightarrow> log_state" where
  "snapshot_collected now severity degraded s =
     (if \<not> should_log s L_Info \<or> \<not> snapshot_allowed now severity s then s
      else write_structured L_Info
        (''Snapshot collected: '' @ severity @ (if degraded \<noteq> [] then '' ('' @ degraded @ '')'' else []))
        [(''SEVERITY'', severity)] (s\<lparr>lg_last_severity := severity, lg_last_log := Some now\<rparr>))"

definition limiter_key :: "string \<Rightarrow> string" where
  "limiter_key probe =
     (if probe \<in> {''device'', ''boot'', ''services'', ''resources'', ''time_sync'', ''update''} then probe
      else ''other'')"

definition log_probe_error :: "int \<Rightarrow> string \<Rightarrow> string \<Rightarrow> log_state \<Rightarrow> log_state" where
  "log_probe_error now probe msg s =
     (if \<not> should_log s L_Warn then s
      else
        let k = limiter_key probe; (allowed, l) = allow_rate_limited k_probe_error_interval now (lg_probe s k);
            s' = s\<lparr>lg_probe := (lg_probe s)(k := l)\<rparr>
        in case allowed of
             None \<Rightarrow> s'
           | Some suppressed \<Rightarrow>
               write_structured L_Warn (''Probe failed ['' @ probe @ '']: '' @ msg @
                 (if suppressed > 0 then '' (suppressed '' @ show_nat (unat suppressed) @ '')'' else []))
                 [(''PROBE'', probe), (''ERROR'', msg)] s')"

definition writer_error_event :: "int \<Rightarrow> string \<Rightarrow> log_state \<Rightarrow> log_state" where
  "writer_error_event now msg s =
     (if \<not> should_log s L_Error then s
      else
        let (allowed, l) = allow_rate_limited k_writer_error_interval now (lg_writer s);
            s' = s\<lparr>lg_writer := l\<rparr>
        in case allowed of None \<Rightarrow> s' | Some _ \<Rightarrow> write_message L_Error msg s')"

definition daemon_starting :: "string \<Rightarrow> log_state \<Rightarrow> log_state" where
  "daemon_starting version s =
     (if should_log s L_Info then write_structured L_Info ''Daemon starting'' [(''VERSION'', version)] s else s)"

definition daemon_ready :: "log_state \<Rightarrow> log_state" where
  "daemon_ready s = log_info ''Daemon ready'' s"

definition daemon_stopping :: "log_state \<Rightarrow> log_state" where
  "daemon_stopping s = log_info ''Daemon stopping'' s"

section \<open>Throttles\<close>

text \<open>The times at which a throttle says yes.\<close>

fun accepted :: "(int \<Rightarrow> 's \<Rightarrow> bool \<times> 's) \<Rightarrow> int list \<Rightarrow> 's \<Rightarrow> int list" where
  "accepted allow [] s = []"
| "accepted allow (t # ts) s =
     (case allow t s of (ok, s') \<Rightarrow> (if ok then [t] else []) @ accepted allow ts s')"

text \<open>The contract: it accepts only when the interval since the last acceptance is over, and remembers that time.\<close>

locale throttle =
  fixes allow :: "int \<Rightarrow> 's \<Rightarrow> bool \<times> 's"
    and last_time :: "'s \<Rightarrow> int option"
    and interval :: int
  assumes accept: "allow t s = (True, s') \<Longrightarrow>
      last_time s' = Some t \<and> (\<forall>u. last_time s = Some u \<longrightarrow> interval \<le> t - u)"
    and reject: "allow t s = (False, s') \<Longrightarrow> last_time s' = last_time s"
begin

lemma accepted_spaced:
  "successively (\<lambda>a b. interval \<le> b - a) ((case last_time s of None \<Rightarrow> [] | Some u \<Rightarrow> [u]) @ accepted allow ts s)"
proof (induction ts arbitrary: s)
  case Nil
  then show ?case by (simp split: option.splits)
next
  case (Cons t ts)
  obtain ok s' where a: "allow t s = (ok, s')" by fastforce
  show ?case
  proof (cases ok)
    case True
    with a accept have "last_time s' = Some t" "\<forall>u. last_time s = Some u \<longrightarrow> interval \<le> t - u" by simp_all
    then show ?thesis using Cons.IH [of s'] a True by (auto split: option.splits)
  next
    case False
    then show ?thesis using Cons.IH [of s'] a reject [of t s s'] by simp
  qed
qed

end

definition limiter_allows :: "int \<Rightarrow> int \<Rightarrow> rate_limiter \<Rightarrow> bool \<times> rate_limiter" where
  "limiter_allows interval t l = (case allow_rate_limited interval t l of (r, l') \<Rightarrow> (r \<noteq> None, l'))"

interpretation limiter: throttle "limiter_allows interval" rl_last interval for interval
  by unfold_locales (auto simp: limiter_allows_def allow_rate_limited_def split: if_splits)

section \<open>Nothing is lost silently\<close>

fun run_limiter :: "int \<Rightarrow> int list \<Rightarrow> rate_limiter \<Rightarrow> u32 list \<times> rate_limiter" where
  "run_limiter interval [] l = ([], l)"
| "run_limiter interval (t # ts) l =
     (case allow_rate_limited interval t l of (r, l') \<Rightarrow>
        case run_limiter interval ts l' of (rs, l'') \<Rightarrow> ((case r of None \<Rightarrow> rs | Some n \<Rightarrow> n # rs), l''))"

lemma unat_plus_one_small: "unat (w :: u32) + 1 < 2 ^ 32 \<Longrightarrow> unat (w + 1) = unat w + 1"
  using unat_add_lem [of w 1] by simp

lemma run_limiter_conserves:
  assumes "run_limiter interval ts l = (rs, l')" and "unat (rl_suppressed l) + length ts < 2 ^ 32"
  shows "sum_list (map (\<lambda>n. 1 + unat n) rs) + unat (rl_suppressed l') = length ts + unat (rl_suppressed l)"
  using assms
proof (induction ts arbitrary: l rs)
  case (Cons t ts)
  obtain r l1 where a: "allow_rate_limited interval t l = (r, l1)" by fastforce
  obtain rs1 where rest: "run_limiter interval ts l1 = (rs1, l')"
    and rs: "rs = (case r of None \<Rightarrow> rs1 | Some n \<Rightarrow> n # rs1)"
    using Cons.prems(1) a by (auto split: prod.splits)
  show ?case
  proof (cases r)
    case None
    with a have "rl_suppressed l1 = rl_suppressed l + 1" by (auto simp: allow_rate_limited_def split: if_splits)
    moreover have "unat (rl_suppressed l + 1) = unat (rl_suppressed l) + 1"
      using Cons.prems(2) by (intro unat_plus_one_small) simp
    ultimately show ?thesis using Cons.IH [OF rest] Cons.prems(2) None rs by simp
  next
    case (Some n)
    with a have "rl_suppressed l1 = 0" "n = rl_suppressed l" by (auto simp: allow_rate_limited_def split: if_splits)
    then show ?thesis using Cons.IH [OF rest] Cons.prems(2) Some rs by simp
  qed
qed simp

section \<open>Properties\<close>



text \<open>A change of the overall severity is always logged at once, whatever the limiter suppressed before;
  with the same severity nothing is written before five minutes are over.\<close>

theorem snapshot_log_transitions:
  assumes "should_log s L_Info"
  shows "(lg_last_severity s \<noteq> severity \<longrightarrow> length (lg_out (snapshot_collected now severity d s)) = length (lg_out s) + 1)
    \<and> lg_last_severity (snapshot_collected now severity d s) = severity
    \<and> (now' - now < k_snapshot_interval \<and> snapshot_allowed now severity s \<longrightarrow>
         snapshot_collected now' severity d' (snapshot_collected now severity d s) = snapshot_collected now severity d s)"
  using assms by (auto simp: snapshot_collected_def snapshot_allowed_def write_structured_def should_log_def)

theorem snapshot_log_transitions_witness:
  "length (lg_out (snapshot_collected 5 ''crit'' [] (snapshot_collected 1 ''ok'' [] log_state_new))) = 2"
proof -
  have 1: "should_log log_state_new L_Info" by (simp add: should_log_def log_state_new_def)
  have 2: "should_log (snapshot_collected 1 ''ok'' [] log_state_new) L_Info"
    by (simp add: should_log_def log_state_new_def snapshot_collected_def write_structured_def)
  show ?thesis
    using snapshot_log_transitions [OF 1, of "''ok''" 1 "[]"] snapshot_log_transitions [OF 2, of "''crit''" 5 "[]"]
    by (simp add: log_state_new_def)
qed

end
