(* ===== verification/Dbus_Manager.thy ===== *)
theory Dbus_Manager
  imports Log Aggregator
begin

text \<open>
  The D-Bus service, \<^verbatim>\<open>src/dbus_manager.cpp\<close>: the severity property, the alarms and the methods
  clients call.  The signals it sends are collected in a list; the two callbacks of the daemon
  are functions on the state of the daemon.
\<close>

datatype bus_signal =
    Properties_Changed string
  | Health_Alarm string string string  \<comment> \<open>component, message, severity\<close>

record health_manager =
  hm_severity_str :: string
  hm_last_sev :: severity
  hm_logs_cache :: "string list"

definition health_manager_new :: health_manager where
  "health_manager_new = \<lparr>hm_severity_str = ''unknown'', hm_last_sev = Sev_Unknown, hm_logs_cache = []\<rparr>"

fun degradation_rank :: "severity \<Rightarrow> int" where
  "degradation_rank Sev_Unknown = 0"
| "degradation_rank Sev_Ok = 1"
| "degradation_rank Sev_Stale = 2"
| "degradation_rank Sev_Unavailable = 3"
| "degradation_rank Sev_Warn = 4"
| "degradation_rank Sev_Crit = 5"

definition is_degradation :: "severity \<Rightarrow> severity \<Rightarrow> bool" where
  "is_degradation prev_sev new_sev \<longleftrightarrow> degradation_rank new_sev > degradation_rank prev_sev"

definition alarm_message :: "severity \<Rightarrow> severity \<Rightarrow> string" where
  "alarm_message prev_sev new_sev = severity_string prev_sev @ '' -> '' @ severity_string new_sev"

definition update_severity ::
  "severity \<Rightarrow> severity \<Rightarrow> health_manager \<Rightarrow> log_state \<Rightarrow> health_manager \<times> bus_signal list \<times> log_state" where
  "update_severity new_sev prev_sev hm lg =
     (let changed = (hm_severity_str hm \<noteq> severity_string new_sev);
          hm' = hm\<lparr>hm_severity_str := severity_string new_sev, hm_last_sev := new_sev\<rparr>;
          sig1 = (if changed then [Properties_Changed ''OverallSeverity''] else [])
      in if is_degradation prev_sev new_sev
         then (hm', sig1 @ [Health_Alarm ''overall'' (alarm_message prev_sev new_sev) (severity_string new_sev)],
               log_info (''HealthAlarm emitted: '' @ alarm_message prev_sev new_sev) lg)
         else (hm', sig1, lg))"

definition update_recent_logs :: "string list \<Rightarrow> health_manager \<Rightarrow> health_manager" where
  "update_recent_logs logs hm = hm\<lparr>hm_logs_cache := logs\<rparr>"

definition emit_alarm :: "string \<Rightarrow> string \<Rightarrow> severity \<Rightarrow> log_state \<Rightarrow> bus_signal list \<times> log_state" where
  "emit_alarm component message sev lg =
     ([Health_Alarm component message (severity_string sev)],
      log_info (''HealthAlarm emitted: '' @ component @ '' ('' @ severity_string sev @ '') '' @ message) lg)"

definition OverallSeverity :: "health_manager \<Rightarrow> string" where
  "OverallSeverity hm = hm_severity_str hm"

definition TriggerSnapshot :: "('d \<Rightarrow> bool \<times> 'd) option \<Rightarrow> 'd \<Rightarrow> bool \<times> 'd" where
  "TriggerSnapshot on_trigger d = (case on_trigger of Some f \<Rightarrow> f d | None \<Rightarrow> (False, d))"

definition GetRecentLogs :: "u32 \<Rightarrow> health_manager \<Rightarrow> string list" where
  "GetRecentLogs max_lines hm =
     (if max_lines = 0 \<or> hm_logs_cache hm = [] then []
      else take (min (unat max_lines) (length (hm_logs_cache hm))) (hm_logs_cache hm))"

text \<open>
  The outcome of an operation that may throw (\<open>Inl\<close> of the message) or never return (\<open>None\<close>).
\<close>

type_synonym 'd outcome = "(string + 'd) option"

text \<open>
  The callback writes a file; an exception of it goes to the caller as a bus error, before the
  log line.  \<open>log_on\<close> applies an operation of the log to the state of the daemon.
\<close>

definition AcknowledgeCrash ::
  "(string \<Rightarrow> 'd \<Rightarrow> (bool \<times> 'd) outcome) option \<Rightarrow> ((log_state \<Rightarrow> log_state) \<Rightarrow> 'd \<Rightarrow> 'd) \<Rightarrow> string \<Rightarrow> 'd \<Rightarrow>
   (bool \<times> 'd) outcome" where
  "AcknowledgeCrash on_acknowledge log_on fp d =
     (case on_acknowledge of
        None \<Rightarrow> Some (Inr (False, d))
      | Some f \<Rightarrow>
          map_option (map_sum id (\<lambda>(acked, d').
            (acked, log_on (log_info (if acked then ''Crash acknowledged: fingerprint='' @ fp
                else ''AcknowledgeCrash rejected (stale/unknown fingerprint): '' @ fp)) d'))) (f fp d))"

section \<open>The order of the alarms\<close>

interpretation dbus: severity_ranking degradation_rank
proof unfold_locales
  show "(degradation_rank a \<le> degradation_rank b) = (a \<le> b)" for a b
    by (cases a; cases b) (simp_all add: severity_order_simps)
qed

text \<open>The reports of a sequence of cycles: each is told the severity before it.\<close>

fun run_severities ::
  "severity list \<Rightarrow> severity \<Rightarrow> health_manager \<Rightarrow> log_state \<Rightarrow> bus_signal list \<times> health_manager" where
  "run_severities [] prev hm lg = ([], hm)"
| "run_severities (s # ss) prev hm lg =
     (case update_severity s prev hm lg of (hm', sigs, lg') \<Rightarrow>
        case run_severities ss s hm' lg' of (sigs', hm'') \<Rightarrow> (sigs @ sigs', hm''))"

definition is_alarm :: "bus_signal \<Rightarrow> bool" where
  "is_alarm g = (case g of Health_Alarm _ _ _ \<Rightarrow> True | Properties_Changed _ \<Rightarrow> False)"

definition rises :: "severity \<Rightarrow> severity list \<Rightarrow> (severity \<times> severity) list" where
  "rises prev ss = filter (\<lambda>(a, b). a < b) (zip (prev # ss) ss)"

lemma run_severities_signals:
  assumes "hm_severity_str hm = severity_string prev"
  shows "filter is_alarm (fst (run_severities ss prev hm lg)) =
      map (\<lambda>(a, b). Health_Alarm ''overall'' (alarm_message a b) (severity_string b)) (rises prev ss)
    \<and> length (filter (\<lambda>g. \<not> is_alarm g) (fst (run_severities ss prev hm lg))) =
      length (filter (\<lambda>(a, b). a \<noteq> b) (zip (prev # ss) ss))
    \<and> hm_severity_str (snd (run_severities ss prev hm lg)) = severity_string (last (prev # ss))"
  using assms
proof (induction ss arbitrary: prev hm lg)
  case (Cons s ss)
  obtain hm' sigs lg' where u: "update_severity s prev hm lg = (hm', sigs, lg')" by (cases "update_severity s prev hm lg")
  have hm': "hm_severity_str hm' = severity_string s"
    using u by (auto simp: update_severity_def Let_def split: if_splits)
  have alarms: "filter is_alarm sigs = (if prev < s then [Health_Alarm ''overall'' (alarm_message prev s) (severity_string s)] else [])"
    using u by (auto simp: update_severity_def Let_def is_degradation_def dbus.rank_less_iff is_alarm_def split: if_splits)
  have others: "length (filter (\<lambda>g. \<not> is_alarm g) sigs) = (if prev \<noteq> s then 1 else 0)"
    using u Cons.prems severity_string_inject [of prev s]
    by (auto simp: update_severity_def Let_def is_alarm_def split: if_splits)
  obtain sigs' hm'' where rest: "run_severities ss s hm' lg' = (sigs', hm'')" by fastforce
  show ?case using Cons.IH [OF hm', of lg'] alarms others by (simp add: u rest rises_def)
qed (simp add: rises_def)

section \<open>Properties\<close>


text \<open>\<open>GetRecentLogs\<close> returns the first lines of the cached excerpt, never more than were asked for.\<close>

theorem get_recent_logs_prefix:
  "\<exists>rest. hm_logs_cache hm = GetRecentLogs n hm @ rest
     \<and> length (GetRecentLogs n hm) = min (unat n) (length (hm_logs_cache hm))"
  by (rule exI [of _ "drop (min (unat n) (length (hm_logs_cache hm))) (hm_logs_cache hm)"])
     (auto simp: GetRecentLogs_def unat_eq_0)

end
