(* ===== verification/Probe_Schedule.thy ===== *)
theory Probe_Schedule
  imports Probe_Base Log
begin

text \<open>
  The schedule of a probe and the two generic lambdas of \<^verbatim>\<open>collection_cycle\<close> in \<^verbatim>\<open>src/daemon.cpp\<close>:
  collecting a section when it is due, and marking it stale.  The locale \<open>fresh_section\<close> is what
  the two need of a section; it is interpreted on the seven sections that carry freshness.
\<close>

record probe_schedule =
  ps_interval :: seconds
  ps_next_run :: int
  ps_has_result :: bool

definition schedule_every :: "seconds \<Rightarrow> probe_schedule" where
  "schedule_every i = \<lparr>ps_interval = i, ps_next_run = 0, ps_has_result = False\<rparr>"

definition is_due :: "int \<Rightarrow> probe_schedule \<Rightarrow> bool" where
  "is_due now s \<longleftrightarrow> \<not> ps_has_result s \<or> (ps_interval s > 0 \<and> now \<ge> ps_next_run s)"

definition schedule_done :: "int \<Rightarrow> probe_schedule \<Rightarrow> probe_schedule" where
  "schedule_done now s = s\<lparr>ps_next_run := now + ps_interval s * ns_per_sec, ps_has_result := True\<rparr>"

text \<open>
  \<open>stamp\<close> sets the freshness of a new result (the identity for the device section, which has none).
\<close>

definition maybe_collect ::
  "('t \<Rightarrow> 't) \<Rightarrow> int \<Rightarrow> int \<Rightarrow> string \<Rightarrow> 't probe_result \<Rightarrow> probe_schedule \<times> 't \<times> log_state \<Rightarrow>
   probe_schedule \<times> 't \<times> log_state" where
  "maybe_collect stamp now log_now name result state =
     (case state of (s, cache, lg) \<Rightarrow>
        if \<not> is_due now s then (s, cache, lg)
        else case result of
          Inr v \<Rightarrow> (schedule_done now s, stamp v, lg)
        | Inl e \<Rightarrow> (s, cache, log_probe_error log_now name (pe_message e) lg))"

definition fresh_stamp :: "(section_freshness \<Rightarrow> 't \<Rightarrow> 't) \<Rightarrow> time_point \<Rightarrow> 't \<Rightarrow> 't" where
  "fresh_stamp put wall = put \<lparr>collected_at = Some wall, fr_stale = False\<rparr>"

definition stale_grace :: "probe_schedule \<Rightarrow> int" where
  "stale_grace s = max (ps_interval s) 30 * ns_per_sec"

definition mark_stale ::
  "('t \<Rightarrow> section_freshness) \<Rightarrow> (section_freshness \<Rightarrow> 't \<Rightarrow> 't) \<Rightarrow> int \<Rightarrow> probe_schedule \<Rightarrow> 't \<Rightarrow> 't" where
  "mark_stale get put now s x =
     (if ps_has_result s \<and> ps_interval s > 0
      then put ((get x)\<lparr>fr_stale := now > ps_next_run s + stale_grace s\<rparr>) x else x)"

section \<open>One section over time\<close>

text \<open>What one cycle does to a section: collect when due, then mark.\<close>

definition section_cycle ::
  "('t \<Rightarrow> section_freshness) \<Rightarrow> (section_freshness \<Rightarrow> 't \<Rightarrow> 't) \<Rightarrow> string \<Rightarrow> int \<times> time_point \<times> 't probe_result \<Rightarrow>
   probe_schedule \<times> 't \<times> log_state \<Rightarrow> probe_schedule \<times> 't \<times> log_state" where
  "section_cycle get put name c state =
     (case c of (now, wall, r) \<Rightarrow>
        case maybe_collect (fresh_stamp put wall) now now name r state of
          (s, x, lg) \<Rightarrow> (s, mark_stale get put now s x, lg))"

text \<open>The time and wall clock of the last cycle in which the section was collected.\<close>

fun last_collected ::
  "(int \<times> time_point \<times> 't probe_result) list \<Rightarrow> probe_schedule \<Rightarrow> (int \<times> time_point) option \<Rightarrow> (int \<times> time_point) option" where
  "last_collected [] s l = l"
| "last_collected ((now, wall, r) # cs) s l =
     (if is_due now s \<and> \<not> isl r then last_collected cs (schedule_done now s) (Some (now, wall))
      else last_collected cs s l)"

lemma ns_per_sec_pos [simp]: "0 < ns_per_sec"
  by (simp add: ns_per_sec_def)

text \<open>The schedule remembers the last collection.\<close>

definition schedule_inv :: "(int \<times> time_point) option \<Rightarrow> probe_schedule \<Rightarrow> bool" where
  "schedule_inv l s \<longleftrightarrow>
     (case l of None \<Rightarrow> \<not> ps_has_result s
      | Some (t, wall) \<Rightarrow> ps_has_result s \<and> ps_next_run s = t + ps_interval s * ns_per_sec)"

lemma schedule_inv_done: "schedule_inv (Some (now, wall)) (schedule_done now s)"
  by (simp add: schedule_inv_def schedule_done_def)

lemma failed_probe_stays_due: "is_due t s \<Longrightarrow> t \<le> t' \<Longrightarrow> is_due t' s"
  by (auto simp: is_due_def)

text \<open>A run of cycles, with the last collection followed alongside.\<close>

fun section_run ::
  "('t \<Rightarrow> section_freshness) \<Rightarrow> (section_freshness \<Rightarrow> 't \<Rightarrow> 't) \<Rightarrow> string \<Rightarrow> (int \<times> time_point \<times> 't probe_result) list \<Rightarrow>
   probe_schedule \<times> 't \<times> log_state \<Rightarrow> (int \<times> time_point) option \<Rightarrow>
   (probe_schedule \<times> 't \<times> log_state) \<times> (int \<times> time_point) option" where
  "section_run get put name [] state l = (state, l)"
| "section_run get put name (c # cs) state l =
     section_run get put name cs (section_cycle get put name c state) (last_collected [c] (fst state) l)"

text \<open>The freshness of a section after a cycle at time \<open>now\<close>, when its last collection was \<open>l\<close>.\<close>

definition freshness_at :: "int \<Rightarrow> seconds \<Rightarrow> (int \<times> time_point) option \<Rightarrow> section_freshness" where
  "freshness_at now i l =
     (case l of
        None \<Rightarrow> section_freshness_default
      | Some (t, wall) \<Rightarrow> \<lparr>collected_at = Some wall, fr_stale = now > t + (i + max i 30) * ns_per_sec\<rparr>)"

locale fresh_section =
  fixes get :: "'t \<Rightarrow> section_freshness"
    and put :: "section_freshness \<Rightarrow> 't \<Rightarrow> 't"
  assumes get_put [simp]: "get (put f x) = f"
    and put_put [simp]: "put f (put g x) = put f x"
begin

lemma section_cycle_interval:
  "ps_interval (fst (section_cycle get put name c state)) = ps_interval (fst state)"
  by (auto simp: section_cycle_def maybe_collect_def schedule_done_def split: prod.splits sum.splits if_splits)

lemma section_cycle_step:
  assumes "schedule_inv l (fst state)" and "0 < ps_interval (fst state)"
    and "l = None \<Longrightarrow> get (fst (snd state)) = section_freshness_default"
    and "\<And>t wall. l = Some (t, wall) \<Longrightarrow> collected_at (get (fst (snd state))) = Some wall"
    and "section_cycle get put name (now, wall, r) state = state'"
  shows "let l' = last_collected [(now, wall, r)] (fst state) l in
    schedule_inv l' (fst state') \<and> get (fst (snd state')) = freshness_at now (ps_interval (fst state)) l'"
proof -
  obtain s x lg where state: "state = (s, x, lg)" by (cases state)
  have arith: "(a + b) * ns_per_sec = a * ns_per_sec + b * ns_per_sec" for a b by (simp add: distrib_right)
  show ?thesis
  proof (cases "is_due now s \<and> \<not> isl r")
    case True
    then obtain v where "r = Inr v" by (cases r) auto
    then show ?thesis
      using assms(2,5) True
      by (auto simp: state section_cycle_def maybe_collect_def schedule_inv_def schedule_done_def mark_stale_def
          stale_grace_def fresh_stamp_def freshness_at_def arith Let_def)
  next
    case False
    then have keep: "fst state' = s" "fst (snd state') = mark_stale get put now s x"
      using assms(5)
      by (auto simp: state section_cycle_def maybe_collect_def split: sum.splits if_splits)
    show ?thesis
    proof (cases l)
      case None
      then show ?thesis using False keep assms(1,3)
        by (simp add: state schedule_inv_def mark_stale_def freshness_at_def Let_def)
    next
      case (Some tw)
      obtain t w where "tw = (t, w)" by fastforce
      then show ?thesis
        using False keep assms(1,2) assms(4) [of t w] Some
        by (cases "get x") (auto simp: state schedule_inv_def mark_stale_def stale_grace_def freshness_at_def arith
            add.assoc Let_def)
    qed
  qed
qed

definition section_inv :: "seconds \<Rightarrow> (int \<times> time_point) option \<Rightarrow> probe_schedule \<times> 't \<times> log_state \<Rightarrow> bool" where
  "section_inv i l state \<longleftrightarrow> schedule_inv l (fst state) \<and> ps_interval (fst state) = i \<and>
     (l = None \<longrightarrow> get (fst (snd state)) = section_freshness_default) \<and>
     (\<forall>t wall. l = Some (t, wall) \<longrightarrow> collected_at (get (fst (snd state))) = Some wall)"

lemma section_inv_cycle:
  assumes "section_inv i l state" and "0 < i"
  shows "section_inv i (last_collected [(now, wall, r)] (fst state) l) (section_cycle get put name (now, wall, r) state)
    \<and> get (fst (snd (section_cycle get put name (now, wall, r) state))) =
        freshness_at now i (last_collected [(now, wall, r)] (fst state) l)"
proof -
  let ?l = "last_collected [(now, wall, r)] (fst state) l" and ?st = "section_cycle get put name (now, wall, r) state"
  have "schedule_inv ?l (fst ?st) \<and> get (fst (snd ?st)) = freshness_at now i ?l"
    using section_cycle_step [of l state name now wall r ?st] assms by (simp add: section_inv_def Let_def)
  then show ?thesis
    using assms section_cycle_interval [of name "(now, wall, r)" state]
    by (simp add: section_inv_def freshness_at_def del: last_collected.simps)
qed

lemma section_run_fresh:
  assumes "section_inv i l state" and "0 < i" and "cs \<noteq> []"
    and "section_run get put name cs state l = (state', l')"
  shows "section_inv i l' state' \<and> get (fst (snd state')) = freshness_at (fst (last cs)) i l'"
  using assms
proof (induction cs arbitrary: state l)
  case (Cons c cs)
  obtain now wall r where c: "c = (now, wall, r)" by (cases c)
  note step = section_inv_cycle [OF Cons.prems(1,2), of now wall r name]
  show ?case
  proof (cases "cs = []")
    case True
    then show ?thesis using step Cons.prems(4) by (auto simp: c simp del: last_collected.simps)
  next
    case False
    have "section_run get put name cs (section_cycle get put name (now, wall, r) state)
      (last_collected [(now, wall, r)] (fst state) l) = (state', l')"
      using Cons.prems(4) by (simp add: c del: last_collected.simps)
    from Cons.IH [OF conjunct1 [OF step] Cons.prems(2) False this] False show ?thesis by simp
  qed
qed simp

end

section \<open>The sections\<close>

definition put_boot :: "section_freshness \<Rightarrow> boot_status \<Rightarrow> boot_status" where
  "put_boot f x = x\<lparr>boot_freshness := f\<rparr>"

definition put_services :: "section_freshness \<Rightarrow> services_status \<Rightarrow> services_status" where
  "put_services f x = x\<lparr>services_freshness := f\<rparr>"

definition put_resources :: "section_freshness \<Rightarrow> resources_status \<Rightarrow> resources_status" where
  "put_resources f x = x\<lparr>resources_freshness := f\<rparr>"

definition put_time_sync :: "section_freshness \<Rightarrow> time_sync_status \<Rightarrow> time_sync_status" where
  "put_time_sync f x = x\<lparr>time_sync_freshness := f\<rparr>"

definition put_update :: "section_freshness \<Rightarrow> update_status \<Rightarrow> update_status" where
  "put_update f x = x\<lparr>update_freshness := f\<rparr>"

definition put_journal :: "section_freshness \<Rightarrow> journal_status \<Rightarrow> journal_status" where
  "put_journal f x = x\<lparr>journal_freshness := f\<rparr>"

definition put_crash :: "section_freshness \<Rightarrow> crash_status \<Rightarrow> crash_status" where
  "put_crash f x = x\<lparr>crash_freshness := f\<rparr>"

interpretation sec_boot: fresh_section boot_freshness put_boot
  by unfold_locales (simp_all add: put_boot_def)

interpretation sec_services: fresh_section services_freshness put_services
  by unfold_locales (simp_all add: put_services_def)

interpretation sec_resources: fresh_section resources_freshness put_resources
  by unfold_locales (simp_all add: put_resources_def)

interpretation sec_time_sync: fresh_section time_sync_freshness put_time_sync
  by unfold_locales (simp_all add: put_time_sync_def)

interpretation sec_update: fresh_section update_freshness put_update
  by unfold_locales (simp_all add: put_update_def)

interpretation sec_journal: fresh_section journal_freshness put_journal
  by unfold_locales (simp_all add: put_journal_def)

interpretation sec_crash: fresh_section crash_freshness put_crash
  by unfold_locales (simp_all add: put_crash_def)

section \<open>Properties\<close>



end
