(* ===== verification/Daemon.thy ===== *)
theory Daemon
  imports Writer Device_Probe Boot_Probe Dbus_Probes Crash_Probe Dbus_Manager Probe_Schedule
begin

text \<open>
  The daemon, \<^verbatim>\<open>src/daemon.cpp\<close>: its state, one collection cycle, and the callbacks of the bus.
  A cycle is a list of phases; callbacks run on another thread, between any two of them.
\<close>

section \<open>State\<close>

record schedules =
  sch_device :: probe_schedule
  sch_boot :: probe_schedule
  sch_services :: probe_schedule
  sch_resources :: probe_schedule
  sch_time_sync :: probe_schedule
  sch_update :: probe_schedule
  sch_journal :: probe_schedule
  sch_crash :: probe_schedule

text \<open>
  The members of \<^verbatim>\<open>SnapshotDaemon\<close>, the two globals of the signal handler, and what the daemon
  acts on outside: the log, the signals on the bus, the messages to systemd, the files, the
  journal, the count of the wake-up descriptor.  A pointer is an option, or a Boolean where only
  null matters; \<open>d_prev_sev\<close> is the local variable of the cycle that outlives a phase.
\<close>

record 'w daemon =
  d_config :: config
  d_schedules :: schedules
  d_nl_monitor :: "nl_monitor option"
  d_journal_reader :: "journal_reader option"
  d_resources_probe :: resources_probe
  d_writer :: snapshot_writer
  d_dbus_connection :: bool
  d_health_manager :: "health_manager option"
  d_rauc_proxy :: bool
  d_rauc_update_pending :: bool
  d_last_known_good :: snapshot_state
  d_cycle_count :: u64
  d_running :: bool
  d_shutdown_requested :: bool
  d_trigger_requested :: bool
  d_current_state :: snapshot_state
  d_last_severity :: severity
  d_prev_sev :: severity
  d_last_alarmed_crash_fp :: "string option"
  d_current_panic_fingerprint :: "string option"
  d_crash_ack_pending :: bool
  d_wakeup_fd :: int
  d_last_trigger_time :: "int option"
  d_watchdog_heartbeat_us :: int
  d_watchdog_timeout :: int
  d_watchdog_thread :: bool  \<comment> \<open>joinable\<close>
  d_watchdog_stop :: bool  \<comment> \<open>\<^verbatim>\<open>stop_requested\<close> of its token\<close>
  d_bus_loop :: bool  \<comment> \<open>the event loop of the connection runs\<close>
  g_shutdown_signal :: bool
  g_wakeup_fd :: int
  sy_eventfd :: nat
  sy_log :: log_state
  sy_signals :: "bus_signal list"
  sy_notify :: "string list"
  sy_fs :: fsys
  sy_journal :: 'w

text \<open>What one cycle reads from the system.\<close>

record cycle_env =
  ce_version :: string
  ce_now :: int
  ce_wall :: "string \<Rightarrow> time_point"
  ce_log_now :: "string \<Rightarrow> int"
  ce_heartbeat_first :: int
  ce_heartbeat_last :: int
  ce_datagrams :: "datagram list"
  ce_device :: device_env
  ce_boot :: boot_env
  ce_units :: unit_bus
  ce_unit_clock :: "string \<Rightarrow> u64"
  ce_resources :: resources_env
  ce_time :: time_env
  ce_slots :: "(string \<times> slot_props) list option"
  ce_journal_severity_clock :: "nat \<Rightarrow> u64"
  ce_journal_count_clock :: "nat \<Rightarrow> u64"
  ce_journal_now :: u64
  ce_crash :: crash_env
  ce_hardware_concurrency :: u32
  ce_generated_at :: time_point
  ce_mkdir :: int
  ce_sys :: sys_outcomes
  ce_pid :: nat

definition crash_state_path :: "path \<Rightarrow> path" where
  "crash_state_path dir = path_join dir ''crash_state.json''"

definition update_state_path :: path where
  "update_state_path = path_join ''/data/edge/update'' ''last_update.json''"

definition on_log :: "(log_state \<Rightarrow> log_state) \<Rightarrow> 'w daemon \<Rightarrow> 'w daemon" where
  "on_log f d = d\<lparr>sy_log := f (sy_log d)\<rparr>"

section \<open>Waking the main loop\<close>

text \<open>The count of an eventfd stays below the largest 64-bit number; a write that would pass it fails.\<close>

definition eventfd_write :: "'w daemon \<Rightarrow> 'w daemon" where
  "eventfd_write d = (if sy_eventfd d < 2 ^ 64 - 2 then d\<lparr>sy_eventfd := sy_eventfd d + 1\<rparr> else d)"

definition wake :: "'w daemon \<Rightarrow> 'w daemon" where
  "wake d = (if d_wakeup_fd d < 0 then d else eventfd_write d)"

definition handle_shutdown_signal_store :: "'w daemon \<Rightarrow> 'w daemon" where
  "handle_shutdown_signal_store d = d\<lparr>g_shutdown_signal := True\<rparr>"

definition handle_shutdown_signal_write :: "'w daemon \<Rightarrow> 'w daemon" where
  "handle_shutdown_signal_write d = (if g_wakeup_fd d \<ge> 0 then eventfd_write d else d)"

definition handle_shutdown_signal :: "'w daemon \<Rightarrow> 'w daemon" where
  "handle_shutdown_signal d = handle_shutdown_signal_write (handle_shutdown_signal_store d)"

section \<open>Construction\<close>

text \<open>The constructor; members that are null until \<open>initialize\<close> have their first value there.\<close>

definition daemon_new :: "config \<Rightarrow> int \<Rightarrow> log_state \<Rightarrow> fsys \<Rightarrow> 'w \<Rightarrow> 'w daemon" where
  "daemon_new cfg fd lg fs w = \<lparr>d_config = cfg,
     d_schedules = \<lparr>sch_device = schedule_every 0, sch_boot = schedule_every 0, sch_services = schedule_every 0,
       sch_resources = schedule_every 0, sch_time_sync = schedule_every 0, sch_update = schedule_every 0,
       sch_journal = schedule_every 0, sch_crash = schedule_every 0\<rparr>,
     d_nl_monitor = None, d_journal_reader = None, d_resources_probe = resources_probe_new cfg [] [] 0,
     d_writer = snapshot_writer_new [], d_dbus_connection = False, d_health_manager = None, d_rauc_proxy = False,
     d_rauc_update_pending = False, d_last_known_good = snapshot_state_default, d_cycle_count = 0, d_running = False,
     d_shutdown_requested = False, d_trigger_requested = False, d_current_state = snapshot_state_default,
     d_last_severity = Sev_Unknown, d_prev_sev = Sev_Unknown, d_last_alarmed_crash_fp = None,
     d_current_panic_fingerprint = None, d_crash_ack_pending = False, d_wakeup_fd = fd, d_last_trigger_time = None,
     d_watchdog_heartbeat_us = 0, d_watchdog_timeout = 0, d_watchdog_thread = False, d_watchdog_stop = False, d_bus_loop = False,
     g_shutdown_signal = False, g_wakeup_fd = - 1, sy_eventfd = 0, sy_log = lg, sy_signals = [], sy_notify = [], sy_fs = fs, sy_journal = w\<rparr>"

section \<open>Initialisation\<close>

text \<open>
  What the calls return: the message of a failed \<^verbatim>\<open>create_directories\<close>, the netlink socket, the
  message of the error of the bus connection and of the RAUC subscription, and the first
  sequence number of the ethtool socket.
\<close>

record init_env =
  ie_state_dir :: "string option"
  ie_netlink :: nl_init_env
  ie_bus :: "string option"
  ie_rauc :: "string option"
  ie_seq :: u32

definition prepare_state_dir :: "string option \<Rightarrow> path \<Rightarrow> 'w daemon \<Rightarrow> bool \<times> 'w daemon" where
  "prepare_state_dir err dir d =
     (case err of
        Some m \<Rightarrow> (False, on_log (log_warn (''cannot create state directory '' @ dir @ '': '' @ m @
          ''; running without persistent state'')) d)
      | None \<Rightarrow> (True, d))"

definition init_warnings :: "init_env \<Rightarrow> 'w daemon \<Rightarrow> 'w daemon" where
  "init_warnings I d =
     (let d1 = snd (prepare_state_dir (ie_state_dir I) (state_dir (d_config d)) d);
          d2 = (if d_wakeup_fd d1 < 0
                then on_log (log_warn ''eventfd creation failed; shutdown/trigger may be delayed up to collect_interval'') d1
                else d1)
      in if enable_ptp (d_config d2)
         then on_log (log_warn ''enable_ptp=true in config but PTP probe is not yet implemented; ptp.enabled will reflect config, offset thresholds unused'') d2
         else d2)"

definition init_bus :: "init_env \<Rightarrow> 'w daemon \<Rightarrow> 'w daemon" where
  "init_bus I d =
     (case ie_bus I of
        Some m \<Rightarrow> on_log (log_warn (''D-Bus service unavailable, continuing without it: '' @ m)) d
          \<lparr>d_dbus_connection := False, d_health_manager := None\<rparr>
      | None \<Rightarrow> on_log (log_info ''D-Bus manager registered at edge.health/edge/health/manager'') d
          \<lparr>d_dbus_connection := True, d_health_manager := Some health_manager_new\<rparr>)"

definition init_rauc :: "init_env \<Rightarrow> 'w daemon \<Rightarrow> 'w daemon" where
  "init_rauc I d =
     (if enable_update_tracking (d_config d) \<and> d_dbus_connection d then
        (case ie_rauc I of
           Some m \<Rightarrow> on_log (log_warn (''RAUC signal subscription failed (RAUC not installed?): '' @ m)) d\<lparr>d_rauc_proxy := False\<rparr>
         | None \<Rightarrow> on_log (log_info ''Subscribed to RAUC de.pengutronix.rauc.Installer.Completed signal'') d\<lparr>d_rauc_proxy := True\<rparr>)
      else d)"

definition init_journal :: "'w sd_api \<Rightarrow> 'w daemon \<Rightarrow> 'w daemon option" where
  "init_journal A d =
     map_option (\<lambda>(ok, r, w'). let d1 = d\<lparr>d_journal_reader := Some r, sy_journal := w'\<rparr> in
        if ok then d1
        else on_log (log_warn ''journal reader unavailable; journal severity and log excerpts will be empty'') d1)
       (journal_init A (d_config d) journal_reader_new (sy_journal d))"

definition init_probes :: "init_env \<Rightarrow> 'w daemon \<Rightarrow> 'w daemon" where
  "init_probes I d =
     (let cfg = d_config d; each = schedule_every (collect_interval cfg) in
      d\<lparr>d_resources_probe := resources_probe_new cfg (monitored_mounts cfg) (monitored_interfaces cfg) (ie_seq I),
        d_schedules := \<lparr>sch_device = schedule_every 0, sch_boot = each, sch_services = each, sch_resources = each,
          sch_time_sync = schedule_every (time_sync_interval cfg), sch_update = schedule_every (update_check_interval cfg),
          sch_journal = each, sch_crash = each\<rparr>,
        d_writer := snapshot_writer_new (snapshot_file cfg)\<rparr>)"

text \<open>The result is the message of a failure, if any; \<open>None\<close> when the journal never returns.\<close>

definition initialize :: "'w sd_api \<Rightarrow> init_env \<Rightarrow> 'w daemon \<Rightarrow> (string option \<times> 'w daemon) option" where
  "initialize A I d =
     (let d1 = init_warnings I d; (ok, M) = nl_init (ie_netlink I) nl_monitor_new; d2 = d1\<lparr>d_nl_monitor := Some M\<rparr> in
      if \<not> ok then Some (Some ''Failed to initialize NetlinkMonitor'', d2)
      else map_option (\<lambda>d'. (None, init_probes I d')) (init_journal A (init_rauc I (init_bus I d2))))"

section \<open>The callbacks\<close>

text \<open>Each callback is its stores, then \<open>wake\<close>; the result of the first part tells whether it wakes.\<close>

definition on_trigger_store :: "int \<Rightarrow> 'w daemon \<Rightarrow> bool \<times> 'w daemon" where
  "on_trigger_store now d =
     (let m = trigger_min_interval (d_config d) in
      if m > 0 \<and> d_last_trigger_time d \<noteq> None \<and> now - the (d_last_trigger_time d) < m * ns_per_sec
      then (False, on_log (log_debug (''TriggerSnapshot rate-limited (min interval: '' @ show_int m @ ''s)'')) d)
      else (True, d\<lparr>d_last_trigger_time := Some now, d_trigger_requested := True\<rparr>))"

definition on_trigger :: "int \<Rightarrow> 'w daemon \<Rightarrow> bool \<times> 'w daemon" where
  "on_trigger now d = (case on_trigger_store now d of (ok, d') \<Rightarrow> (ok, if ok then wake d' else d'))"

definition ack_json :: "string \<Rightarrow> json" where
  "ack_json fp = j_object [(''acknowledged_fingerprint'', JString fp)]"

text \<open>The fingerprint is compared under a mutex that is released before the file is written.\<close>

definition on_acknowledge_check :: "string \<Rightarrow> 'w daemon \<Rightarrow> bool" where
  "on_acknowledge_check fp d \<longleftrightarrow> d_current_panic_fingerprint d = Some fp"

definition on_acknowledge_write ::
  "json_lib \<Rightarrow> sys_outcomes \<Rightarrow> nat \<Rightarrow> int \<Rightarrow> string \<Rightarrow> 'w daemon \<Rightarrow> (bool \<times> 'w daemon) outcome" where
  "on_acknowledge_write J S pid log_now fp d =
     (case jl_dump J 2 (ack_json fp) of
        Inl ex \<Rightarrow> Some (Inl ex)
      | Inr content \<Rightarrow>
          (case atomic_write_file S pid (crash_state_path (state_dir (d_config d))) content (sy_fs d) of
             (tr, fs', r) \<Rightarrow> map_option (\<lambda>x. Inr (case x of
                Inl e \<Rightarrow> (False, on_log (log_probe_error log_now ''crash''
                   (''failed to persist crash acknowledgement: '' @ afe_what e)) (d\<lparr>sy_fs := fs'\<rparr>))
              | Inr _ \<Rightarrow> (True, d\<lparr>sy_fs := fs', d_crash_ack_pending := True, d_trigger_requested := True\<rparr>))) r))"

definition on_acknowledge_store ::
  "json_lib \<Rightarrow> sys_outcomes \<Rightarrow> nat \<Rightarrow> int \<Rightarrow> string \<Rightarrow> 'w daemon \<Rightarrow> (bool \<times> 'w daemon) outcome" where
  "on_acknowledge_store J S pid log_now fp d =
     (if on_acknowledge_check fp d then on_acknowledge_write J S pid log_now fp d else Some (Inr (False, d)))"

lemmas on_acknowledge_defs = on_acknowledge_store_def on_acknowledge_check_def on_acknowledge_write_def

definition on_acknowledge ::
  "json_lib \<Rightarrow> sys_outcomes \<Rightarrow> nat \<Rightarrow> int \<Rightarrow> string \<Rightarrow> 'w daemon \<Rightarrow> (bool \<times> 'w daemon) outcome" where
  "on_acknowledge J S pid log_now fp d =
     map_option (map_sum id (\<lambda>(ok, d'). (ok, if ok then wake d' else d')))
       (on_acknowledge_store J S pid log_now fp d)"

definition on_rauc_completed_store :: "int \<Rightarrow> 'w daemon \<Rightarrow> 'w daemon" where
  "on_rauc_completed_store result d =
     on_log (log_info (''RAUC Completed signal received (result='' @ show_int result @
       ''); scheduling immediate update check'')) d
     \<lparr>d_rauc_update_pending := True, d_trigger_requested := True\<rparr>"

definition on_rauc_completed :: "int \<Rightarrow> 'w daemon \<Rightarrow> 'w daemon" where
  "on_rauc_completed result d = wake (on_rauc_completed_store result d)"

section \<open>The phases of a cycle\<close>

definition update_watchdog_heartbeat :: "int \<Rightarrow> 'w daemon \<Rightarrow> 'w daemon" where
  "update_watchdog_heartbeat us d = d\<lparr>d_watchdog_heartbeat_us := us\<rparr>"

definition drain_netlink :: "cycle_env \<Rightarrow> 'w daemon \<Rightarrow> 'w daemon" where
  "drain_netlink E d =
     (case d_nl_monitor d of
        None \<Rightarrow> d
      | Some M \<Rightarrow>
          (case drain_events (nm_queue M @ ce_datagrams E) (nm_cache M) of
             (q, c) \<Rightarrow> d\<lparr>d_nl_monitor := Some (M\<lparr>nm_queue := q, nm_cache := c\<rparr>)\<rparr>))"

definition ingest_journal :: "'w sd_api \<Rightarrow> 'w daemon \<Rightarrow> 'w daemon outcome" where
  "ingest_journal A d =
     (case d_journal_reader d of
        None \<Rightarrow> Some (Inr d)
      | Some r \<Rightarrow> map_option (\<lambda>(r', w'). Inr (d\<lparr>d_journal_reader := Some r', sy_journal := w'\<rparr>))
          (ingest A (d_config d) r (sy_journal d)))"

text \<open>
  The instances of the lambda \<^verbatim>\<open>maybe_collect\<close>: where a section keeps its schedule and its value,
  and how a new value is stamped.
\<close>

record 't slot =
  sl_name :: string
  sl_schedule :: "schedules \<Rightarrow> probe_schedule"
  sl_set_schedule :: "probe_schedule \<Rightarrow> schedules \<Rightarrow> schedules"
  sl_value :: "snapshot_state \<Rightarrow> 't"
  sl_set_value :: "'t \<Rightarrow> snapshot_state \<Rightarrow> snapshot_state"
  sl_stamp :: "time_point \<Rightarrow> 't \<Rightarrow> 't"

definition device_slot :: "device_info slot" where
  "device_slot = \<lparr>sl_name = ''device'', sl_schedule = sch_device, sl_set_schedule = (\<lambda>p s. s\<lparr>sch_device := p\<rparr>),
     sl_value = snap_device, sl_set_value = (\<lambda>x s. s\<lparr>snap_device := x\<rparr>), sl_stamp = (\<lambda>_ x. x)\<rparr>"

definition boot_slot :: "boot_status slot" where
  "boot_slot = \<lparr>sl_name = ''boot'', sl_schedule = sch_boot, sl_set_schedule = (\<lambda>p s. s\<lparr>sch_boot := p\<rparr>),
     sl_value = snap_boot, sl_set_value = (\<lambda>x s. s\<lparr>snap_boot := x\<rparr>), sl_stamp = fresh_stamp put_boot\<rparr>"

definition services_slot :: "services_status slot" where
  "services_slot = \<lparr>sl_name = ''services'', sl_schedule = sch_services,
     sl_set_schedule = (\<lambda>p s. s\<lparr>sch_services := p\<rparr>), sl_value = snap_services,
     sl_set_value = (\<lambda>x s. s\<lparr>snap_services := x\<rparr>), sl_stamp = fresh_stamp put_services\<rparr>"

definition resources_slot :: "resources_status slot" where
  "resources_slot = \<lparr>sl_name = ''resources'', sl_schedule = sch_resources,
     sl_set_schedule = (\<lambda>p s. s\<lparr>sch_resources := p\<rparr>), sl_value = snap_resources,
     sl_set_value = (\<lambda>x s. s\<lparr>snap_resources := x\<rparr>), sl_stamp = fresh_stamp put_resources\<rparr>"

definition time_sync_slot :: "time_sync_status slot" where
  "time_sync_slot = \<lparr>sl_name = ''time_sync'', sl_schedule = sch_time_sync,
     sl_set_schedule = (\<lambda>p s. s\<lparr>sch_time_sync := p\<rparr>), sl_value = snap_time_sync,
     sl_set_value = (\<lambda>x s. s\<lparr>snap_time_sync := x\<rparr>), sl_stamp = fresh_stamp put_time_sync\<rparr>"

definition update_slot :: "update_status slot" where
  "update_slot = \<lparr>sl_name = ''update'', sl_schedule = sch_update,
     sl_set_schedule = (\<lambda>p s. s\<lparr>sch_update := p\<rparr>), sl_value = snap_update,
     sl_set_value = (\<lambda>x s. s\<lparr>snap_update := x\<rparr>), sl_stamp = fresh_stamp put_update\<rparr>"

definition journal_slot :: "journal_status slot" where
  "journal_slot = \<lparr>sl_name = ''journal'', sl_schedule = sch_journal,
     sl_set_schedule = (\<lambda>p s. s\<lparr>sch_journal := p\<rparr>), sl_value = snap_journal,
     sl_set_value = (\<lambda>x s. s\<lparr>snap_journal := x\<rparr>), sl_stamp = fresh_stamp put_journal\<rparr>"

definition crash_slot :: "crash_status slot" where
  "crash_slot = \<lparr>sl_name = ''crash'', sl_schedule = sch_crash,
     sl_set_schedule = (\<lambda>p s. s\<lparr>sch_crash := p\<rparr>), sl_value = snap_crash,
     sl_set_value = (\<lambda>x s. s\<lparr>snap_crash := x\<rparr>), sl_stamp = fresh_stamp put_crash\<rparr>"

definition slot_due :: "'t slot \<Rightarrow> cycle_env \<Rightarrow> 'w daemon \<Rightarrow> bool" where
  "slot_due sl E d \<longleftrightarrow> is_due (ce_now E) (sl_schedule sl (d_schedules d))"

definition collect_slot :: "'t slot \<Rightarrow> cycle_env \<Rightarrow> 't probe_result \<Rightarrow> 'w daemon \<Rightarrow> 'w daemon" where
  "collect_slot sl E result d =
     (case maybe_collect (sl_stamp sl (ce_wall E (sl_name sl))) (ce_now E) (ce_log_now E (sl_name sl)) (sl_name sl)
        result (sl_schedule sl (d_schedules d), sl_value sl (d_last_known_good d), sy_log d) of
        (p, x, lg) \<Rightarrow> d\<lparr>d_schedules := sl_set_schedule sl p (d_schedules d),
          d_last_known_good := sl_set_value sl x (d_last_known_good d), sy_log := lg\<rparr>)"

definition collect_device :: "cycle_env \<Rightarrow> 'w daemon \<Rightarrow> 'w daemon" where
  "collect_device E d = collect_slot device_slot E (device_collect (d_config d) (ce_device E)) d"

text \<open>The boot probe writes its state file and logs when that fails; it is called only when due.\<close>

definition collect_boot :: "json_lib \<Rightarrow> cycle_env \<Rightarrow> 'w daemon \<Rightarrow> 'w daemon outcome" where
  "collect_boot J E d =
     (if \<not> slot_due boot_slot E d then Some (Inr d)
      else case boot_collect J (state_dir (d_config d)) (ce_boot E) (sy_fs d) of
        (tr, fs', out) \<Rightarrow> map_option (map_sum id (\<lambda>(result, msgs).
          collect_slot boot_slot E result
            (on_log (fold (log_probe_error (ce_log_now E ''boot'') ''boot'') msgs) (d\<lparr>sy_fs := fs'\<rparr>)))) out)"

definition journal_buffer :: "'w daemon \<Rightarrow> journal_entry list option" where
  "journal_buffer d = map_option jr_buffer (d_journal_reader d)"

definition collect_services :: "cycle_env \<Rightarrow> 'w daemon \<Rightarrow> 'w daemon" where
  "collect_services E d = collect_slot services_slot E
     (services_collect (d_config d) \<lparr>sv_bus = (if d_dbus_connection d then Some (ce_units E) else None),
        sv_journal = journal_buffer d, sv_clock = ce_unit_clock E\<rparr>
        (monitored_units (d_config d) (monitored_services (d_config d)))) d"

definition netlink_cache :: "'w daemon \<Rightarrow> nl_cache" where
  "netlink_cache d = (case d_nl_monitor d of Some M \<Rightarrow> nm_cache M | None \<Rightarrow> [])"

definition collect_resources :: "cycle_env \<Rightarrow> 'w daemon \<Rightarrow> 'w daemon outcome" where
  "collect_resources E d =
     (if \<not> slot_due resources_slot E d then Some (Inr d)
      else map_option (\<lambda>(result, P). Inr (collect_slot resources_slot E result (d\<lparr>d_resources_probe := P\<rparr>)))
        (resources_collect (d_config d) (ce_resources E) (netlink_cache d) (d_resources_probe d)))"

definition collect_time_sync :: "cycle_env \<Rightarrow> 'w daemon \<Rightarrow> 'w daemon" where
  "collect_time_sync E d = collect_slot time_sync_slot E
     (time_sync_collect (d_config d)
        ((ce_time E)\<lparr>te_ntp := (if d_dbus_connection d then te_ntp (ce_time E) else None)\<rparr>)) d"

definition take_rauc_pending :: "cycle_env \<Rightarrow> 'w daemon \<Rightarrow> 'w daemon" where
  "take_rauc_pending E d =
     (if d_rauc_update_pending d
      then d\<lparr>d_rauc_update_pending := False,
             d_schedules := (d_schedules d)\<lparr>sch_update := (sch_update (d_schedules d))\<lparr>ps_next_run := ce_now E\<rparr>\<rparr>\<rparr>
      else d)"

definition collect_update :: "json_lib \<Rightarrow> cycle_env \<Rightarrow> 'w daemon \<Rightarrow> 'w daemon" where
  "collect_update J E d = collect_slot update_slot E
     (update_collect J (d_config d) (if d_dbus_connection d then ce_slots E else None)
        (fs_read (sy_fs d) update_state_path)) d"

definition collect_journal :: "cycle_env \<Rightarrow> 'w daemon \<Rightarrow> 'w daemon" where
  "collect_journal E d = collect_slot journal_slot E
     (journal_collect (d_config d) (ce_journal_severity_clock E) (ce_journal_count_clock E) (ce_journal_now E)
        (journal_buffer d)) d"

definition take_ack_pending :: "cycle_env \<Rightarrow> 'w daemon \<Rightarrow> 'w daemon" where
  "take_ack_pending E d =
     (if d_crash_ack_pending d
      then d\<lparr>d_crash_ack_pending := False,
             d_schedules := (d_schedules d)\<lparr>sch_crash := (sch_crash (d_schedules d))\<lparr>ps_next_run := ce_now E\<rparr>\<rparr>\<rparr>
      else d)"

definition crash_env_of :: "cycle_env \<Rightarrow> 'w daemon \<Rightarrow> crash_env" where
  "crash_env_of E d = (ce_crash E)\<lparr>cr_state := fs_read (sy_fs d) (crash_state_path (state_dir (d_config d)))\<rparr>"

definition collect_crash :: "json_lib \<Rightarrow> cycle_env \<Rightarrow> 'w daemon \<Rightarrow> 'w daemon" where
  "collect_crash J E d = collect_slot crash_slot E (crash_collect J (crash_env_of E d)) d"

definition mark_sections :: "cycle_env \<Rightarrow> 'w daemon \<Rightarrow> 'w daemon" where
  "mark_sections E d =
     (let t = ce_now E; s = d_schedules d; x = d_last_known_good d in
      d\<lparr>d_last_known_good := x\<lparr>
        snap_boot := mark_stale boot_freshness put_boot t (sch_boot s) (snap_boot x),
        snap_services := mark_stale services_freshness put_services t (sch_services s) (snap_services x),
        snap_resources := mark_stale resources_freshness put_resources t (sch_resources s) (snap_resources x),
        snap_time_sync := mark_stale time_sync_freshness put_time_sync t (sch_time_sync s) (snap_time_sync x),
        snap_update := mark_stale update_freshness put_update t (sch_update s) (snap_update x),
        snap_journal := mark_stale journal_freshness put_journal t (sch_journal s) (snap_journal x),
        snap_crash := mark_stale crash_freshness put_crash t (sch_crash s) (snap_crash x)\<rparr>\<rparr>)"

definition aggregate_known_good :: "cycle_env \<Rightarrow> 'w daemon \<Rightarrow> snapshot_state" where
  "aggregate_known_good E d =
     (let x = d_last_known_good d in
      (aggregate (d_config d) (ce_hardware_concurrency E) (ce_generated_at E) (snap_device x) (snap_boot x)
         (snap_services x) (snap_resources x) (snap_time_sync x) (snap_update x) (snap_journal x) (snap_crash x))
      \<lparr>snap_cycle := d_cycle_count d + 1\<rparr>)"

definition log_write :: "cycle_env \<Rightarrow> write_outcome \<Rightarrow> log_state \<Rightarrow> log_state option" where
  "log_write E out lg =
     (case out of
        Write_Exception ex \<Rightarrow> Some (writer_error_event (ce_log_now E ''writer'') (''Snapshot serialization failed: '' @ ex) lg)
      | Write_Result None \<Rightarrow> None
      | Write_Result (Some (Inl e)) \<Rightarrow>
          Some (writer_error_event (ce_log_now E ''writer'') (''Failed to write snapshot: '' @ we_message e) lg)
      | Write_Result (Some (Inr _)) \<Rightarrow> Some lg)"

definition write_snapshot :: "json_lib \<Rightarrow> cycle_env \<Rightarrow> 'w daemon \<Rightarrow> 'w daemon outcome" where
  "write_snapshot J E d =
     (let state = aggregate_known_good E d in
      case writer_write J (d_writer d) (ce_mkdir E) (ce_sys E) (ce_pid E) state (sy_fs d) of
        (tr, fs', out) \<Rightarrow> map_option (\<lambda>lg. Inr (d\<lparr>d_cycle_count := d_cycle_count d + 1, sy_fs := fs', sy_log := lg,
            d_prev_sev := d_last_severity d, d_current_state := state,
            d_last_severity := sum_severity (snap_summary state)\<rparr>)) (log_write E out (sy_log d)))"

definition panic_fingerprint :: "crash_status \<Rightarrow> string option" where
  "panic_fingerprint c = (if panic_count c > 0 then crash_fingerprint c else None)"

definition publish_fingerprint :: "'w daemon \<Rightarrow> 'w daemon" where
  "publish_fingerprint d = d\<lparr>d_current_panic_fingerprint := panic_fingerprint (snap_crash (d_current_state d))\<rparr>"

definition active_panic :: "crash_status \<Rightarrow> bool" where
  "active_panic c \<longleftrightarrow> panic_count c > 0 \<and> \<not> acknowledged c \<and> panic_current_boot c \<and> crash_fingerprint c \<noteq> None"

definition crash_alarm_message :: "crash_status \<Rightarrow> string" where
  "crash_alarm_message c = ''kernel panic detected this boot: '' @ show_nat (unat (panic_count c)) @
     '' panic artifact(s), fingerprint='' @ the (crash_fingerprint c)"

text \<open>The crash alarm and its latch.\<close>

definition crash_alarm :: "crash_status \<Rightarrow> string option \<Rightarrow> log_state \<Rightarrow> bus_signal list \<times> string option \<times> log_state" where
  "crash_alarm c latch lg =
     (if active_panic c then
        if latch \<noteq> crash_fingerprint c then
          (case emit_alarm ''crash'' (crash_alarm_message c) Sev_Crit lg of
             (sigs, lg') \<Rightarrow> (sigs, crash_fingerprint c, lg'))
        else ([], latch, lg)
      else ([], None, lg))"

definition report_bus :: "'w daemon \<Rightarrow> 'w daemon" where
  "report_bus d =
     (case d_health_manager d of
        None \<Rightarrow> d
      | Some hm \<Rightarrow>
          (case update_severity (d_last_severity d) (d_prev_sev d) hm (sy_log d) of
             (hm1, sigs1, lg1) \<Rightarrow>
               (case crash_alarm (snap_crash (d_current_state d)) (d_last_alarmed_crash_fp d) lg1 of
                  (sigs2, latch, lg2) \<Rightarrow>
                    d\<lparr>d_health_manager := Some (update_recent_logs (journal_recent_errors (snap_journal (d_current_state d))) hm1),
                      d_last_alarmed_crash_fp := latch, sy_log := lg2, sy_signals := sy_signals d @ sigs1 @ sigs2\<rparr>)))"

text \<open>The bytes of the dash between version and severity.\<close>

definition em_dash :: string where
  "em_dash = [CHR 0xE2, CHR 0x80, CHR 0x94]"

definition notify_status :: "string \<Rightarrow> string \<Rightarrow> 'w daemon \<Rightarrow> 'w daemon" where
  "notify_status version sev d = d\<lparr>sy_notify := sy_notify d @ [''STATUS=v'' @ version @ '' '' @ em_dash @ '' '' @ sev]\<rparr>"

definition log_snapshot :: "cycle_env \<Rightarrow> 'w daemon \<Rightarrow> 'w daemon" where
  "log_snapshot E d =
     (let sev = severity_string (d_last_severity d) in
      update_watchdog_heartbeat (ce_heartbeat_last E) (notify_status (ce_version E) sev
        (on_log (snapshot_collected (ce_log_now E ''snapshot'') sev
           (degraded_domains (sum_domains (snap_summary (d_current_state d))))) d)))"

section \<open>The cycle\<close>

definition total_phase :: "('d \<Rightarrow> 'd) \<Rightarrow> 'd \<Rightarrow> 'd outcome" where
  "total_phase f d = Some (Inr (f d))"

fun run_phases :: "('d \<Rightarrow> 'd outcome) list \<Rightarrow> 'd \<Rightarrow> 'd outcome" where
  "run_phases [] d = Some (Inr d)"
| "run_phases (f # fs) d = (case f d of Some (Inr d') \<Rightarrow> run_phases fs d' | r \<Rightarrow> r)"

definition refresh_phases :: "'w sd_api \<Rightarrow> cycle_env \<Rightarrow> ('w daemon \<Rightarrow> 'w daemon outcome) list" where
  "refresh_phases A E =
     [total_phase (update_watchdog_heartbeat (ce_heartbeat_first E)), total_phase (drain_netlink E), ingest_journal A]"

definition collect_phases :: "json_lib \<Rightarrow> cycle_env \<Rightarrow> ('w daemon \<Rightarrow> 'w daemon outcome) list" where
  "collect_phases J E =
     [total_phase (collect_device E), collect_boot J E, total_phase (collect_services E), collect_resources E,
      total_phase (collect_time_sync E), total_phase (take_rauc_pending E), total_phase (collect_update J E),
      total_phase (collect_journal E), total_phase (take_ack_pending E), total_phase (collect_crash J E)]"

definition publish_phases :: "json_lib \<Rightarrow> cycle_env \<Rightarrow> ('w daemon \<Rightarrow> 'w daemon outcome) list" where
  "publish_phases J E =
     [total_phase (mark_sections E), write_snapshot J E, total_phase publish_fingerprint, total_phase report_bus,
      total_phase (log_snapshot E)]"

definition cycle_phases :: "json_lib \<Rightarrow> 'w sd_api \<Rightarrow> cycle_env \<Rightarrow> ('w daemon \<Rightarrow> 'w daemon outcome) list" where
  "cycle_phases J A E = refresh_phases A E @ collect_phases J E @ publish_phases J E"

definition collection_cycle :: "json_lib \<Rightarrow> 'w sd_api \<Rightarrow> cycle_env \<Rightarrow> 'w daemon \<Rightarrow> 'w daemon outcome" where
  "collection_cycle J A E = run_phases (cycle_phases J A E)"

definition collect_now :: "json_lib \<Rightarrow> 'w sd_api \<Rightarrow> cycle_env \<Rightarrow> 'w daemon \<Rightarrow> 'w daemon outcome" where
  "collect_now J A E = collection_cycle J A E"

definition current_state :: "'w daemon \<Rightarrow> snapshot_state" where
  "current_state d = d_current_state d"

definition is_running :: "'w daemon \<Rightarrow> bool" where
  "is_running d = d_running d"

end
