(* ===== verification/Daemon_Cycle.thy ===== *)
theory Daemon_Cycle
  imports Daemon
begin

text \<open>
  What one collection cycle of \<open>Daemon\<close> does: what it publishes, when it returns, which
  exceptions can leave it, the crash alarms of a sequence of cycles, and how requests from the
  bus reach the next cycle.
\<close>

section \<open>Running phases\<close>

lemma run_phases_append:
  "run_phases (fs @ gs) d = (case run_phases fs d of Some (Inr d') \<Rightarrow> run_phases gs d' | r \<Rightarrow> r)"
  by (induction fs arbitrary: d) (auto split: option.splits sum.splits)

lemma run_phases_keeps:
  assumes "list_all (\<lambda>f. \<forall>d d'. f d = Some (Inr d') \<longrightarrow> g d' = g d) fs" and "run_phases fs d = Some (Inr d')"
  shows "g d' = g d"
  using assms by (induction fs arbitrary: d) (auto split: option.splits sum.splits)

lemma total_phase_iff [simp]: "total_phase f d = Some (Inr d') \<longleftrightarrow> d' = f d"
  by (auto simp: total_phase_def)

lemma total_phase_returns [simp]: "total_phase f d \<noteq> None"
  by (simp add: total_phase_def)

lemma collect_slot_frame [simp]:
  "d_config (collect_slot sl E r d) = d_config d"
  "d_nl_monitor (collect_slot sl E r d) = d_nl_monitor d"
  "d_journal_reader (collect_slot sl E r d) = d_journal_reader d"
  "d_resources_probe (collect_slot sl E r d) = d_resources_probe d"
  "d_writer (collect_slot sl E r d) = d_writer d"
  "d_dbus_connection (collect_slot sl E r d) = d_dbus_connection d"
  "d_health_manager (collect_slot sl E r d) = d_health_manager d"
  "d_rauc_proxy (collect_slot sl E r d) = d_rauc_proxy d"
  "d_rauc_update_pending (collect_slot sl E r d) = d_rauc_update_pending d"
  "d_cycle_count (collect_slot sl E r d) = d_cycle_count d"
  "d_running (collect_slot sl E r d) = d_running d"
  "d_shutdown_requested (collect_slot sl E r d) = d_shutdown_requested d"
  "d_trigger_requested (collect_slot sl E r d) = d_trigger_requested d"
  "d_current_state (collect_slot sl E r d) = d_current_state d"
  "d_last_severity (collect_slot sl E r d) = d_last_severity d"
  "d_last_alarmed_crash_fp (collect_slot sl E r d) = d_last_alarmed_crash_fp d"
  "d_current_panic_fingerprint (collect_slot sl E r d) = d_current_panic_fingerprint d"
  "d_crash_ack_pending (collect_slot sl E r d) = d_crash_ack_pending d"
  "d_wakeup_fd (collect_slot sl E r d) = d_wakeup_fd d"
  "d_last_trigger_time (collect_slot sl E r d) = d_last_trigger_time d"
  "g_shutdown_signal (collect_slot sl E r d) = g_shutdown_signal d"
  "g_wakeup_fd (collect_slot sl E r d) = g_wakeup_fd d"
  "sy_eventfd (collect_slot sl E r d) = sy_eventfd d"
  "sy_signals (collect_slot sl E r d) = sy_signals d"
  "sy_notify (collect_slot sl E r d) = sy_notify d"
  "sy_fs (collect_slot sl E r d) = sy_fs d"
  "sy_journal (collect_slot sl E r d) = sy_journal d"
  unfolding collect_slot_def by (simp_all split: prod.splits)

lemma collect_boot_cases:
  assumes "collect_boot J E d = Some (Inr d')"
  obtains (idle) "d' = d"
  | (ran) tr fs' result msgs where
      "boot_collect J (state_dir (d_config d)) (ce_boot E) (sy_fs d) = (tr, fs', Some (Inr (result, msgs)))"
      "d' = collect_slot boot_slot E result
         (on_log (fold (log_probe_error (ce_log_now E ''boot'') ''boot'') msgs) (d\<lparr>sy_fs := fs'\<rparr>))"
proof (cases "slot_due boot_slot E d")
  case True
  obtain tr fs' out where b: "boot_collect J (state_dir (d_config d)) (ce_boot E) (sy_fs d) = (tr, fs', out)"
    by (metis prod_cases3)
  obtain x where "out = Some x" using assms True b by (cases out) (simp_all add: collect_boot_def)
  moreover obtain result msgs where "x = Inr (result, msgs)"
    using assms True b \<open>out = Some x\<close> by (cases x) (auto simp: collect_boot_def)
  ultimately show thesis using assms True b by (intro ran) (auto simp: collect_boot_def)
next
  case False
  show thesis by (rule idle) (use assms False in \<open>simp add: collect_boot_def\<close>)
qed

text \<open>The members that collecting leaves alone.\<close>

definition published :: "'w daemon \<Rightarrow> _" where
  "published d = (d_config d, d_writer d, d_health_manager d, d_cycle_count d, d_current_state d, d_last_severity d,
     d_last_alarmed_crash_fp d, d_current_panic_fingerprint d, sy_signals d, sy_notify d)"

lemmas plain_phase_defs = collect_device_def collect_services_def collect_time_sync_def collect_update_def
  collect_journal_def collect_crash_def update_watchdog_heartbeat_def take_rauc_pending_def take_ack_pending_def

lemma collecting_keeps_published:
  assumes "run_phases (refresh_phases A E @ collect_phases J E) d = Some (Inr d')"
  shows "published d' = published d"
proof (rule run_phases_keeps [OF _ assms])
  have "published d' = published d" if "collect_boot J E d = Some (Inr d')" for d d' :: "'a daemon"
    using that by (cases rule: collect_boot_cases) (simp_all add: published_def on_log_def)
  moreover have "published d' = published d" if "collect_resources E d = Some (Inr d')" for d d' :: "'a daemon"
    using that by (auto simp: collect_resources_def published_def split: if_splits prod.splits)
  moreover have "published d' = published d" if "ingest_journal A d = Some (Inr d')" for d d' :: "'a daemon"
    using that by (auto simp: ingest_journal_def published_def split: option.splits)
  moreover have "published (drain_netlink E d) = published d" for d :: "'a daemon"
    by (auto simp: drain_netlink_def published_def split: option.splits prod.splits)
  ultimately show "list_all (\<lambda>f. \<forall>d d'. f d = Some (Inr d') \<longrightarrow> published d' = published d) (refresh_phases A E @ collect_phases J E)"
    by (simp add: refresh_phases_def collect_phases_def plain_phase_defs) (simp add: published_def)
qed

section \<open>Publishing\<close>

lemma publish_phases_run:
  assumes "run_phases (publish_phases J E) d = Some (Inr d')"
  obtains tr fs' out lg where
    "writer_write J (d_writer d) (ce_mkdir E) (ce_sys E) (ce_pid E) (aggregate_known_good E (mark_sections E d)) (sy_fs d)
       = (tr, fs', out)"
    "log_write E out (sy_log d) = Some lg"
    "d' = log_snapshot E (report_bus (publish_fingerprint ((mark_sections E d)\<lparr>d_cycle_count := d_cycle_count d + 1,
       sy_fs := fs', sy_log := lg, d_prev_sev := d_last_severity d,
       d_current_state := aggregate_known_good E (mark_sections E d),
       d_last_severity := sum_severity (snap_summary (aggregate_known_good E (mark_sections E d)))\<rparr>)))"
proof -
  have same: "d_writer (mark_sections E d) = d_writer d" "sy_fs (mark_sections E d) = sy_fs d"
      "sy_log (mark_sections E d) = sy_log d" "d_cycle_count (mark_sections E d) = d_cycle_count d"
      "d_last_severity (mark_sections E d) = d_last_severity d"
    by (simp_all add: mark_sections_def Let_def)
  obtain tr fs' out where w: "writer_write J (d_writer d) (ce_mkdir E) (ce_sys E) (ce_pid E)
      (aggregate_known_good E (mark_sections E d)) (sy_fs d) = (tr, fs', out)"
    by (metis prod_cases3)
  obtain lg where lg: "log_write E out (sy_log d) = Some lg"
    using assms by (cases "log_write E out (sy_log d)")
      (simp_all add: publish_phases_def total_phase_def write_snapshot_def Let_def same w)
  show thesis
    by (rule that [OF w lg])
      (use assms in \<open>simp add: publish_phases_def total_phase_def write_snapshot_def Let_def same w lg\<close>)
qed

lemma collection_cycle_split:
  assumes "collection_cycle J A E d = Some (Inr d')"
  obtains d1 where "run_phases (refresh_phases A E @ collect_phases J E) d = Some (Inr d1)"
    "run_phases (publish_phases J E) d1 = Some (Inr d')"
  using assms
  by (auto simp: collection_cycle_def cycle_phases_def run_phases_append simp flip: append_assoc split: option.splits sum.splits)

text \<open>What the report to the bus and the log leave alone.\<close>

lemma report_frame [simp]:
  "d_config (report_bus d) = d_config d" "d_last_known_good (report_bus d) = d_last_known_good d"
  "d_cycle_count (report_bus d) = d_cycle_count d" "d_current_state (report_bus d) = d_current_state d"
  "d_last_severity (report_bus d) = d_last_severity d" "sy_fs (report_bus d) = sy_fs d"
  "d_current_panic_fingerprint (report_bus d) = d_current_panic_fingerprint d" "sy_notify (report_bus d) = sy_notify d"
  "d_writer (report_bus d) = d_writer d"
  by (simp_all add: report_bus_def split: option.splits prod.splits)

lemma log_snapshot_frame [simp]:
  "d_config (log_snapshot E d) = d_config d" "d_last_known_good (log_snapshot E d) = d_last_known_good d"
  "d_cycle_count (log_snapshot E d) = d_cycle_count d" "d_current_state (log_snapshot E d) = d_current_state d"
  "d_last_severity (log_snapshot E d) = d_last_severity d" "sy_fs (log_snapshot E d) = sy_fs d"
  "d_current_panic_fingerprint (log_snapshot E d) = d_current_panic_fingerprint d"
  "d_health_manager (log_snapshot E d) = d_health_manager d" "sy_signals (log_snapshot E d) = sy_signals d"
  "d_last_alarmed_crash_fp (log_snapshot E d) = d_last_alarmed_crash_fp d" "d_writer (log_snapshot E d) = d_writer d"
  "sy_notify (log_snapshot E d) = sy_notify d @
     [''STATUS=v'' @ ce_version E @ '' '' @ em_dash @ '' '' @ severity_string (d_last_severity d)]"
  by (simp_all add: log_snapshot_def update_watchdog_heartbeat_def notify_status_def on_log_def Let_def)

definition is_crash_alarm :: "bus_signal \<Rightarrow> bool" where
  "is_crash_alarm g = (case g of Health_Alarm c _ _ \<Rightarrow> c = ''crash'' | Properties_Changed _ \<Rightarrow> False)"

lemma update_severity_facts:
  assumes "update_severity new prev hm lg = (hm', sigs, lg')"
  shows "hm_severity_str hm' = severity_string new \<and> filter is_crash_alarm sigs = []"
  using assms by (auto simp: update_severity_def Let_def is_crash_alarm_def split: if_splits)

text \<open>The latch, and the alarms of one report.\<close>

definition alarmed_fp :: "crash_status \<Rightarrow> string option" where
  "alarmed_fp c = (if active_panic c then crash_fingerprint c else None)"

definition new_panic_alarms :: "crash_status \<Rightarrow> crash_status \<Rightarrow> bus_signal list" where
  "new_panic_alarms c c' =
     (if active_panic c' \<and> \<not> (active_panic c \<and> crash_fingerprint c = crash_fingerprint c')
      then [Health_Alarm ''crash'' (crash_alarm_message c') ''crit''] else [])"

lemma crash_alarm_facts:
  "crash_alarm c' (alarmed_fp c) lg = (sigs, latch, lg') \<Longrightarrow>
     latch = alarmed_fp c' \<and> filter is_crash_alarm sigs = new_panic_alarms c c'"
  by (auto simp: crash_alarm_def alarmed_fp_def new_panic_alarms_def emit_alarm_def is_crash_alarm_def active_panic_def
      split: if_splits)

lemma report_bus_severity:
  assumes "d_health_manager d = Some hm"
  shows "\<exists>hm'. d_health_manager (report_bus d) = Some hm' \<and> hm_severity_str hm' = severity_string (d_last_severity d)
    \<and> hm_logs_cache hm' = journal_recent_errors (snap_journal (d_current_state d))"
  using assms update_severity_facts
  by (auto simp: report_bus_def update_recent_logs_def split: prod.splits)

lemma report_bus_alarms:
  assumes "d_health_manager d = Some hm" and "d_last_alarmed_crash_fp d = alarmed_fp c"
  shows "\<exists>sigs. d_last_alarmed_crash_fp (report_bus d) = alarmed_fp (snap_crash (d_current_state d))
    \<and> sy_signals (report_bus d) = sy_signals d @ sigs
    \<and> filter is_crash_alarm sigs = new_panic_alarms c (snap_crash (d_current_state d))"
proof -
  obtain hm1 sigs1 lg1 where u: "update_severity (d_last_severity d) (d_prev_sev d) hm (sy_log d) = (hm1, sigs1, lg1)"
    by (metis prod_cases3)
  obtain sigs2 latch lg2 where a: "crash_alarm (snap_crash (d_current_state d)) (d_last_alarmed_crash_fp d) lg1 = (sigs2, latch, lg2)"
    by (metis prod_cases3)
  show ?thesis
    using update_severity_facts [OF u] crash_alarm_facts [OF a [unfolded assms(2)]]
    by (simp add: report_bus_def assms(1) u a)
qed

section \<open>Sequences of cycles\<close>

text \<open>The states after each cycle.\<close>

fun cycle_trace :: "json_lib \<Rightarrow> 'w sd_api \<Rightarrow> cycle_env list \<Rightarrow> 'w daemon \<Rightarrow> 'w daemon list outcome" where
  "cycle_trace J A [] d = Some (Inr [])"
| "cycle_trace J A (E # Es) d =
     (case collection_cycle J A E d of
        Some (Inr d') \<Rightarrow> map_option (map_sum id ((#) d')) (cycle_trace J A Es d')
      | Some (Inl ex) \<Rightarrow> Some (Inl ex)
      | None \<Rightarrow> None)"

lemma cycle_trace_Cons:
  assumes "cycle_trace J A (E # Es) d = Some (Inr ds)"
  obtains d' ds' where "collection_cycle J A E d = Some (Inr d')" "cycle_trace J A Es d' = Some (Inr ds')" "ds = d' # ds'"
proof (cases "collection_cycle J A E d")
  case (Some x)
  then show thesis
  proof (cases x)
    case (Inr d')
    moreover obtain y where "cycle_trace J A Es d' = Some y" using assms Some Inr by (cases "cycle_trace J A Es d'") auto
    moreover obtain ds' where "y = Inr ds'" using assms Some Inr calculation by (cases y) auto
    ultimately show thesis using assms Some by (intro that) auto
  qed (use assms in simp)
qed (use assms in simp)

text \<open>The facts of one cycle that the properties need.\<close>

lemma cycle_facts:
  assumes "collection_cycle J A E d = Some (Inr d')"
  shows "d_cycle_count d' = d_cycle_count d + 1"
    and "current_state d' = (let x = d_last_known_good d' in
      (aggregate (d_config d) (ce_hardware_concurrency E) (ce_generated_at E) (snap_device x) (snap_boot x)
         (snap_services x) (snap_resources x) (snap_time_sync x) (snap_update x) (snap_journal x) (snap_crash x))
      \<lparr>snap_cycle := d_cycle_count d'\<rparr>)"
    and "d_last_severity d' = sum_severity (snap_summary (current_state d'))"
    and "d_current_panic_fingerprint d' = panic_fingerprint (snap_crash (current_state d'))"
    and "sy_notify d' = sy_notify d @
      [''STATUS=v'' @ ce_version E @ '' '' @ em_dash @ '' '' @ severity_string (d_last_severity d')]"
    and "d_config d' = d_config d" and "d_writer d' = d_writer d"
proof -
  obtain d1 where c: "run_phases (refresh_phases A E @ collect_phases J E) d = Some (Inr d1)"
    and p: "run_phases (publish_phases J E) d1 = Some (Inr d')"
    using assms by (rule collection_cycle_split)
  have k: "published d1 = published d" by (rule collecting_keeps_published [OF c])
  obtain tr fs' out lg where w: "d' = log_snapshot E (report_bus (publish_fingerprint ((mark_sections E d1)\<lparr>d_cycle_count := d_cycle_count d1 + 1,
       sy_fs := fs', sy_log := lg, d_prev_sev := d_last_severity d1,
       d_current_state := aggregate_known_good E (mark_sections E d1),
       d_last_severity := sum_severity (snap_summary (aggregate_known_good E (mark_sections E d1)))\<rparr>)))"
    using p by (rule publish_phases_run)
  note simps = w current_state_def publish_fingerprint_def mark_sections_def Let_def aggregate_known_good_def
  show "d_cycle_count d' = d_cycle_count d + 1" "d_last_severity d' = sum_severity (snap_summary (current_state d'))"
    "d_current_panic_fingerprint d' = panic_fingerprint (snap_crash (current_state d'))" "d_config d' = d_config d" "d_writer d' = d_writer d"
    "sy_notify d' = sy_notify d @
      [''STATUS=v'' @ ce_version E @ '' '' @ em_dash @ '' '' @ severity_string (d_last_severity d')]"
    using k by (simp_all add: simps published_def)
  show "current_state d' = (let x = d_last_known_good d' in
      (aggregate (d_config d) (ce_hardware_concurrency E) (ce_generated_at E) (snap_device x) (snap_boot x)
         (snap_services x) (snap_resources x) (snap_time_sync x) (snap_update x) (snap_journal x) (snap_crash x))
      \<lparr>snap_cycle := d_cycle_count d'\<rparr>)"
    using k by (simp add: simps published_def)
qed

lemma cycle_report:
  assumes "collection_cycle J A E d = Some (Inr d')"
  obtains d2 where "d' = log_snapshot E (report_bus d2)" "d_health_manager d2 = d_health_manager d"
    "d_last_alarmed_crash_fp d2 = d_last_alarmed_crash_fp d" "sy_signals d2 = sy_signals d"
proof -
  obtain d1 where c: "run_phases (refresh_phases A E @ collect_phases J E) d = Some (Inr d1)"
    and p: "run_phases (publish_phases J E) d1 = Some (Inr d')"
    using assms by (rule collection_cycle_split)
  obtain fs' lg where w: "d' = log_snapshot E (report_bus (publish_fingerprint ((mark_sections E d1)\<lparr>d_cycle_count := d_cycle_count d1 + 1,
       sy_fs := fs', sy_log := lg, d_prev_sev := d_last_severity d1,
       d_current_state := aggregate_known_good E (mark_sections E d1),
       d_last_severity := sum_severity (snap_summary (aggregate_known_good E (mark_sections E d1)))\<rparr>)))"
    using p by (rule publish_phases_run)
  show thesis
    by (rule that [OF w])
      (use collecting_keeps_published [OF c] in \<open>simp_all add: publish_fingerprint_def mark_sections_def Let_def published_def\<close>)
qed

lemma cycle_severity_facts:
  assumes "collection_cycle J A E d = Some (Inr d')" and "d_health_manager d = Some hm"
  shows "\<exists>hm'. d_health_manager d' = Some hm' \<and> hm_severity_str hm' = severity_string (d_last_severity d')
    \<and> hm_logs_cache hm' = journal_recent_errors (snap_journal (current_state d'))"
  using assms(1)
  by (rule cycle_report) (use assms(2) report_bus_severity in \<open>auto simp: current_state_def\<close>)

lemma cycle_alarm_facts:
  assumes "collection_cycle J A E d = Some (Inr d')"
    and "d_health_manager d = Some hm" and "d_last_alarmed_crash_fp d = alarmed_fp c"
  shows "\<exists>sigs. d_last_alarmed_crash_fp d' = alarmed_fp (snap_crash (current_state d'))
    \<and> sy_signals d' = sy_signals d @ sigs \<and> filter is_crash_alarm sigs = new_panic_alarms c (snap_crash (current_state d'))"
proof -
  obtain d2 where d2: "d' = log_snapshot E (report_bus d2)" "d_health_manager d2 = d_health_manager d"
    "d_last_alarmed_crash_fp d2 = d_last_alarmed_crash_fp d" "sy_signals d2 = sy_signals d"
    using assms(1) by (rule cycle_report)
  show ?thesis using report_bus_alarms [of d2 hm c] assms(2,3) d2(2-4) by (simp add: d2(1) current_state_def)
qed

lemma cycle_clears_latch:
  assumes "collection_cycle J A E d = Some (Inr d')" and "d_health_manager d \<noteq> None"
    and "\<not> active_panic (snap_crash (current_state d'))"
  shows "d_last_alarmed_crash_fp d' = None"
proof -
  obtain d2 where d2: "d' = log_snapshot E (report_bus d2)" "d_health_manager d2 = d_health_manager d"
    using assms(1) by (rule cycle_report)
  with assms(3) have "\<not> active_panic (snap_crash (d_current_state d2))" by (simp add: current_state_def)
  then show ?thesis using assms(2) d2 by (auto simp: report_bus_def crash_alarm_def split: prod.splits)
qed

lemma active_panic_crit: "active_panic c \<Longrightarrow> evaluate_crash c = Sev_Crit"
  by (auto simp: active_panic_def evaluate_crash_def)

lemma evaluate_put_crash [simp]: "evaluate_crash (put_crash f c) = evaluate_crash c"
  by (simp add: evaluate_crash_def put_crash_def)

lemma get_recent_logs_take: "GetRecentLogs n hm = take (unat n) (hm_logs_cache hm)"
  by (auto simp: GetRecentLogs_def unat_eq_0 min_def)

lemma trace_alarms:
  assumes "cycle_trace J A Es d = Some (Inr ds)"
    and "d_health_manager d \<noteq> None" and "d_last_alarmed_crash_fp d = alarmed_fp (snap_crash (current_state d))"
  shows "filter is_crash_alarm (sy_signals (last (d # ds))) = filter is_crash_alarm (sy_signals d) @
    concat (map (\<lambda>(a, b). new_panic_alarms (snap_crash (current_state a)) (snap_crash (current_state b))) (zip (d # ds) ds))"
  using assms
proof (induction Es arbitrary: d ds)
  case (Cons E Es)
  obtain d' ds' where t: "collection_cycle J A E d = Some (Inr d')" "cycle_trace J A Es d' = Some (Inr ds')" "ds = d' # ds'"
    using Cons.prems(1) by (rule cycle_trace_Cons)
  obtain hm where hm: "d_health_manager d = Some hm" using Cons.prems(2) by blast
  obtain sigs where d': "d_last_alarmed_crash_fp d' = alarmed_fp (snap_crash (current_state d'))"
      "sy_signals d' = sy_signals d @ sigs"
      "filter is_crash_alarm sigs = new_panic_alarms (snap_crash (current_state d)) (snap_crash (current_state d'))"
    using cycle_alarm_facts [OF t(1) hm Cons.prems(3)] by blast
  have "d_health_manager d' \<noteq> None" using cycle_severity_facts [OF t(1) hm] by auto
  from Cons.IH [OF t(2) this d'(1)] show ?case using d' by (simp add: t(3))
qed simp

section \<open>Requests from the bus\<close>

text \<open>The throttle of \<open>TriggerSnapshot\<close>, for a configured interval.\<close>

definition trigger_allows :: "int \<Rightarrow> int \<Rightarrow> 'w daemon \<Rightarrow> bool \<times> 'w daemon" where
  "trigger_allows m t d = (if 0 < m \<and> trigger_min_interval (d_config d) = m then on_trigger t d else (False, d))"

lemma wake_frame [simp]:
  "d_config (wake d) = d_config d" "d_last_trigger_time (wake d) = d_last_trigger_time d" "sy_fs (wake d) = sy_fs d"
  "d_schedules (wake d) = d_schedules d" "d_crash_ack_pending (wake d) = d_crash_ack_pending d"
  "d_rauc_update_pending (wake d) = d_rauc_update_pending d" "d_health_manager (wake d) = d_health_manager d"
  "d_wakeup_fd (wake d) = d_wakeup_fd d" "g_shutdown_signal (wake d) = g_shutdown_signal d"
  "d_shutdown_requested (wake d) = d_shutdown_requested d" "g_wakeup_fd (wake d) = g_wakeup_fd d"
  "d_trigger_requested (wake d) = d_trigger_requested d" "d_dbus_connection (wake d) = d_dbus_connection d"
  by (simp_all add: wake_def eventfd_write_def)

lemma on_trigger_cases:
  assumes "on_trigger t d = (ok, d')"
  shows "d_config d' = d_config d \<and> (ok \<longrightarrow> d_last_trigger_time d' = Some t) \<and>
    (\<not> ok \<longrightarrow> d_last_trigger_time d' = d_last_trigger_time d) \<and>
    (ok \<longleftrightarrow> \<not> (0 < trigger_min_interval (d_config d) \<and> (\<exists>u. d_last_trigger_time d = Some u \<and>
       t - u < trigger_min_interval (d_config d) * ns_per_sec)))"
  using assms by (auto simp: on_trigger_def on_trigger_store_def on_log_def Let_def split: if_splits)

interpretation trig: throttle "trigger_allows m" d_last_trigger_time "m * ns_per_sec" for m
proof unfold_locales
  show "d_last_trigger_time s' = Some t \<and> (\<forall>u. d_last_trigger_time s = Some u \<longrightarrow> m * ns_per_sec \<le> t - u)"
    if "trigger_allows m t s = (True, s')" for t s and s' :: "'a daemon"
    using that on_trigger_cases [of t s True s'] by (auto simp: trigger_allows_def split: if_splits)
  show "d_last_trigger_time s' = d_last_trigger_time s" if "trigger_allows m t s = (False, s')" for t s and s' :: "'a daemon"
    using that on_trigger_cases [of t s False s'] by (auto simp: trigger_allows_def split: if_splits)
qed

lemma accepted_trigger_allows:
  assumes "0 < m" "trigger_min_interval (d_config d) = m"
  shows "accepted (trigger_allows m) ts d = accepted on_trigger ts d"
  using assms
proof (induction ts arbitrary: d)
  case (Cons t ts)
  obtain ok d' where "on_trigger t d = (ok, d')" by fastforce
  then show ?case using Cons on_trigger_cases [of t d ok d'] by (simp add: trigger_allows_def)
qed simp

section \<open>Forced probes\<close>

lemma run_phases_invariant:
  assumes "list_all (\<lambda>f. \<forall>d d'. I d \<longrightarrow> f d = Some (Inr d') \<longrightarrow> I d') fs" and "run_phases fs d = Some (Inr d')" and "I d"
  shows "I d'"
  using assms by (induction fs arbitrary: d) (auto split: option.splits sum.splits)

lemma collect_slot_due:
  assumes "slot_due sl E d"
  shows "collect_slot sl E (Inr v) d =
    d\<lparr>d_schedules := sl_set_schedule sl (schedule_done (ce_now E) (sl_schedule sl (d_schedules d))) (d_schedules d),
      d_last_known_good := sl_set_value sl (sl_stamp sl (ce_wall E (sl_name sl)) v) (d_last_known_good d)\<rparr>"
  using assms by (simp add: collect_slot_def maybe_collect_def slot_due_def)

lemma mark_fresh:
  assumes "0 < ps_interval s"
  shows "mark_stale get put now (schedule_done now s) x = put ((get x)\<lparr>fr_stale := False\<rparr>) x"
proof -
  have "0 < ps_interval s * ns_per_sec + max (ps_interval s) 30 * ns_per_sec"
    using assms by (intro add_pos_pos mult_pos_pos) simp_all
  then show ?thesis using assms by (simp add: mark_stale_def schedule_done_def stale_grace_def)
qed

text \<open>The schedule of one section is not touched when another is collected.\<close>

lemma collect_slot_schedule:
  "d_schedules (collect_slot sl E r d) = d_schedules d
   \<or> (\<exists>p. d_schedules (collect_slot sl E r d) = sl_set_schedule sl p (d_schedules d))"
  unfolding collect_slot_def by (auto split: prod.splits)

lemmas slot_defs = device_slot_def boot_slot_def services_slot_def resources_slot_def time_sync_slot_def update_slot_def
  journal_slot_def crash_slot_def

lemma sch_crash_other [simp]:
  "sch_crash (d_schedules (collect_slot device_slot E r1 d)) = sch_crash (d_schedules d)"
  "sch_crash (d_schedules (collect_slot boot_slot E r2 d)) = sch_crash (d_schedules d)"
  "sch_crash (d_schedules (collect_slot services_slot E r3 d)) = sch_crash (d_schedules d)"
  "sch_crash (d_schedules (collect_slot resources_slot E r4 d)) = sch_crash (d_schedules d)"
  "sch_crash (d_schedules (collect_slot time_sync_slot E r5 d)) = sch_crash (d_schedules d)"
  "sch_crash (d_schedules (collect_slot update_slot E r6 d)) = sch_crash (d_schedules d)"
  "sch_crash (d_schedules (collect_slot journal_slot E r7 d)) = sch_crash (d_schedules d)"
  by (simp_all add: collect_slot_def slot_defs split: prod.splits)

lemma boot_collect_elsewhere:
  assumes "fs_unlinked s" "p \<noteq> boot_state_path dir" "p \<noteq> temp_path_for (be_pid E) (boot_state_path dir)"
    and "boot_collect J dir E s = (tr, s', out)"
  shows "fs_unlinked s' \<and> fs_read s' p = fs_read s p"
proof (cases "bs_last_boot_id (load_boot_state J (fs_read s (boot_state_path dir))) = read_boot_id E")
  case True
  then show ?thesis using assms by (simp add: boot_collect_def Let_def)
next
  case False
  let ?st = "next_boot_state (read_boot_id E) (load_boot_state J (fs_read s (boot_state_path dir)))"
  obtain out' where "save_boot_state J dir E ?st s = (tr, s', out')"
    using assms(4) False by (auto simp: boot_collect_def Let_def split: prod.splits)
  then show ?thesis
  proof (cases rule: save_boot_state_cases)
    case nothing
    then show ?thesis using assms(1) by simp
  next
    case (atomic t r)
    show ?thesis by (rule atomic_write_elsewhere [OF assms(1-3) atomic(2)])
  qed
qed

lemma path_join_inject: "path_join d n = path_join d m \<longleftrightarrow> n = m"
  by (simp add: path_join_def)

lemma crash_path_neq:
  "crash_state_path dir \<noteq> boot_state_path dir" "crash_state_path dir \<noteq> temp_path_for pid (boot_state_path dir)"
  by (simp_all add: crash_state_path_def boot_state_path_def temp_path_for_def path_join_def)

text \<open>What the phases before the crash probe leave alone.\<close>

definition crash_ready :: "config \<Rightarrow> bool \<Rightarrow> probe_schedule \<Rightarrow> string option \<Rightarrow> 'w daemon \<Rightarrow> bool" where
  "crash_ready cfg pending s content d \<longleftrightarrow> d_config d = cfg \<and> d_crash_ack_pending d = pending \<and> sch_crash (d_schedules d) = s \<and>
     fs_unlinked (sy_fs d) \<and> fs_read (sy_fs d) (crash_state_path (state_dir cfg)) = content"

definition before_ack :: "json_lib \<Rightarrow> cycle_env \<Rightarrow> ('w daemon \<Rightarrow> 'w daemon outcome) list" where
  "before_ack J E = take 8 (collect_phases J E)"

lemma crash_ready_collect_boot:
  assumes "crash_ready cfg b s c d" "collect_boot J E d = Some (Inr d')"
  shows "crash_ready cfg b s c d'"
  using assms(2)
proof (cases rule: collect_boot_cases)
  case idle
  then show ?thesis using assms(1) by simp
next
  case (ran tr fs' result msgs)
  have "fs_unlinked fs' \<and> fs_read fs' (crash_state_path (state_dir cfg)) = c"
    using boot_collect_elsewhere [OF _ crash_path_neq ran(1)] assms(1) by (simp add: crash_ready_def)
  then show ?thesis using assms(1) by (simp add: crash_ready_def ran(2) on_log_def)
qed

lemma crash_ready_until:
  assumes "run_phases (refresh_phases A E @ before_ack J E) d = Some (Inr d')" and "crash_ready cfg b s c d"
  shows "crash_ready cfg b s c d'"
proof (rule run_phases_invariant [where I = "crash_ready cfg b s c", OF _ assms])
  define keeps where "keeps f \<longleftrightarrow> (\<forall>d d'. crash_ready cfg b s c d \<longrightarrow> f d = Some (Inr d') \<longrightarrow> crash_ready cfg b s c d')"
    for f :: "'a daemon \<Rightarrow> 'a daemon outcome"
  have "keeps (collect_resources E)"
    by (auto simp: keeps_def collect_resources_def crash_ready_def split: if_splits prod.splits)
  moreover have "keeps (ingest_journal A)"
    by (auto simp: keeps_def ingest_journal_def crash_ready_def split: option.splits)
  moreover have "keeps (total_phase (drain_netlink E))"
    by (auto simp: keeps_def drain_netlink_def crash_ready_def split: option.splits prod.splits)
  moreover have "keeps (collect_boot J E)"
    using crash_ready_collect_boot by (auto simp: keeps_def)
  moreover have "keeps (total_phase f)"
    if "f \<in> {collect_device E, collect_services E, collect_time_sync E, collect_update J E, collect_journal E,
      take_rauc_pending E, update_watchdog_heartbeat (ce_heartbeat_first E)}" for f
    using that by (auto simp: keeps_def crash_ready_def plain_phase_defs split: if_splits)
  ultimately have "list_all keeps (refresh_phases A E @ before_ack J E)"
    by (simp add: refresh_phases_def before_ack_def collect_phases_def)
  then show "list_all (\<lambda>f. \<forall>d d'. crash_ready cfg b s c d \<longrightarrow> f d = Some (Inr d') \<longrightarrow> crash_ready cfg b s c d')
      (refresh_phases A E @ before_ack J E)"
    by (simp only: keeps_def [abs_def])
qed

lemma collection_cycle_at_ack:
  assumes "collection_cycle J A E d = Some (Inr d')"
  obtains d1 where "run_phases (refresh_phases A E @ before_ack J E) d = Some (Inr d1)"
    "run_phases (publish_phases J E) (collect_crash J E (take_ack_pending E d1)) = Some (Inr d')"
proof -
  have "cycle_phases J A E = (refresh_phases A E @ before_ack J E) @
      [total_phase (take_ack_pending E), total_phase (collect_crash J E)] @ publish_phases J E"
    by (simp add: cycle_phases_def before_ack_def collect_phases_def)
  then show thesis
    using assms that
    by (auto simp: collection_cycle_def run_phases_append total_phase_def simp del: append_assoc split: option.splits sum.splits)
qed

lemma publish_state:
  assumes "run_phases (publish_phases J E) d = Some (Inr d')"
  shows "current_state d' = aggregate_known_good E (mark_sections E d)"
    and "d_crash_ack_pending d' = d_crash_ack_pending d" and "d_rauc_update_pending d' = d_rauc_update_pending d"
proof -
  obtain tr fs' out lg where w: "d' = log_snapshot E (report_bus (publish_fingerprint ((mark_sections E d)\<lparr>d_cycle_count := d_cycle_count d + 1,
       sy_fs := fs', sy_log := lg, d_prev_sev := d_last_severity d,
       d_current_state := aggregate_known_good E (mark_sections E d),
       d_last_severity := sum_severity (snap_summary (aggregate_known_good E (mark_sections E d)))\<rparr>)))"
    using assms by (rule publish_phases_run)
  show "current_state d' = aggregate_known_good E (mark_sections E d)"
    by (simp add: w current_state_def publish_fingerprint_def)
  have "d_crash_ack_pending (log_snapshot E d) = d_crash_ack_pending d" "d_rauc_update_pending (log_snapshot E d) = d_rauc_update_pending d"
    "d_crash_ack_pending (report_bus d) = d_crash_ack_pending d" "d_rauc_update_pending (report_bus d) = d_rauc_update_pending d"
    for d :: "'a daemon"
    by (simp_all add: log_snapshot_def update_watchdog_heartbeat_def notify_status_def on_log_def Let_def report_bus_def
        split: option.splits prod.splits)
  then show "d_crash_ack_pending d' = d_crash_ack_pending d" "d_rauc_update_pending d' = d_rauc_update_pending d"
    by (simp_all add: w publish_fingerprint_def mark_sections_def Let_def)
qed

text \<open>A cycle that starts with an acknowledgement pending publishes a crash section collected in that cycle.\<close>

lemma forced_crash_collected:
  assumes "collection_cycle J A E d = Some (Inr d')" and "crash_ready cfg True s content d" and "0 < ps_interval s"
    and "crash_collect J ((ce_crash E)\<lparr>cr_state := content\<rparr>) = Inr st"
  shows "snap_crash (current_state d') =
      put_crash \<lparr>collected_at = Some (ce_wall E ''crash''), fr_stale = False\<rparr> st
    \<and> \<not> d_crash_ack_pending d'"
proof -
  obtain d1 where pre: "run_phases (refresh_phases A E @ before_ack J E) d = Some (Inr d1)"
    and post: "run_phases (publish_phases J E) (collect_crash J E (take_ack_pending E d1)) = Some (Inr d')"
    using assms(1) by (rule collection_cycle_at_ack)
  have r: "crash_ready cfg True s content d1" by (rule crash_ready_until [OF pre assms(2)])
  let ?d2 = "take_ack_pending E d1"
  have due: "slot_due crash_slot E ?d2" and interval: "0 < ps_interval (sch_crash (d_schedules ?d2))"
    using r assms(3) by (simp_all add: slot_due_def crash_slot_def is_due_def take_ack_pending_def crash_ready_def)
  have "crash_env_of E ?d2 = (ce_crash E)\<lparr>cr_state := content\<rparr>" and off: "\<not> d_crash_ack_pending ?d2"
    using r by (simp_all add: crash_env_of_def take_ack_pending_def crash_ready_def)
  then have c: "collect_crash J E ?d2 = collect_slot crash_slot E (Inr st) ?d2"
    using assms(4) by (simp add: collect_crash_def)
  have "snap_crash (aggregate_known_good E (mark_sections E (collect_crash J E ?d2))) =
      put_crash \<lparr>collected_at = Some (ce_wall E ''crash''), fr_stale = False\<rparr> st"
    unfolding c collect_slot_due [OF due]
    using mark_fresh [OF interval, of crash_freshness put_crash "ce_now E"]
    by (simp add: aggregate_known_good_def mark_sections_def Let_def frame_simps crash_slot_def fresh_stamp_def put_crash_def)
  then show ?thesis using publish_state [OF post] off by (simp add: c)
qed

text \<open>What an accepted acknowledgement leaves behind.\<close>

lemma on_acknowledge_accepted:
  assumes "on_acknowledge J S pid log_now fp d = Some (Inr (True, d1))"
  obtains content tr fs' where "jl_dump J 2 (ack_json fp) = Inr content" "d_current_panic_fingerprint d = Some fp"
    "atomic_write_file S pid (crash_state_path (state_dir (d_config d))) content (sy_fs d) = (tr, fs', Some (Inr ()))"
    "d1 = wake (d\<lparr>sy_fs := fs', d_crash_ack_pending := True, d_trigger_requested := True\<rparr>)"
proof -
  obtain content where dump: "jl_dump J 2 (ack_json fp) = Inr content" and cur: "d_current_panic_fingerprint d = Some fp"
    using assms by (cases "jl_dump J 2 (ack_json fp)") (auto simp: on_acknowledge_def on_acknowledge_defs split: if_splits)
  obtain tr fs' r where w: "atomic_write_file S pid (crash_state_path (state_dir (d_config d))) content (sy_fs d) = (tr, fs', r)"
    by (metis prod_cases3)
  obtain x where r: "r = Some x" using assms dump cur w by (cases r) (auto simp: on_acknowledge_def on_acknowledge_defs)
  have "x = Inr ()" and "d1 = wake (d\<lparr>sy_fs := fs', d_crash_ack_pending := True, d_trigger_requested := True\<rparr>)"
    using assms dump cur w r by (cases x; auto simp: on_acknowledge_def on_acknowledge_defs)+
  then show thesis using dump cur w r by (intro that) simp_all
qed

lemma acknowledged_fp_written:
  assumes "json_conversions J" "json_reparse J 2 (ack_json fp)" "jl_dump J 2 (ack_json fp) = Inr content"
  shows "acknowledged_fp J (Some content) = Some fp"
proof -
  have "jl_parse J False content = Inr (j_canon (ack_json fp))" using assms(2,3) by (simp add: json_reparse_def)
  moreover have "j_contains (ack_json fp) ''acknowledged_fingerprint''" "j_at (ack_json fp) ''acknowledged_fingerprint'' = JString fp"
    by (simp_all add: ack_json_def j_object_def)
  ultimately show ?thesis using assms(1) by (simp add: acknowledged_fp_def json_conversions_def)
qed

section \<open>Returning and failing\<close>

lemma run_phases_returns: "list_all (\<lambda>f. \<forall>d. f d \<noteq> None) fs \<Longrightarrow> run_phases fs d \<noteq> None"
  by (induction fs arbitrary: d) (auto split: option.splits sum.splits)

lemma run_phases_throws:
  assumes "list_all (\<lambda>f. \<forall>d ex. f d \<noteq> Some (Inl ex)) fs"
  shows "run_phases fs d \<noteq> Some (Inl ex)"
  using assms by (induction fs arbitrary: d) (auto split: option.splits sum.splits)

lemma total_phase_no_throw [simp]: "total_phase f d \<noteq> Some (Inl ex)"
  by (simp add: total_phase_def)

definition after_boot :: "json_lib \<Rightarrow> cycle_env \<Rightarrow> ('w daemon \<Rightarrow> 'w daemon outcome) list" where
  "after_boot J E = drop 2 (collect_phases J E)"

lemma collecting_split:
  "refresh_phases A E @ collect_phases J E = (refresh_phases A E @ [total_phase (collect_device E)]) @ collect_boot J E # after_boot J E"
  by (simp add: after_boot_def collect_phases_def)

lemma collect_resources_returns:
  assumes "\<forall>r. exchange_ends (ge_reply (re_genl (ce_resources E)) r)"
  shows "collect_resources E d \<noteq> None"
proof -
  obtain links Q where "q_query (re_genl (ce_resources E)) (iface_names (rp_interfaces (d_resources_probe d))
      (get_all_stats (netlink_cache d))) (rp_ethtool (d_resources_probe d)) = Some (links, Q)"
    using query_returns [OF assms] by blast
  then show ?thesis
    by (cases "collect_memory (ce_resources E)")
      (simp_all add: collect_resources_def resources_collect_def collect_network_def Let_def)
qed

lemma ingest_journal_returns: "clock_advances A \<Longrightarrow> ingest_journal A d \<noteq> None"
  using ingest_returns [of A] by (simp add: ingest_journal_def del: not_None_eq split: option.splits)

text \<open>The text the boot probe would write.\<close>

definition boot_text :: "json_lib \<Rightarrow> cycle_env \<Rightarrow> 'w daemon \<Rightarrow> string + string" where
  "boot_text J E d = jl_dump J 2 (boot_state_json (next_boot_state (read_boot_id (ce_boot E))
     (load_boot_state J (fs_read (sy_fs d) (boot_state_path (state_dir (d_config d)))))))"

lemma collect_boot_returns:
  assumes "\<forall>t. boot_text J E d = Inr t \<longrightarrow> length t \<le> write_total (sys_writes (be_sys (ce_boot E)))"
  shows "collect_boot J E d \<noteq> None"
proof (cases "boot_text J E d")
  case (Inl ex)
  then show ?thesis
    by (auto simp: collect_boot_def boot_collect_def save_boot_state_def boot_text_def Let_def split: option.splits)
next
  case (Inr t)
  obtain tr s' x where "atomic_write_file (be_sys (ce_boot E)) (be_pid (ce_boot E)) (boot_state_path (state_dir (d_config d))) t (sy_fs d)
      = (tr, s', Some x)"
    using atomic_write_returns [of t "be_sys (ce_boot E)" "be_pid (ce_boot E)" "boot_state_path (state_dir (d_config d))" "sy_fs d"]
      assms Inr by (metis not_None_eq prod.collapse)
  with Inr show ?thesis
    by (auto simp: collect_boot_def boot_collect_def save_boot_state_def boot_text_def Let_def split: option.splits)
qed

lemma collect_boot_throws:
  assumes "collect_boot J E d = Some (Inl ex)"
  shows "boot_text J E d = Inl ex"
proof (cases "boot_text J E d")
  case (Inl ex')
  then show ?thesis using assms
    by (auto simp: collect_boot_def boot_collect_def save_boot_state_def boot_text_def Let_def split: option.splits if_splits)
next
  case (Inr t)
  obtain tr s' r where "atomic_write_file (be_sys (ce_boot E)) (be_pid (ce_boot E)) (boot_state_path (state_dir (d_config d))) t (sy_fs d)
      = (tr, s', r)" by (metis prod_cases3)
  with Inr assms show ?thesis
    by (auto simp: collect_boot_def boot_collect_def save_boot_state_def boot_text_def Let_def split: option.splits if_splits)
qed

lemma boot_text_kept:
  assumes "run_phases (refresh_phases A E @ [total_phase (collect_device E)]) d = Some (Inr d')"
  shows "boot_text J E d' = boot_text J E d"
proof (rule run_phases_keeps [OF _ assms])
  define keeps where "keeps f \<longleftrightarrow> (\<forall>d d'. f d = Some (Inr d') \<longrightarrow> boot_text J E d' = boot_text J E d)"
    for f :: "'a daemon \<Rightarrow> 'a daemon outcome"
  have "keeps (ingest_journal A)"
    by (auto simp: keeps_def ingest_journal_def boot_text_def split: option.splits)
  moreover have "keeps (total_phase (drain_netlink E))"
    by (auto simp: keeps_def drain_netlink_def boot_text_def split: option.splits prod.splits)
  moreover have "keeps (total_phase (collect_device E))" "keeps (total_phase (update_watchdog_heartbeat (ce_heartbeat_first E)))"
    by (simp_all add: keeps_def boot_text_def plain_phase_defs)
  ultimately have "list_all keeps (refresh_phases A E @ [total_phase (collect_device E)])"
    by (simp add: refresh_phases_def)
  then show "list_all (\<lambda>f. \<forall>d d'. f d = Some (Inr d') \<longrightarrow> boot_text J E d' = boot_text J E d)
      (refresh_phases A E @ [total_phase (collect_device E)])"
    by (simp only: keeps_def [abs_def])
qed

lemma collecting_returns:
  assumes clock: "clock_advances A" and ex: "\<forall>r. exchange_ends (ge_reply (re_genl (ce_resources E)) r)"
    and fits: "\<forall>t. boot_text J E d = Inr t \<longrightarrow> length t \<le> write_total (sys_writes (be_sys (ce_boot E)))"
  shows "run_phases (refresh_phases A E @ collect_phases J E) d \<noteq> None"
proof -
  have 1: "run_phases (refresh_phases A E @ [total_phase (collect_device E)]) d \<noteq> None"
    by (rule run_phases_returns) (simp add: refresh_phases_def ingest_journal_returns [OF clock] del: not_None_eq)
  have 2: "collect_boot J E d1 \<noteq> None" if "run_phases (refresh_phases A E @ [total_phase (collect_device E)]) d = Some (Inr d1)" for d1
    using fits boot_text_kept [OF that, of J] by (intro collect_boot_returns) simp
  have 3: "run_phases (after_boot J E) d2 \<noteq> None" for d2
    by (rule run_phases_returns) (simp add: after_boot_def collect_phases_def collect_resources_returns [OF ex] del: not_None_eq)
  show ?thesis
    unfolding collecting_split run_phases_append [of "refresh_phases A E @ _"] using 1 2 3
    by (auto simp del: not_None_eq split: option.splits sum.splits)
qed

lemma collecting_throws:
  assumes "run_phases (refresh_phases A E @ collect_phases J E) d = Some (Inl ex)"
  shows "boot_text J E d = Inl ex"
proof -
  have "collect_resources E d1 \<noteq> Some (Inl x)" "ingest_journal A d1 \<noteq> Some (Inl x)" for d1 x
    by (auto simp: collect_resources_def ingest_journal_def split: option.splits)
  then have quiet: "run_phases (refresh_phases A E @ [total_phase (collect_device E)]) d \<noteq> Some (Inl ex)"
      "run_phases (after_boot J E) d2 \<noteq> Some (Inl ex)" for d2 :: "'a daemon"
    by (intro run_phases_throws; simp add: refresh_phases_def after_boot_def collect_phases_def)+
  then obtain d1 where "run_phases (refresh_phases A E @ [total_phase (collect_device E)]) d = Some (Inr d1)"
      "collect_boot J E d1 = Some (Inl ex)"
    using assms unfolding collecting_split run_phases_append [of "refresh_phases A E @ _"]
    by (auto split: option.splits sum.splits)
  then show ?thesis using collect_boot_throws boot_text_kept by metis
qed

text \<open>Publishing returns when the write calls take the text of the snapshot, and never throws.\<close>

lemma write_snapshot_returns:
  assumes "\<forall>t. snapshot_text J (d_writer d) (aggregate_known_good E d) = Inr t \<longrightarrow> length t \<le> write_total (sys_writes (ce_sys E))"
  shows "write_snapshot J E d \<noteq> None"
proof -
  obtain tr fs' out where w: "writer_write J (d_writer d) (ce_mkdir E) (ce_sys E) (ce_pid E) (aggregate_known_good E d) (sy_fs d)
      = (tr, fs', out)" by (metis prod_cases3)
  have "out \<noteq> Write_Result None"
  proof
    assume "out = Write_Result None"
    moreover obtain t where "snapshot_text J (d_writer d) (aggregate_known_good E d) = Inr t"
      using w calculation
      by (cases "snapshot_text J (d_writer d) (aggregate_known_good E d)")
        (auto simp: writer_write_def ensure_directory_def snapshot_text_def writer_to_json_def writer_to_json_pretty_def
          serialize_def serialize_pretty_def split: if_splits)
    ultimately show False
      using w atomic_write_returns [of t "ce_sys E" "ce_pid E" "output_path (d_writer d)" "sy_fs d"] assms
      by (auto simp: writer_write_def ensure_directory_def snapshot_text_def writer_to_json_def writer_to_json_pretty_def
          serialize_def serialize_pretty_def write_atomic_def split: if_splits prod.splits)
  qed
  then show ?thesis by (auto simp: write_snapshot_def w log_write_def Let_def split: write_outcome.splits option.splits sum.splits)
qed

lemma publishing_throws: "run_phases (publish_phases J E) d \<noteq> Some (Inl ex)"
  by (rule run_phases_throws) (auto simp: publish_phases_def write_snapshot_def Let_def split: prod.splits)

lemma publishing_returns:
  assumes "\<forall>t. snapshot_text J (d_writer d) (aggregate_known_good E (mark_sections E d)) = Inr t
    \<longrightarrow> length t \<le> write_total (sys_writes (ce_sys E))"
  shows "run_phases (publish_phases J E) d \<noteq> None"
proof -
  have "d_writer (mark_sections E d) = d_writer d" by (simp add: mark_sections_def Let_def)
  then obtain x where x: "write_snapshot J E (mark_sections E d) = Some x"
    using write_snapshot_returns [of J "mark_sections E d" E] assms by auto
  show ?thesis by (cases x) (simp_all add: publish_phases_def total_phase_def x)
qed

text \<open>The phases that collect do not look at the outcomes of the calls that write the snapshot.\<close>

lemma slot_ignores_sys [simp]:
  "collect_slot sl (E\<lparr>ce_sys := S\<rparr>) r d = collect_slot sl E r d" "slot_due sl (E\<lparr>ce_sys := S\<rparr>) d = slot_due sl E d"
  by (simp_all add: collect_slot_def slot_due_def)

lemma drain_ignores_sys [simp]: "drain_netlink (E\<lparr>ce_sys := S\<rparr>) d = drain_netlink E d"
  by (cases "d_nl_monitor d") (simp_all add: drain_netlink_def)

lemma phases_ignore_sys:
  "refresh_phases A (E\<lparr>ce_sys := S\<rparr>) = refresh_phases A E" "collect_phases J (E\<lparr>ce_sys := S\<rparr>) = collect_phases J E"
  "mark_sections (E\<lparr>ce_sys := S\<rparr>) d = mark_sections E d" "aggregate_known_good (E\<lparr>ce_sys := S\<rparr>) d = aggregate_known_good E d"
  by (simp_all add: refresh_phases_def collect_phases_def fun_eq_iff total_phase_def plain_phase_defs collect_boot_def
      collect_resources_def crash_env_of_def mark_sections_def aggregate_known_good_def Let_def)

lemma cycle_from_collecting:
  "collection_cycle J A (E\<lparr>ce_sys := S\<rparr>) d =
     (case run_phases (refresh_phases A E @ collect_phases J E) d of
        Some (Inr d1) \<Rightarrow> run_phases (publish_phases J (E\<lparr>ce_sys := S\<rparr>)) d1 | r \<Rightarrow> r)"
  by (simp add: collection_cycle_def cycle_phases_def phases_ignore_sys run_phases_append [of "refresh_phases A E @ _"]
      flip: append_assoc)

lemma cycle_completes:
  assumes "clock_advances A" and "\<forall>r. exchange_ends (ge_reply (re_genl (ce_resources E)) r)"
    and "boot_text J E d = Inr t" and "length t \<le> write_total (sys_writes (be_sys (ce_boot E)))"
    and "\<And>d1 t. run_phases (refresh_phases A E @ collect_phases J E) d = Some (Inr d1) \<Longrightarrow>
      snapshot_text J (d_writer d) (aggregate_known_good E (mark_sections E d1)) = Inr t \<Longrightarrow> length t \<le> write_total (sys_writes (ce_sys E))"
  shows "\<exists>d'. collection_cycle J A E d = Some (Inr d')"
proof -
  have "run_phases (refresh_phases A E @ collect_phases J E) d \<noteq> None"
    using collecting_returns [OF assms(1,2), of J d] assms(3,4) by simp
  moreover have "run_phases (refresh_phases A E @ collect_phases J E) d \<noteq> Some (Inl ex)" for ex
    using collecting_throws [of A E J d ex] assms(3) by auto
  ultimately obtain d1 where d1: "run_phases (refresh_phases A E @ collect_phases J E) d = Some (Inr d1)"
    by (cases "run_phases (refresh_phases A E @ collect_phases J E) d" rule: option.exhaust) (auto, metis sum.exhaust)
  have "d_writer d1 = d_writer d" using collecting_keeps_published [OF d1] by (simp add: published_def)
  then have "run_phases (publish_phases J E) d1 \<noteq> None"
    using assms(5) [OF d1] by (intro publishing_returns) auto
  then obtain d' where "run_phases (publish_phases J E) d1 = Some (Inr d')"
    using publishing_throws [of J E d1] by (cases "run_phases (publish_phases J E) d1") (auto, metis sum.exhaust)
  then show ?thesis
    using d1 by (simp add: collection_cycle_def cycle_phases_def run_phases_append [of "refresh_phases A E @ _"] flip: append_assoc)
qed

lemma acknowledged_ready:
  assumes "on_acknowledge J S pid log_now fp d = Some (Inr (True, d1))" and "fs_unlinked (sy_fs d)"
    and "json_conversions J" and "json_reparse J 2 (ack_json fp)"
  obtains content where "acknowledged_fp J (Some content) = Some fp"
    "crash_ready (d_config d) True (sch_crash (d_schedules d)) (Some content) d1"
proof -
  obtain content tr fs' where a: "jl_dump J 2 (ack_json fp) = Inr content"
    "atomic_write_file S pid (crash_state_path (state_dir (d_config d))) content (sy_fs d) = (tr, fs', Some (Inr ()))"
    "d1 = wake (d\<lparr>sy_fs := fs', d_crash_ack_pending := True, d_trigger_requested := True\<rparr>)"
    using assms(1) by (rule on_acknowledge_accepted)
  show thesis
  proof (rule that)
    show "acknowledged_fp J (Some content) = Some fp" by (rule acknowledged_fp_written [OF assms(3,4) a(1)])
    show "crash_ready (d_config d) True (sch_crash (d_schedules d)) (Some content) d1"
      using atomic_write_read [OF a(2)] atomic_write_unlinked [OF assms(2) a(2)] by (simp add: crash_ready_def a(3))
  qed
qed

section \<open>The snapshot file\<close>

text \<open>What collecting leaves alone: every file but the boot state.\<close>

definition other_file :: "path \<Rightarrow> path \<Rightarrow> cycle_env \<Rightarrow> bool" where
  "other_file p dir E \<longleftrightarrow> p \<noteq> boot_state_path dir \<and> p \<noteq> temp_path_for (be_pid (ce_boot E)) (boot_state_path dir)"

definition file_kept :: "path \<Rightarrow> path \<Rightarrow> string option \<Rightarrow> 'w daemon \<Rightarrow> bool" where
  "file_kept p dir content d \<longleftrightarrow> state_dir (d_config d) = dir \<and> fs_unlinked (sy_fs d) \<and> fs_read (sy_fs d) p = content"

lemma file_kept_collect_boot:
  assumes "other_file p dir E" "file_kept p dir c d" "collect_boot J E d = Some (Inr d')"
  shows "file_kept p dir c d'"
  using assms(3)
proof (cases rule: collect_boot_cases)
  case idle
  then show ?thesis using assms(2) by simp
next
  case (ran tr fs' result msgs)
  have "fs_unlinked fs' \<and> fs_read fs' p = c"
    using boot_collect_elsewhere [OF _ _ _ ran(1), of p] assms(1,2) by (simp add: file_kept_def other_file_def)
  then show ?thesis using assms(2) by (simp add: file_kept_def ran(2) on_log_def)
qed

lemma file_kept_collecting:
  assumes "other_file p dir E" and "run_phases (refresh_phases A E @ collect_phases J E) d = Some (Inr d')" and "file_kept p dir c d"
  shows "file_kept p dir c d'"
proof (rule run_phases_invariant [where I = "file_kept p dir c", OF _ assms(2,3)])
  define keeps where "keeps f \<longleftrightarrow> (\<forall>d d'. file_kept p dir c d \<longrightarrow> f d = Some (Inr d') \<longrightarrow> file_kept p dir c d')"
    for f :: "'a daemon \<Rightarrow> 'a daemon outcome"
  have "keeps (collect_resources E)"
    by (auto simp: keeps_def collect_resources_def file_kept_def split: if_splits prod.splits)
  moreover have "keeps (ingest_journal A)"
    by (auto simp: keeps_def ingest_journal_def file_kept_def split: option.splits)
  moreover have "keeps (total_phase (drain_netlink E))"
    by (auto simp: keeps_def drain_netlink_def file_kept_def split: option.splits prod.splits)
  moreover have "keeps (collect_boot J E)"
    using file_kept_collect_boot [OF assms(1)] by (auto simp: keeps_def)
  moreover have "keeps (total_phase f)"
    if "f \<in> {collect_device E, collect_services E, collect_time_sync E, collect_update J E, collect_journal E, collect_crash J E,
      take_rauc_pending E, take_ack_pending E, update_watchdog_heartbeat (ce_heartbeat_first E)}" for f
    using that by (auto simp: keeps_def file_kept_def plain_phase_defs split: if_splits)
  ultimately have "list_all keeps (refresh_phases A E @ collect_phases J E)"
    by (simp add: refresh_phases_def collect_phases_def)
  then show "list_all (\<lambda>f. \<forall>d d'. file_kept p dir c d \<longrightarrow> f d = Some (Inr d') \<longrightarrow> file_kept p dir c d')
      (refresh_phases A E @ collect_phases J E)"
    by (simp only: keeps_def [abs_def])
qed

lemma writer_write_target:
  assumes "fs_unlinked s" "writer_write J w mkdir S pid st s = (tr, s', out)"
  shows "fs_unlinked s' \<and> (fs_read s' (output_path w) = fs_read s (output_path w)
    \<or> (\<exists>c. snapshot_text J w st = Inr c \<and> fs_read s' (output_path w) = Some c))"
  using assms(2)
proof (cases rule: writer_write_cases)
  case nothing
  then show ?thesis using assms(1) by simp
next
  case (atomic content r)
  then show ?thesis using atomic_write_target [OF assms(1) atomic(3)] atomic_write_unlinked [OF assms(1) atomic(3)] by auto
qed

lemma cycle_file:
  assumes "collection_cycle J A E d = Some (Inr d')" and "file_kept (output_path (d_writer d)) dir c d"
    and "other_file (output_path (d_writer d)) dir E"
  shows "\<exists>c'. file_kept (output_path (d_writer d)) dir c' d'
    \<and> (c' = c \<or> (\<exists>t. snapshot_text J (d_writer d) (current_state d') = Inr t \<and> c' = Some t))"
proof -
  obtain d1 where col: "run_phases (refresh_phases A E @ collect_phases J E) d = Some (Inr d1)"
    and p: "run_phases (publish_phases J E) d1 = Some (Inr d')"
    using assms(1) by (rule collection_cycle_split)
  have k: "d_writer d1 = d_writer d" using collecting_keeps_published [OF col] by (simp add: published_def)
  have f1: "file_kept (output_path (d_writer d)) dir c d1" by (rule file_kept_collecting [OF assms(3) col assms(2)])
  obtain tr fs' out where w: "writer_write J (d_writer d1) (ce_mkdir E) (ce_sys E) (ce_pid E)
      (aggregate_known_good E (mark_sections E d1)) (sy_fs d1) = (tr, fs', out)" and fs: "sy_fs d' = fs'"
    using p by (rule publish_phases_run) (simp add: publish_fingerprint_def)
  have "state_dir (d_config d') = dir" using cycle_facts(6) [OF assms(1)] assms(2) by (simp add: file_kept_def)
  then show ?thesis
    using writer_write_target [OF _ w] f1 publish_state(1) [OF p] by (auto simp: file_kept_def k fs)
qed

lemma trace_file:
  assumes "cycle_trace J A Es d = Some (Inr ds)" and "file_kept (output_path (d_writer d)) dir c d"
    and "list_all (other_file (output_path (d_writer d)) dir) Es"
  shows "\<exists>c'. file_kept (output_path (d_writer d)) dir c' (last (d # ds))
    \<and> (c' = c \<or> (\<exists>a\<in>set ds. \<exists>t. snapshot_text J (d_writer d) (current_state a) = Inr t \<and> c' = Some t))"
  using assms
proof (induction Es arbitrary: d ds c)
  case (Cons E Es)
  obtain d' ds' where t: "collection_cycle J A E d = Some (Inr d')" "cycle_trace J A Es d' = Some (Inr ds')" "ds = d' # ds'"
    using Cons.prems(1) by (rule cycle_trace_Cons)
  obtain c1 where c1: "file_kept (output_path (d_writer d)) dir c1 d'"
      "c1 = c \<or> (\<exists>t. snapshot_text J (d_writer d) (current_state d') = Inr t \<and> c1 = Some t)"
    using cycle_file [OF t(1) Cons.prems(2)] Cons.prems(3) by auto
  have w: "d_writer d' = d_writer d" by (rule cycle_facts(7) [OF t(1)])
  from Cons.IH [OF t(2), of c1] c1(1) Cons.prems(3)
  obtain c' where c': "file_kept (output_path (d_writer d)) dir c' (last (d' # ds'))"
    "c' = c1 \<or> (\<exists>a\<in>set ds'. \<exists>t. snapshot_text J (d_writer d) (current_state a) = Inr t \<and> c' = Some t)"
    by (auto simp: w)
  have "c' = c \<or> (\<exists>a\<in>set ds. \<exists>t. snapshot_text J (d_writer d) (current_state a) = Inr t \<and> c' = Some t)"
    using c'(2) c1(2) by (auto simp: t(3))
  with c'(1) show ?case by (auto simp: t(3))
qed simp

section \<open>A sample\<close>

definition sample_fp :: string where
  "sample_fp = compute_fingerprint (listed_panics sample_crash_env)"

definition sample_cycle_lib :: json_lib where
  "sample_cycle_lib = sample_json_lib\<lparr>
     jl_parse := (\<lambda>c s. if s = ''ack'' then Inr (ack_json sample_fp) else Inl ''parse_error''),
     jl_dump := (\<lambda>i j. if j = ack_json sample_fp then Inr ''ack'' else Inr ''{}''),
     jl_dump_replace := (\<lambda>i j. Inr ''{}'')\<rparr>"

definition sample_cycle_env :: cycle_env where
  "sample_cycle_env = \<lparr>ce_version = ''1.0'', ce_now = 0, ce_wall = (\<lambda>_. 7), ce_log_now = (\<lambda>_. 0), ce_heartbeat_first = 0,
     ce_heartbeat_last = 1, ce_datagrams = [],
     ce_device = \<lparr>de_os_release = None, de_serial_number = None, de_machine_id = None, de_etc_hostname = None,
       de_gethostname = None, de_uname = None\<rparr>,
     ce_boot = sample_boot_env ''b1'' None,
     ce_units = \<lparr>ub_active = (\<lambda>_. Inr ''active''), ub_restarts = (\<lambda>_. Inr 0), ub_result = (\<lambda>_. Inr ''success'')\<rparr>,
     ce_unit_clock = (\<lambda>_. 0), ce_resources = sample_resources_env,
     ce_time = \<lparr>te_ntp = Some (True, True), te_now = 7, te_rtc_file = (\<lambda>_. None)\<rparr>, ce_slots = None,
     ce_journal_severity_clock = (\<lambda>_. 0), ce_journal_count_clock = (\<lambda>_. 0), ce_journal_now = 0,
     ce_crash = sample_crash_env, ce_hardware_concurrency = 4, ce_generated_at = 7, ce_mkdir = 0, ce_sys = sample_sys,
     ce_pid = 7\<rparr>"

definition sample_init :: init_env where
  "sample_init = \<lparr>ie_state_dir = None, ie_netlink = \<lparr>ne_open = Some 4, ne_bind = True, ne_nonblock = True,
     ne_link_sent = True, ne_link_reply = [[NLMSG_DONE]], ne_addr_sent = True, ne_addr_reply = [[NLMSG_DONE]]\<rparr>,
     ie_bus = None, ie_rauc = Some ''no RAUC'', ie_seq = 1\<rparr>"

definition sample_daemon :: "int daemon" where
  "sample_daemon = init_probes sample_init (init_bus sample_init (daemon_new config_defaults 5 log_state_new empty_fs 0))"

lemma sample_exchanges: "\<forall>r. exchange_ends (ge_reply (re_genl (ce_resources sample_cycle_env)) r)"
  by (auto simp: sample_cycle_env_def sample_resources_env_def sample_genl_def exchange_ends_def split: genl_request.splits)

lemma empty_sd_advances: "clock_advances empty_sd"
  by (simp add: clock_advances_def empty_sd_def)

lemma boot_state_not_ack: "boot_state_json st \<noteq> ack_json fp"
proof
  assume "boot_state_json st = ack_json fp"
  moreover have "j_contains (boot_state_json st) ''last_boot_ok''" "\<not> j_contains (ack_json fp) ''last_boot_ok''"
    by (simp_all add: boot_state_json_def ack_json_def j_object_def)
  ultimately show False by simp
qed

lemma sample_cycle_completes_mkdir:
  "\<exists>d'. collection_cycle sample_cycle_lib empty_sd (sample_cycle_env\<lparr>ce_mkdir := m\<rparr>) d = Some (Inr d')"
proof (rule cycle_completes [OF empty_sd_advances])
  show "\<forall>r. exchange_ends (ge_reply (re_genl (ce_resources (sample_cycle_env\<lparr>ce_mkdir := m\<rparr>))) r)"
    using sample_exchanges by simp
  show "boot_text sample_cycle_lib (sample_cycle_env\<lparr>ce_mkdir := m\<rparr>) d = Inr ''{}''"
    by (simp add: boot_text_def sample_cycle_lib_def boot_state_not_ack)
qed (auto simp: sample_cycle_env_def sample_boot_env_def sample_sys_def snapshot_text_def sample_cycle_lib_def)

lemma sample_cycle_completes: "\<exists>d'. collection_cycle sample_cycle_lib empty_sd sample_cycle_env d = Some (Inr d')"
proof -
  have "sample_cycle_env\<lparr>ce_mkdir := 0\<rparr> = sample_cycle_env" by (simp add: sample_cycle_env_def)
  then show ?thesis using sample_cycle_completes_mkdir [of 0 d] by simp
qed

lemma sample_daemon_manager: "d_health_manager sample_daemon = Some health_manager_new"
  by (simp add: sample_daemon_def init_probes_def init_bus_def sample_init_def on_log_def Let_def)

section \<open>Properties\<close>

text \<open>C6: a cycle that completes leaves the daemon consistent: the cycle counter has advanced, the current
  state is the aggregation of the last known good sections and carries that counter, the
  severity property, the recent lines and the panic fingerprint offered to bus clients, and the
  status line sent to systemd all come from that same state.\<close>

theorem cycle_publishes:
  assumes "collection_cycle J A E d = Some (Inr d')" and "d_health_manager d = Some hm"
  shows "d_cycle_count d' = d_cycle_count d + 1
    \<and> current_state d' = (let x = d_last_known_good d' in
      (aggregate (d_config d) (ce_hardware_concurrency E) (ce_generated_at E) (snap_device x) (snap_boot x)
         (snap_services x) (snap_resources x) (snap_time_sync x) (snap_update x) (snap_journal x) (snap_crash x))
      \<lparr>snap_cycle := d_cycle_count d'\<rparr>)
    \<and> (\<exists>hm'. d_health_manager d' = Some hm'
         \<and> OverallSeverity hm' = severity_string (sum_severity (snap_summary (current_state d')))
         \<and> (\<forall>n. GetRecentLogs n hm' = take (unat n) (journal_recent_errors (snap_journal (current_state d')))))
    \<and> d_current_panic_fingerprint d' =
        (if panic_count (snap_crash (current_state d')) > 0 then crash_fingerprint (snap_crash (current_state d')) else None)
    \<and> last (sy_notify d') = ''STATUS=v'' @ ce_version E @ '' '' @ em_dash @ '' '' @
        severity_string (sum_severity (snap_summary (current_state d')))"
proof -
  obtain hm' where "d_health_manager d' = Some hm'" "hm_severity_str hm' = severity_string (d_last_severity d')"
      "hm_logs_cache hm' = journal_recent_errors (snap_journal (current_state d'))"
    using cycle_severity_facts [OF assms] by blast
  then have "\<exists>hm'. d_health_manager d' = Some hm'
         \<and> OverallSeverity hm' = severity_string (sum_severity (snap_summary (current_state d')))
         \<and> (\<forall>n. GetRecentLogs n hm' = take (unat n) (journal_recent_errors (snap_journal (current_state d'))))"
    using cycle_facts(3) [OF assms(1)] by (simp add: OverallSeverity_def get_recent_logs_take)
  then show ?thesis
    using cycle_facts(1-5) [OF assms(1)] by (simp add: panic_fingerprint_def)
qed

theorem cycle_publishes_witness:
  "\<exists>d'. collection_cycle sample_cycle_lib empty_sd sample_cycle_env sample_daemon = Some (Inr d')
     \<and> snap_cycle (current_state d') = 1"
proof -
  obtain d' where "collection_cycle sample_cycle_lib empty_sd sample_cycle_env sample_daemon = Some (Inr d')"
    using sample_cycle_completes by blast
  moreover from cycle_publishes [OF this sample_daemon_manager] have "snap_cycle (current_state d') = 1"
    by (simp add: Let_def sample_daemon_def init_probes_def init_bus_def sample_init_def on_log_def daemon_new_def)
  ultimately show ?thesis by blast
qed

text \<open>C10: the bus clients get exactly one crash alarm for each new kernel panic of this boot: over any
  sequence of cycles there is an alarm in a cycle if and only if an unacknowledged panic of
  this boot is reported there and the same set of records was not already active in the cycle
  before; each alarm names the count and the fingerprint.\<close>

theorem crash_alarm_exact:
  assumes "cycle_trace J A Es d = Some (Inr ds)" and "d_health_manager d \<noteq> None"
    and "d_last_alarmed_crash_fp d = None" and "\<not> active_panic (snap_crash (current_state d))"
  defines "crash \<equiv> (\<lambda>d. snap_crash (current_state d))"
  shows "filter is_crash_alarm (sy_signals (last (d # ds))) = filter is_crash_alarm (sy_signals d) @
    concat (map (\<lambda>(a, b).
        if active_panic (crash b) \<and> \<not> (active_panic (crash a) \<and> crash_fingerprint (crash a) = crash_fingerprint (crash b))
        then [Health_Alarm ''crash'' (crash_alarm_message (crash b)) ''crit''] else []) (zip (d # ds) ds))"
  unfolding crash_def using trace_alarms [OF assms(1,2)] assms(3,4) by (simp add: alarmed_fp_def new_panic_alarms_def)

theorem crash_alarm_exact_witness:
  "\<exists>d'. collection_cycle sample_cycle_lib empty_sd sample_cycle_env sample_daemon = Some (Inr d')
     \<and> filter is_crash_alarm (sy_signals d') =
         (if active_panic (snap_crash (current_state d'))
          then [Health_Alarm ''crash'' (crash_alarm_message (snap_crash (current_state d'))) ''crit''] else [])"
proof -
  obtain d' where c: "collection_cycle sample_cycle_lib empty_sd sample_cycle_env sample_daemon = Some (Inr d')"
    using sample_cycle_completes by blast
  have t: "cycle_trace sample_cycle_lib empty_sd [sample_cycle_env] sample_daemon = Some (Inr [d'])" by (simp add: c)
  have new: "d_last_alarmed_crash_fp sample_daemon = None" "\<not> active_panic (snap_crash (current_state sample_daemon))"
      "sy_signals sample_daemon = []"
    by (simp_all add: sample_daemon_def init_probes_def init_bus_def sample_init_def on_log_def daemon_new_def Let_def
        current_state_def active_panic_def default_simps)
  show ?thesis using crash_alarm_exact [OF t _ new(1,2)] new by (simp add: c sample_daemon_manager)
qed

text \<open>C7: when a client acknowledges the reported panic, the next cycle shows it: the acknowledgement is
  read back from the state file through the JSON library, the crash probe runs although it is
  not due, the crash section is rated ok, the alarm is cleared and no request is left pending.\<close>

theorem ack_reflected:
  assumes "on_acknowledge J S pid log_now fp d = Some (Inr (True, d1))"
    and "collection_cycle J A E d1 = Some (Inr d')"
    and "json_conversions J" and "json_reparse J 2 (ack_json fp)"
    and "fs_unlinked (sy_fs d)" and "0 < ps_interval (sch_crash (d_schedules d))"
    and "compute_fingerprint (listed_panics (ce_crash E)) = fp" and "length (listed_panics (ce_crash E)) < 2 ^ 32"
  shows "dom_crash (sum_domains (snap_summary (current_state d'))) = Sev_Ok
    \<and> \<not> active_panic (snap_crash (current_state d')) \<and> \<not> d_crash_ack_pending d'
    \<and> (d_health_manager d \<noteq> None \<longrightarrow> d_last_alarmed_crash_fp d' = None)"
proof -
  obtain content where ack: "acknowledged_fp J (Some content) = Some fp"
    and ready: "crash_ready (d_config d) True (sch_crash (d_schedules d)) (Some content) d1"
    using assms(1,5,3,4) by (rule acknowledged_ready)
  let ?E = "(ce_crash E)\<lparr>cr_state := Some content\<rparr>"
  have listed: "listed_panics ?E = listed_panics (ce_crash E)" by (simp add: listed_panics_def)
  obtain st where st: "crash_collect J ?E = Inr st" "evaluate_crash st = Sev_Ok"
    using crash_severity_of_panics [of ?E J] assms(7,8) ack by (auto simp: listed)
  have f: "snap_crash (current_state d') = put_crash \<lparr>collected_at = Some (ce_wall E ''crash''), fr_stale = False\<rparr> st"
      "\<not> d_crash_ack_pending d'"
    using forced_crash_collected [OF assms(2) ready assms(6) st(1)] by auto
  have "evaluate_crash (snap_crash (current_state d')) = Sev_Ok" using f(1) st(2) by simp
  moreover from this have quiet: "\<not> active_panic (snap_crash (current_state d'))" using active_panic_crit by fastforce
  moreover have "snap_crash (current_state d') = snap_crash (d_last_known_good d')"
    using cycle_facts(2) [OF assms(2)] by (simp add: Let_def frame_simps)
  moreover have "d_health_manager d1 = d_health_manager d"
    using assms(1) by (rule on_acknowledge_accepted) simp
  ultimately show ?thesis
    using cycle_facts(2) [OF assms(2)] f cycle_clears_latch [OF assms(2) _ quiet]
    by (simp add: Let_def aggregate_domains raise_stale_def)
qed

lemma sample_ack_reparse: "json_reparse sample_cycle_lib 2 (ack_json sample_fp)"
  by (simp add: json_reparse_def sample_cycle_lib_def ack_json_def j_object_def j_set_def)

lemma sample_cycle_conversions: "json_conversions sample_cycle_lib"
  using sample_json_lib_conversions by (simp add: json_conversions_def sample_cycle_lib_def)

lemma sample_daemon_fs: "sy_fs sample_daemon = empty_fs" "d_config sample_daemon = config_defaults"
  "sch_crash (d_schedules sample_daemon) = schedule_every 60"
  by (simp_all add: sample_daemon_def init_probes_def init_bus_def sample_init_def on_log_def daemon_new_def Let_def config_defaults_def)

lemma empty_fs_unlinked: "fs_unlinked empty_fs"
  by (simp add: fs_unlinked_def empty_fs_def)

lemma sample_ack:
  "\<exists>d1. on_acknowledge sample_cycle_lib sample_sys 7 0 sample_fp (sample_daemon\<lparr>d_current_panic_fingerprint := Some sample_fp\<rparr>)
     = Some (Inr (True, d1))"
proof -
  have "snd (snd (atomic_write_file sample_sys 7 (crash_state_path (state_dir config_defaults)) ''ack'' empty_fs)) = Some (Inr ())"
    by (simp add: atomic_write_file_def atomic_publish_def fs_open_trunc_def empty_fs_def sample_sys_def
      Let_def numeral_2_eq_2)
  then obtain tr fs' where "atomic_write_file sample_sys 7 (crash_state_path (state_dir config_defaults)) ''ack'' empty_fs
      = (tr, fs', Some (Inr ()))"
    by (metis prod.collapse)
  then show ?thesis
    by (simp add: on_acknowledge_def on_acknowledge_defs sample_daemon_fs sample_cycle_lib_def)
qed

theorem ack_reflected_witness:
  "\<exists>d1 d'. on_acknowledge sample_cycle_lib sample_sys 7 0 sample_fp (sample_daemon\<lparr>d_current_panic_fingerprint := Some sample_fp\<rparr>)
       = Some (Inr (True, d1))
     \<and> collection_cycle sample_cycle_lib empty_sd sample_cycle_env d1 = Some (Inr d')
     \<and> dom_crash (sum_domains (snap_summary (current_state d'))) = Sev_Ok"
proof -
  obtain d1 where ack: "on_acknowledge sample_cycle_lib sample_sys 7 0 sample_fp
      (sample_daemon\<lparr>d_current_panic_fingerprint := Some sample_fp\<rparr>) = Some (Inr (True, d1))"
    using sample_ack by blast
  obtain d' where cyc: "collection_cycle sample_cycle_lib empty_sd sample_cycle_env d1 = Some (Inr d')"
    using sample_cycle_completes by blast
  have "length (listed_panics (ce_crash sample_cycle_env)) < 2 ^ 32"
    by (simp add: sample_cycle_env_def listed_panics_def sample_crash_env_def sample_record_def)
  then have "dom_crash (sum_domains (snap_summary (current_state d'))) = Sev_Ok"
    using ack_reflected [OF ack cyc sample_cycle_conversions sample_ack_reparse]
    by (simp add: sample_daemon_fs empty_fs_unlinked schedule_every_def sample_fp_def sample_cycle_env_def)
  with ack cyc show ?thesis by blast
qed

text \<open>C21: with a minimum interval configured, accepted \<open>TriggerSnapshot\<close> calls are at least that far apart
  whatever the clients do, the first call is accepted, and an accepted call leaves a wake-up
  pending for the main loop.\<close>

theorem trigger_rate_limited:
  assumes "0 < trigger_min_interval (d_config d)"
  shows "successively (\<lambda>a b. trigger_min_interval (d_config d) * ns_per_sec \<le> b - a) (accepted on_trigger ts d)
    \<and> (d_last_trigger_time d = None \<and> ts \<noteq> [] \<longrightarrow> hd (accepted on_trigger ts d) = hd ts)
    \<and> (fst (on_trigger t d) \<and> d_wakeup_fd d \<ge> 0 \<longrightarrow>
         d_trigger_requested (snd (on_trigger t d)) \<and> 0 < sy_eventfd (snd (on_trigger t d)))"
proof -
  let ?m = "trigger_min_interval (d_config d)"
  have "successively (\<lambda>a b. ?m * ns_per_sec \<le> b - a) (accepted (trigger_allows ?m) ts d)"
    using trig.accepted_spaced [of ?m d ts] by (cases "d_last_trigger_time d") (auto simp: successively_Cons)
  moreover have "hd (accepted on_trigger ts d) = hd ts" if fresh: "d_last_trigger_time d = None" and "ts \<noteq> []"
  proof -
    from \<open>ts \<noteq> []\<close> obtain t us where ts: "ts = t # us" by (cases ts) auto
    obtain ok d' where "on_trigger t d = (ok, d')" by fastforce
    then show ?thesis using on_trigger_cases [of t d ok d'] fresh by (simp add: ts)
  qed
  moreover have "d_trigger_requested (snd (on_trigger t d)) \<and> 0 < sy_eventfd (snd (on_trigger t d))"
    if "fst (on_trigger t d)" "d_wakeup_fd d \<ge> 0"
    using that by (auto simp: on_trigger_def on_trigger_store_def wake_def eventfd_write_def Let_def split: if_splits)
  ultimately show ?thesis by (simp add: accepted_trigger_allows [OF assms refl])
qed

theorem trigger_rate_limited_witness:
  "hd (accepted on_trigger [3, 4] sample_daemon) = 3"
  using trigger_rate_limited [of sample_daemon "[3, 4]" 0]
  by (simp add: sample_daemon_fs config_defaults_def)
     (simp add: sample_daemon_def init_probes_def init_bus_def sample_init_def on_log_def daemon_new_def Let_def)

text \<open>C13: a cycle ends: when the clock advances and the exchanges of the ethtool socket end, then for every
  state there is a number of bytes such that, once the write calls of the two files take that
  many, in whatever pieces and with whatever errors, the cycle returns.\<close>

theorem cycle_returns:
  assumes "clock_advances A" and "\<forall>r. exchange_ends (ge_reply (re_genl (ce_resources E)) r)"
  shows "\<exists>N. \<forall>SB. N \<le> write_total (sys_writes SB) \<longrightarrow>
    (\<exists>M. \<forall>S. M \<le> write_total (sys_writes S) \<longrightarrow>
      collection_cycle J A (E\<lparr>ce_boot := (ce_boot E)\<lparr>be_sys := SB\<rparr>, ce_sys := S\<rparr>) d \<noteq> None)"
proof (rule exI [of _ "case boot_text J E d of Inr t \<Rightarrow> length t | Inl _ \<Rightarrow> 0"], intro allI impI)
  fix SB
  let ?N = "case boot_text J E d of Inr t \<Rightarrow> length t | Inl _ \<Rightarrow> 0" and ?E = "E\<lparr>ce_boot := (ce_boot E)\<lparr>be_sys := SB\<rparr>\<rparr>"
  assume N: "?N \<le> write_total (sys_writes SB)"
  let ?r = "run_phases (refresh_phases A ?E @ collect_phases J ?E) d"
  have "boot_text J ?E d = boot_text J E d" by (simp add: boot_text_def read_boot_id_def)
  then have ret: "?r \<noteq> None" using assms N by (intro collecting_returns) auto
  let ?text = "\<lambda>d1. snapshot_text J (d_writer d1) (aggregate_known_good ?E (mark_sections ?E d1))"
  have "\<exists>M. \<forall>S. M \<le> write_total (sys_writes S) \<longrightarrow> collection_cycle J A (?E\<lparr>ce_sys := S\<rparr>) d \<noteq> None"
  proof (cases "\<exists>d1 t. ?r = Some (Inr d1) \<and> ?text d1 = Inr t")
    case True
    then obtain d1 t where d1: "?r = Some (Inr d1)" "?text d1 = Inr t" by blast
    have "run_phases (publish_phases J (?E\<lparr>ce_sys := S\<rparr>)) d1 \<noteq> None" if "length t \<le> write_total (sys_writes S)" for S
      using that d1(2) by (intro publishing_returns) (simp add: phases_ignore_sys)
    then show ?thesis by (auto simp: cycle_from_collecting d1(1) simp del: not_None_eq)
  next
    case False
    have "run_phases (publish_phases J (?E\<lparr>ce_sys := S\<rparr>)) d1 \<noteq> None" if "?r = Some (Inr d1)" for d1 S
      using that False by (intro publishing_returns) (simp add: phases_ignore_sys)
    then show ?thesis using ret by (auto simp: cycle_from_collecting simp del: not_None_eq split: option.splits sum.splits)
  qed
  then show "\<exists>M. \<forall>S. M \<le> write_total (sys_writes S) \<longrightarrow>
      collection_cycle J A (E\<lparr>ce_boot := (ce_boot E)\<lparr>be_sys := SB\<rparr>, ce_sys := S\<rparr>) d \<noteq> None" by simp
qed

theorem cycle_returns_witness:
  "\<exists>N SB S. N \<le> write_total (sys_writes SB)
     \<and> collection_cycle sample_cycle_lib empty_sd (sample_cycle_env\<lparr>ce_boot := (ce_boot sample_cycle_env)\<lparr>be_sys := SB\<rparr>, ce_sys := S\<rparr>)
         sample_daemon \<noteq> None"
proof -
  obtain N where N: "\<forall>SB. N \<le> write_total (sys_writes SB) \<longrightarrow> (\<exists>M. \<forall>S. M \<le> write_total (sys_writes S) \<longrightarrow>
      collection_cycle sample_cycle_lib empty_sd (sample_cycle_env\<lparr>ce_boot := (ce_boot sample_cycle_env)\<lparr>be_sys := SB\<rparr>, ce_sys := S\<rparr>)
        sample_daemon \<noteq> None)"
    using cycle_returns [OF empty_sd_advances sample_exchanges] by blast
  let ?S = "\<lambda>n. sample_sys\<lparr>sys_writes := [Wrote n]\<rparr>"
  have "N \<le> write_total (sys_writes (?S N))" by simp
  with N obtain M where M: "\<forall>S. M \<le> write_total (sys_writes S) \<longrightarrow>
      collection_cycle sample_cycle_lib empty_sd (sample_cycle_env\<lparr>ce_boot := (ce_boot sample_cycle_env)\<lparr>be_sys := ?S N\<rparr>, ce_sys := S\<rparr>)
        sample_daemon \<noteq> None" by blast
  have "M \<le> write_total (sys_writes (?S M))" by simp
  with M \<open>N \<le> _\<close> show ?thesis by blast
qed



end
