(* ===== verification/Daemon_Run.thy ===== *)
theory Daemon_Run
  imports Daemon_Cycle
begin

text \<open>
  The life of the daemon, \<^verbatim>\<open>SnapshotDaemon::run\<close> and what it starts: signal handlers, the watchdog
  thread, the messages to systemd, and the main loop.  The main loop runs as a machine that is
  interleaved with the thread of the bus and with the signal handler, one store, write or phase at a
  time.
\<close>

section \<open>systemd\<close>

definition notify_ready :: "'w daemon \<Rightarrow> 'w daemon" where
  "notify_ready d = d\<lparr>sy_notify := sy_notify d @ [''READY=1'']\<rparr>"

definition notify_watchdog :: string where
  "notify_watchdog = ''WATCHDOG=1''"

definition notify_stopping :: "'w daemon \<Rightarrow> 'w daemon" where
  "notify_stopping d = d\<lparr>sy_notify := sy_notify d @ [''STOPPING=1'']\<rparr>"

text \<open>\<open>usec\<close> is what \<^verbatim>\<open>sd_watchdog_enabled\<close> stores, \<open>None\<close> when it is off; the count is signed.\<close>

definition watchdog_timeout :: "u64 option \<Rightarrow> int" where
  "watchdog_timeout usec = (case usec of Some n \<Rightarrow> sint n | None \<Rightarrow> 0)"

section \<open>The watchdog thread\<close>

definition start_watchdog_thread :: "bool \<Rightarrow> u64 option \<Rightarrow> int \<Rightarrow> 'w daemon \<Rightarrow> 'w daemon" where
  "start_watchdog_thread managed usec now_us d =
     (let timeout = watchdog_timeout usec in
      if \<not> managed \<or> timeout \<le> 0 then d
      else
        let d1 = d\<lparr>d_watchdog_timeout := timeout\<rparr>;
            d2 = (if collect_interval (d_config d1) * 1000000 \<ge> timeout div 2
                  then on_log (log_warn ''collect_interval >= watchdog timeout / 2; systemd may restart the service'') d1
                  else d1)
        in if d_watchdog_thread d2 then d2
           else (update_watchdog_heartbeat now_us d2)\<lparr>d_watchdog_thread := True, d_watchdog_stop := False\<rparr>)"

text \<open>Without a thread there is no token to tell.\<close>

definition stop_watchdog_thread :: "'w daemon \<Rightarrow> 'w daemon" where
  "stop_watchdog_thread d = (if d_watchdog_thread d then d\<lparr>d_watchdog_stop := True\<rparr> else d)"

definition watchdog_interval :: "int \<Rightarrow> int" where
  "watchdog_interval timeout = (let i = timeout div 2 in if i \<le> 0 then 1 else i)"

text \<open>
  The loop of the thread, over what it finds each time the sleep ends: whether a stop was
  requested, the heartbeat, and the clock.
\<close>

fun watchdog_loop :: "int \<Rightarrow> (bool \<times> int \<times> int) list \<Rightarrow> string list" where
  "watchdog_loop timeout [] = []"
| "watchdog_loop timeout ((stop, last_us, now_us) # ws) =
     (if stop then []
      else (if now_us - last_us \<le> timeout then [notify_watchdog] else []) @ watchdog_loop timeout ws)"

section \<open>Start and end\<close>

definition setup_signal_handlers :: "'w daemon \<Rightarrow> 'w daemon" where
  "setup_signal_handlers d = d\<lparr>g_wakeup_fd := d_wakeup_fd d\<rparr>"

definition request_shutdown :: "'w daemon \<Rightarrow> 'w daemon" where
  "request_shutdown d =
     (let d1 = wake (d\<lparr>d_shutdown_requested := True\<rparr>)
      in if d_dbus_connection d1 then d1\<lparr>d_bus_loop := False\<rparr> else d1)"

definition enter_event_loop :: "'w daemon \<Rightarrow> 'w daemon" where
  "enter_event_loop d = (if d_dbus_connection d then d\<lparr>d_bus_loop := True\<rparr> else d)"

record run_env =
  rn_boot :: boot_env
  rn_log_now :: int
  rn_managed :: bool
  rn_watchdog :: "u64 option"
  rn_now_us :: int

text \<open>Everything before the main loop.\<close>

definition run_begin :: "json_lib \<Rightarrow> 'w sd_api \<Rightarrow> cycle_env \<Rightarrow> run_env \<Rightarrow> 'w daemon \<Rightarrow> 'w daemon outcome" where
  "run_begin J A E R d =
     (case collection_cycle J A E (on_log (daemon_starting (ce_version E)) (setup_signal_handlers (d\<lparr>d_running := True\<rparr>))) of
        Some (Inr d1) \<Rightarrow>
          let d2 = on_log daemon_ready (notify_ready d1) in
          (case mark_boot_success J (state_dir (d_config d2)) (rn_boot R) (sy_fs d2) of
             (tr, fs', out) \<Rightarrow> map_option (map_sum id (\<lambda>msgs.
               enter_event_loop (start_watchdog_thread (rn_managed R) (rn_watchdog R) (rn_now_us R)
                 (on_log (fold (log_probe_error (rn_log_now R) ''boot'') msgs) (d2\<lparr>sy_fs := fs'\<rparr>))))) out)
      | r \<Rightarrow> r)"

definition run_end :: "'w daemon \<Rightarrow> 'w daemon" where
  "run_end d = notify_stopping (on_log daemon_stopping ((stop_watchdog_thread d)\<lparr>d_running := False\<rparr>))"

definition daemon_delete :: "'w daemon \<Rightarrow> 'w daemon" where
  "daemon_delete d =
     (let d1 = stop_watchdog_thread d; d2 = (if d_running d1 then request_shutdown d1 else d1);
          d3 = d2\<lparr>g_wakeup_fd := - 1\<rparr>
      in if d_wakeup_fd d3 \<ge> 0 then d3\<lparr>d_wakeup_fd := - 1\<rparr> else d3)"

section \<open>The main loop\<close>

text \<open>
  How \<^verbatim>\<open>poll\<close> returns: readable, after the timeout, or interrupted.  It does not time out while the
  descriptor is readable.
\<close>

datatype poll_outcome = Poll_Ready | Poll_Timeout | Poll_Interrupted

definition readable :: "'w daemon \<Rightarrow> bool" where
  "readable d \<longleftrightarrow> d_wakeup_fd d \<ge> 0 \<and> sy_eventfd d > 0"

fun poll_may :: "'w daemon \<Rightarrow> poll_outcome \<Rightarrow> bool" where
  "poll_may d Poll_Ready = readable d"
| "poll_may d Poll_Timeout = (\<not> readable d)"
| "poll_may d Poll_Interrupted = True"

definition poll_timeout_ms :: "int \<Rightarrow> int" where
  "poll_timeout_ms count = (if count > 2 ^ 31 - 1 then 2 ^ 31 - 1 else count)"

definition wait_wakeup_fd :: "poll_outcome \<Rightarrow> 'w daemon \<Rightarrow> bool \<times> 'w daemon" where
  "wait_wakeup_fd out d =
     (case out of
        Poll_Ready \<Rightarrow> (True, d\<lparr>sy_eventfd := 0\<rparr>)
      | Poll_Timeout \<Rightarrow> (False, d)
      | Poll_Interrupted \<Rightarrow> (True, d))"

text \<open>With a validated configuration the timeout of the wait is positive, so the wait is never unbounded.\<close>

lemma poll_timeout_positive:
  "validate cfg = None \<Longrightarrow> 0 < poll_timeout_ms (collect_interval cfg * 1000) \<and> poll_timeout_ms (collect_interval cfg * 1000) < 2 ^ 31"
  by (simp add: poll_timeout_ms_def validate_iff config_valid_def)

text \<open>Where the main thread is; \<open>At_Cycle E k\<close> has run \<open>k\<close> phases of a cycle.\<close>

datatype loop_pc =
    At_Test | At_Signal | At_Wait | At_Clear | At_Recheck | At_Cycle cycle_env nat | At_Stop | Exited | Thrown string

text \<open>
  Where the thread of the bus is: between calls, in an acknowledgement whose fingerprint it has
  compared, or after the stores of a callback with the wake-up still to write.  The signal handler
  owes a wake-up after its store.
\<close>

datatype bus_pc = Bus_Idle | Bus_Acking string | Bus_Owes

record 'w machine =
  m_pc :: loop_pc
  m_bus :: bus_pc
  m_sig_owes :: bool
  m_daemon :: "'w daemon"

text \<open>One step of the main thread; \<open>None\<close> when it cannot take one with this outcome of \<^verbatim>\<open>poll\<close>.\<close>

definition cycle_step :: "json_lib \<Rightarrow> 'w sd_api \<Rightarrow> cycle_env \<Rightarrow> nat \<Rightarrow> 'w daemon \<Rightarrow> (loop_pc \<times> 'w daemon) option" where
  "cycle_step J A E k d =
     (if k < length (cycle_phases J A E) then
        (case (cycle_phases J A E ! k) d of
           None \<Rightarrow> None
         | Some (Inl ex) \<Rightarrow> Some (Thrown ex, d)
         | Some (Inr d') \<Rightarrow> Some (At_Cycle E (Suc k), d'))
      else Some (At_Test, d))"

fun main_step :: "json_lib \<Rightarrow> 'w sd_api \<Rightarrow> poll_outcome \<Rightarrow> cycle_env \<Rightarrow> loop_pc \<Rightarrow> 'w daemon \<Rightarrow> (loop_pc \<times> 'w daemon) option" where
  "main_step J A out E At_Test d = Some (if d_shutdown_requested d then At_Stop else At_Signal, d)"
| "main_step J A out E At_Signal d =
     Some (if g_shutdown_signal d then (At_Stop, request_shutdown d) else (At_Wait, d))"
| "main_step J A out E At_Wait d = (if poll_may d out then Some (At_Clear, snd (wait_wakeup_fd out d)) else None)"
| "main_step J A out E At_Clear d = Some (At_Recheck, d\<lparr>d_trigger_requested := False\<rparr>)"
| "main_step J A out E At_Recheck d =
     Some (if d_shutdown_requested d \<or> g_shutdown_signal d then (At_Stop, request_shutdown d) else (At_Cycle E 0, d))"
| "main_step J A out E (At_Cycle E' k) d = cycle_step J A E' k d"
| "main_step J A out E At_Stop d = Some (Exited, run_end d)"
| "main_step J A out E Exited d = None"
| "main_step J A out E (Thrown ex) d = None"

text \<open>The steps of the three threads; a callback starts only while the event loop runs.\<close>

inductive main_moves :: "json_lib \<Rightarrow> 'w sd_api \<Rightarrow> 'w machine \<Rightarrow> 'w machine \<Rightarrow> bool" for J A where
  main: "main_step J A out E (m_pc m) (m_daemon m) = Some (pc, d) \<Longrightarrow> main_moves J A m (m\<lparr>m_pc := pc, m_daemon := d\<rparr>)"

inductive other_moves :: "json_lib \<Rightarrow> 'w machine \<Rightarrow> 'w machine \<Rightarrow> bool" for J where
  trigger: "m_bus m = Bus_Idle \<Longrightarrow> d_bus_loop (m_daemon m) \<Longrightarrow> on_trigger_store now (m_daemon m) = (ok, d) \<Longrightarrow>
    other_moves J m (m\<lparr>m_bus := if ok then Bus_Owes else Bus_Idle, m_daemon := d\<rparr>)"
| ack_check: "m_bus m = Bus_Idle \<Longrightarrow> d_bus_loop (m_daemon m) \<Longrightarrow>
    other_moves J m (m\<lparr>m_bus := if on_acknowledge_check fp (m_daemon m) then Bus_Acking fp else Bus_Idle\<rparr>)"
| ack_write: "m_bus m = Bus_Acking fp \<Longrightarrow> on_acknowledge_write J S pid now fp (m_daemon m) = Some (Inr (ok, d)) \<Longrightarrow>
    other_moves J m (m\<lparr>m_bus := if ok then Bus_Owes else Bus_Idle, m_daemon := d\<rparr>)"
| ack_throw: "m_bus m = Bus_Acking fp \<Longrightarrow> on_acknowledge_write J S pid now fp (m_daemon m) = Some (Inl ex) \<Longrightarrow>
    other_moves J m (m\<lparr>m_bus := Bus_Idle\<rparr>)"
| rauc: "m_bus m = Bus_Idle \<Longrightarrow> d_bus_loop (m_daemon m) \<Longrightarrow> d_rauc_proxy (m_daemon m) \<Longrightarrow>
    other_moves J m (m\<lparr>m_bus := Bus_Owes, m_daemon := on_rauc_completed_store result (m_daemon m)\<rparr>)"
| bus_wake: "m_bus m = Bus_Owes \<Longrightarrow> other_moves J m (m\<lparr>m_bus := Bus_Idle, m_daemon := wake (m_daemon m)\<rparr>)"
| signal: "\<not> m_sig_owes m \<Longrightarrow>
    other_moves J m (m\<lparr>m_sig_owes := True, m_daemon := handle_shutdown_signal_store (m_daemon m)\<rparr>)"
| signal_write: "m_sig_owes m \<Longrightarrow>
    other_moves J m (m\<lparr>m_sig_owes := False, m_daemon := handle_shutdown_signal_write (m_daemon m)\<rparr>)"

definition machine_start :: "'w daemon \<Rightarrow> 'w machine" where
  "machine_start d = \<lparr>m_pc = At_Test, m_bus = Bus_Idle, m_sig_owes = False, m_daemon = d\<rparr>"

text \<open>The loop starts after \<open>run_begin\<close>; a signal that came earlier has the same effect there.\<close>

inductive reachable :: "json_lib \<Rightarrow> 'w sd_api \<Rightarrow> 'w machine \<Rightarrow> bool" for J A where
  start: "initialize A I (daemon_new cfg fd lg fs w) = Some (None, d) \<Longrightarrow> run_begin J A E R d = Some (Inr d') \<Longrightarrow>
    reachable J A (machine_start d')"
| main: "reachable J A m \<Longrightarrow> main_moves J A m m' \<Longrightarrow> reachable J A m'"
| other: "reachable J A m \<Longrightarrow> other_moves J m m' \<Longrightarrow> reachable J A m'"

inductive_cases main_movesE: "main_moves J A m m'"
inductive_cases other_movesE: "other_moves J m m'"

section \<open>Running the loop\<close>

text \<open>
  The same steps as a function of what the scheduler and the environment choose, so that a run can
  be computed from the list of its moves.
\<close>

datatype move =
    Main_Move poll_outcome cycle_env
  | Trigger_Move int
  | Ack_Check string
  | Ack_Write sys_outcomes nat int
  | Rauc_Move int
  | Bus_Wake
  | Signal_Store
  | Signal_Write

fun move_step :: "json_lib \<Rightarrow> 'w sd_api \<Rightarrow> move \<Rightarrow> 'w machine \<Rightarrow> 'w machine option" where
  "move_step J A (Main_Move out E) m =
     map_option (\<lambda>(pc, d). m\<lparr>m_pc := pc, m_daemon := d\<rparr>) (main_step J A out E (m_pc m) (m_daemon m))"
| "move_step J A (Trigger_Move now) m =
     (if m_bus m = Bus_Idle \<and> d_bus_loop (m_daemon m) then
        (case on_trigger_store now (m_daemon m) of (ok, d) \<Rightarrow> Some (m\<lparr>m_bus := if ok then Bus_Owes else Bus_Idle, m_daemon := d\<rparr>))
      else None)"
| "move_step J A (Ack_Check fp) m =
     (if m_bus m = Bus_Idle \<and> d_bus_loop (m_daemon m)
      then Some (m\<lparr>m_bus := if on_acknowledge_check fp (m_daemon m) then Bus_Acking fp else Bus_Idle\<rparr>) else None)"
| "move_step J A (Ack_Write S pid now) m =
     (case m_bus m of
        Bus_Acking fp \<Rightarrow>
          (case on_acknowledge_write J S pid now fp (m_daemon m) of
             None \<Rightarrow> None
           | Some (Inl ex) \<Rightarrow> Some (m\<lparr>m_bus := Bus_Idle\<rparr>)
           | Some (Inr (ok, d)) \<Rightarrow> Some (m\<lparr>m_bus := if ok then Bus_Owes else Bus_Idle, m_daemon := d\<rparr>))
      | _ \<Rightarrow> None)"
| "move_step J A (Rauc_Move result) m =
     (if m_bus m = Bus_Idle \<and> d_bus_loop (m_daemon m) \<and> d_rauc_proxy (m_daemon m)
      then Some (m\<lparr>m_bus := Bus_Owes, m_daemon := on_rauc_completed_store result (m_daemon m)\<rparr>) else None)"
| "move_step J A Bus_Wake m =
     (if m_bus m = Bus_Owes then Some (m\<lparr>m_bus := Bus_Idle, m_daemon := wake (m_daemon m)\<rparr>) else None)"
| "move_step J A Signal_Store m =
     (if m_sig_owes m then None
      else Some (m\<lparr>m_sig_owes := True, m_daemon := handle_shutdown_signal_store (m_daemon m)\<rparr>))"
| "move_step J A Signal_Write m =
     (if m_sig_owes m then Some (m\<lparr>m_sig_owes := False, m_daemon := handle_shutdown_signal_write (m_daemon m)\<rparr>) else None)"

fun run_moves :: "json_lib \<Rightarrow> 'w sd_api \<Rightarrow> move list \<Rightarrow> 'w machine \<Rightarrow> 'w machine option" where
  "run_moves J A [] m = Some m"
| "run_moves J A (mv # mvs) m = Option.bind (move_step J A mv m) (run_moves J A mvs)"

text \<open>\<open>run\<close>: \<open>None\<close> when the moves end before the loop does.\<close>

definition run_loop :: "json_lib \<Rightarrow> 'w sd_api \<Rightarrow> move list \<Rightarrow> 'w daemon \<Rightarrow> 'w daemon outcome" where
  "run_loop J A mvs d =
     (case run_moves J A mvs (machine_start d) of
        None \<Rightarrow> None
      | Some m \<Rightarrow> (case m_pc m of Exited \<Rightarrow> Some (Inr (m_daemon m)) | Thrown ex \<Rightarrow> Some (Inl ex) | _ \<Rightarrow> None))"

definition daemon_run ::
  "json_lib \<Rightarrow> 'w sd_api \<Rightarrow> cycle_env \<Rightarrow> run_env \<Rightarrow> move list \<Rightarrow> 'w daemon \<Rightarrow> 'w daemon outcome" where
  "daemon_run J A E R mvs d = (case run_begin J A E R d of Some (Inr d') \<Rightarrow> run_loop J A mvs d' | r \<Rightarrow> r)"

lemma move_step_moves: "move_step J A mv m = Some m' \<Longrightarrow> main_moves J A m m' \<or> other_moves J m m'"
proof (induction mv m rule: move_step.induct)
  case (1 J A out E m)
  then show ?case using main_moves.main by (auto simp: split_paired_all)
next
  case (2 J A now m)
  obtain ok d where "on_trigger_store now (m_daemon m) = (ok, d)" by fastforce
  with other_moves.trigger [OF _ _ this, of J] 2 show ?case by (auto simp del: if_split split: if_split_asm)
next
  case (3 J A fp m)
  then show ?case using other_moves.ack_check [of m J fp] by (auto simp del: if_split split: if_split_asm)
next
  case (4 J A S pid now m)
  then show ?case by (auto intro: other_moves.ack_write other_moves.ack_throw split: bus_pc.splits option.splits sum.splits)
qed (auto intro: other_moves.intros split: if_splits)

lemma moves_move_step:
  assumes "main_moves J A m m' \<or> other_moves J m m'"
  shows "\<exists>mv. move_step J A mv m = Some m'"
  using assms
proof
  assume "main_moves J A m m'"
  then obtain out E pc d where "main_step J A out E (m_pc m) (m_daemon m) = Some (pc, d)" "m' = m\<lparr>m_pc := pc, m_daemon := d\<rparr>"
    by (rule main_movesE)
  then show ?thesis by (intro exI [of _ "Main_Move out E"]) simp
next
  assume "other_moves J m m'"
  then show ?thesis
  proof (cases rule: other_moves.cases)
    case (trigger now ok d)
    then show ?thesis by (intro exI [of _ "Trigger_Move now"]) simp
  next
    case (ack_check fp)
    then show ?thesis by (intro exI [of _ "Ack_Check fp"]) simp
  next
    case (ack_write fp S pid now ok d)
    then show ?thesis by (intro exI [of _ "Ack_Write S pid now"]) simp
  next
    case (ack_throw fp S pid now ex)
    then show ?thesis by (intro exI [of _ "Ack_Write S pid now"]) simp
  next
    case (rauc result)
    then show ?thesis by (intro exI [of _ "Rauc_Move result"]) simp
  next
    case bus_wake
    then show ?thesis by (intro exI [of _ Bus_Wake]) simp
  next
    case signal
    then show ?thesis by (intro exI [of _ Signal_Store]) simp
  next
    case signal_write
    then show ?thesis by (intro exI [of _ Signal_Write]) simp
  qed
qed

lemma move_step_iff: "(\<exists>mv. move_step J A mv m = Some m') \<longleftrightarrow> main_moves J A m m' \<or> other_moves J m m'"
  using move_step_moves moves_move_step by metis

lemma run_moves_reachable: "run_moves J A mvs m = Some m' \<Longrightarrow> reachable J A m \<Longrightarrow> reachable J A m'"
proof (induction mvs arbitrary: m)
  case (Cons mv mvs)
  obtain m1 where m1: "move_step J A mv m = Some m1" "run_moves J A mvs m1 = Some m'"
    using Cons.prems(1) by (auto simp: bind_eq_Some_conv)
  have "reachable J A m1" using move_step_moves [OF m1(1)] reachable.main reachable.other Cons.prems(2) by blast
  then show ?case by (rule Cons.IH [OF m1(2)])
qed simp

section \<open>What a phase does to the requests\<close>

definition links :: "'w daemon \<Rightarrow> nat \<times> bool \<times> int \<times> int \<times> bool" where
  "links d = (sy_eventfd d, g_shutdown_signal d, g_wakeup_fd d, d_wakeup_fd d, d_shutdown_requested d)"

definition phase_effect :: "bool \<Rightarrow> bool \<Rightarrow> ('w daemon \<Rightarrow> 'w daemon outcome) \<Rightarrow> bool" where
  "phase_effect keeps_ack keeps_rauc f \<longleftrightarrow> (\<forall>d d'. f d = Some (Inr d') \<longrightarrow>
     d_crash_ack_pending d' = (keeps_ack \<and> d_crash_ack_pending d) \<and>
     d_rauc_update_pending d' = (keeps_rauc \<and> d_rauc_update_pending d) \<and>
     d_trigger_requested d' = d_trigger_requested d \<and> links d' = links d)"

lemma effects_of_plain_phases:
  "phase_effect True True (total_phase (update_watchdog_heartbeat us))" "phase_effect True True (total_phase (collect_device E))"
  "phase_effect True True (total_phase (collect_services E))" "phase_effect True True (total_phase (collect_time_sync E))"
  "phase_effect True True (total_phase (collect_update J E))" "phase_effect True True (total_phase (collect_journal E))"
  "phase_effect True True (total_phase (collect_crash J E))" "phase_effect True True (total_phase (mark_sections E))"
  "phase_effect True True (total_phase publish_fingerprint)" "phase_effect True True (total_phase (log_snapshot E))"
  by (simp_all add: phase_effect_def links_def plain_phase_defs mark_sections_def publish_fingerprint_def log_snapshot_def
      notify_status_def on_log_def Let_def)

lemma effects_of_other_phases:
  "phase_effect True True (total_phase (drain_netlink E))" "phase_effect True True (ingest_journal A)"
  "phase_effect True True (collect_resources E)" "phase_effect True True (total_phase report_bus)"
  "phase_effect True True (write_snapshot J E)" "phase_effect True False (total_phase (take_rauc_pending E))"
  "phase_effect False True (total_phase (take_ack_pending E))"
  by (auto simp: phase_effect_def links_def drain_netlink_def ingest_journal_def collect_resources_def report_bus_def
      write_snapshot_def take_rauc_pending_def take_ack_pending_def Let_def split: option.splits prod.splits if_splits)

lemma effect_of_boot: "phase_effect True True (collect_boot J E)"
  unfolding phase_effect_def links_def
  by (intro allI impI, erule collect_boot_cases) (simp_all add: on_log_def)

lemma phase_effects:
  "list_all2 (\<lambda>k f. phase_effect (k \<noteq> 11) (k \<noteq> 8) f) [0..<18] (cycle_phases J A E)"
  by (simp add: cycle_phases_def refresh_phases_def collect_phases_def publish_phases_def upt_rec [of _ 18]
      effects_of_plain_phases effects_of_other_phases effect_of_boot)

lemma cycle_length: "length (cycle_phases J A E) = 18"
  using list_all2_lengthD [OF phase_effects] by simp

lemma phase_effect_at:
  assumes "k < 18" and "(cycle_phases J A E ! k) d = Some (Inr d')"
  shows "d_crash_ack_pending d' = (k \<noteq> 11 \<and> d_crash_ack_pending d)"
    and "d_rauc_update_pending d' = (k \<noteq> 8 \<and> d_rauc_update_pending d)" and "links d' = links d"
    and "d_trigger_requested d' = d_trigger_requested d"
  using list_all2_nthD [OF phase_effects [of J A E], of k] assms by (auto simp: phase_effect_def)

lemma run_phases_flags:
  assumes "list_all (\<lambda>f. \<exists>a r. phase_effect a r f) fs" and "run_phases fs d = Some (Inr d')"
  shows "links d' = links d \<and> (d_crash_ack_pending d' \<longrightarrow> d_crash_ack_pending d) \<and>
    (d_rauc_update_pending d' \<longrightarrow> d_rauc_update_pending d) \<and> d_trigger_requested d' = d_trigger_requested d"
  using assms
proof (induction fs arbitrary: d)
  case (Cons f fs)
  obtain d1 where d1: "f d = Some (Inr d1)" "run_phases fs d1 = Some (Inr d')"
    using Cons.prems(2) by (auto split: option.splits sum.splits)
  then show ?case using Cons.IH [OF _ d1(2)] Cons.prems(1) by (fastforce simp: phase_effect_def)
qed simp

lemma all_phases_effect: "list_all (\<lambda>f. \<exists>a r. phase_effect a r f) (cycle_phases J A E)"
  using phase_effects [of J A E] by (auto simp: list_all2_conv_all_nth list_all_length)

lemma cycle_flags:
  assumes "collection_cycle J A E d = Some (Inr d')"
  shows "links d' = links d \<and> (d_crash_ack_pending d' \<longrightarrow> d_crash_ack_pending d) \<and>
    (d_rauc_update_pending d' \<longrightarrow> d_rauc_update_pending d) \<and> d_trigger_requested d' = d_trigger_requested d"
  using run_phases_flags [OF all_phases_effect, of J A E d d'] assms by (simp add: collection_cycle_def)

section \<open>The invariant of the loop\<close>

lemma eventfd_write_pos [simp]: "0 < sy_eventfd (eventfd_write d)"
  by (simp add: eventfd_write_def)

lemma eventfd_write_frame [simp]:
  "g_shutdown_signal (eventfd_write d) = g_shutdown_signal d" "d_crash_ack_pending (eventfd_write d) = d_crash_ack_pending d"
  "d_rauc_update_pending (eventfd_write d) = d_rauc_update_pending d" "g_wakeup_fd (eventfd_write d) = g_wakeup_fd d"
  "d_wakeup_fd (eventfd_write d) = d_wakeup_fd d" "d_trigger_requested (eventfd_write d) = d_trigger_requested d"
  by (simp_all add: eventfd_write_def)

text \<open>Where a request that is pending must have left a wake-up, since nobody will look at it before the wait.\<close>

fun unseen :: "nat \<Rightarrow> loop_pc \<Rightarrow> bool" where
  "unseen n At_Test = True"
| "unseen n At_Signal = True"
| "unseen n At_Wait = True"
| "unseen n (At_Cycle E k) = (n < k)"
| "unseen n pc = False"

definition loop_inv :: "'w machine \<Rightarrow> bool" where
  "loop_inv m \<longleftrightarrow> (let d = m_daemon m in
     g_wakeup_fd d = d_wakeup_fd d \<and>
     (m_pc m = At_Wait \<and> g_shutdown_signal d \<and> \<not> m_sig_owes m \<and> 0 \<le> d_wakeup_fd d \<longrightarrow> 0 < sy_eventfd d) \<and>
     (m_pc m \<noteq> At_Clear \<and> d_trigger_requested d \<and> m_bus m \<noteq> Bus_Owes \<and> 0 \<le> d_wakeup_fd d \<longrightarrow> 0 < sy_eventfd d) \<and>
     (unseen 11 (m_pc m) \<and> d_crash_ack_pending d \<and> m_bus m \<noteq> Bus_Owes \<and> 0 \<le> d_wakeup_fd d \<longrightarrow> 0 < sy_eventfd d) \<and>
     (unseen 8 (m_pc m) \<and> d_rauc_update_pending d \<and> m_bus m \<noteq> Bus_Owes \<and> 0 \<le> d_wakeup_fd d \<longrightarrow> 0 < sy_eventfd d))"

lemma map_sum_eq_Inr: "map_sum f g z = Inr y \<longleftrightarrow> (\<exists>x. z = Inr x \<and> g x = y)"
  by (cases z) auto

definition before_first_cycle :: "cycle_env \<Rightarrow> 'w daemon \<Rightarrow> 'w daemon" where
  "before_first_cycle E d = on_log (daemon_starting (ce_version E)) (setup_signal_handlers (d\<lparr>d_running := True\<rparr>))"

lemma run_begin_cases:
  assumes "run_begin J A E R d = Some (Inr d')"
  obtains d1 fs' lg where "collection_cycle J A E (before_first_cycle E d) = Some (Inr d1)"
    "d' = enter_event_loop (start_watchdog_thread (rn_managed R) (rn_watchdog R) (rn_now_us R) ((notify_ready d1)\<lparr>sy_fs := fs', sy_log := lg\<rparr>))"
proof -
  obtain d1 where c: "collection_cycle J A E (before_first_cycle E d) = Some (Inr d1)"
    using assms(1) by (auto simp: run_begin_def before_first_cycle_def split: option.splits sum.splits)
  have "\<exists>fs' lg. d' = enter_event_loop (start_watchdog_thread (rn_managed R) (rn_watchdog R) (rn_now_us R)
      ((notify_ready d1)\<lparr>sy_fs := fs', sy_log := lg\<rparr>))"
    using assms(1) c by (auto simp: run_begin_def before_first_cycle_def on_log_def notify_ready_def Let_def map_sum_eq_Inr
        split: prod.splits)
  then show thesis using that c by blast
qed

lemma run_begin_links:
  assumes "run_begin J A E R d = Some (Inr d')"
  shows "links d' = links (d\<lparr>g_wakeup_fd := d_wakeup_fd d\<rparr>)"
    and "d_crash_ack_pending d' \<longrightarrow> d_crash_ack_pending d" and "d_rauc_update_pending d' \<longrightarrow> d_rauc_update_pending d"
    and "d_trigger_requested d' = d_trigger_requested d"
proof -
  obtain d1 fs' lg where c: "collection_cycle J A E (before_first_cycle E d) = Some (Inr d1)"
    and "d' = enter_event_loop (start_watchdog_thread (rn_managed R) (rn_watchdog R) (rn_now_us R) ((notify_ready d1)\<lparr>sy_fs := fs', sy_log := lg\<rparr>))"
    using assms by (rule run_begin_cases)
  then have "d_crash_ack_pending d' = d_crash_ack_pending d1" "d_rauc_update_pending d' = d_rauc_update_pending d1" "links d' = links d1"
      "d_trigger_requested d' = d_trigger_requested d1"
    by (simp_all add: enter_event_loop_def start_watchdog_thread_def on_log_def notify_ready_def update_watchdog_heartbeat_def links_def Let_def)
  then show "links d' = links (d\<lparr>g_wakeup_fd := d_wakeup_fd d\<rparr>)"
    "d_crash_ack_pending d' \<longrightarrow> d_crash_ack_pending d" "d_rauc_update_pending d' \<longrightarrow> d_rauc_update_pending d"
    "d_trigger_requested d' = d_trigger_requested d"
    using cycle_flags [OF c] by (auto simp: links_def before_first_cycle_def on_log_def setup_signal_handlers_def)
qed

text \<open>What the daemon is like after \<open>initialize\<close>.\<close>

definition pristine :: "'w daemon \<Rightarrow> bool" where
  "pristine d \<longleftrightarrow> \<not> d_crash_ack_pending d \<and> \<not> d_rauc_update_pending d \<and> \<not> d_trigger_requested d \<and> \<not> d_shutdown_requested d
     \<and> \<not> g_shutdown_signal d \<and> d_last_severity d = Sev_Unknown \<and> d_current_state d = snapshot_state_default \<and> d_cycle_count d = 0
     \<and> d_last_alarmed_crash_fp d = None \<and> d_current_panic_fingerprint d = None \<and> sy_signals d = [] \<and> sy_notify d = []
     \<and> d_health_manager d \<in> {None, Some health_manager_new}"

lemma pristine_frame [simp]:
  "pristine (on_log f d) = pristine d" "pristine (d\<lparr>d_nl_monitor := M\<rparr>) = pristine d" "pristine (d\<lparr>d_rauc_proxy := b\<rparr>) = pristine d"
  "pristine (d\<lparr>d_journal_reader := r, sy_journal := w\<rparr>) = pristine d"
  "pristine (d\<lparr>d_resources_probe := P, d_schedules := s, d_writer := wr\<rparr>) = pristine d"
  "pristine d \<Longrightarrow> hm \<in> {None, Some health_manager_new} \<Longrightarrow> pristine (d\<lparr>d_dbus_connection := b, d_health_manager := hm\<rparr>)"
  by (simp_all add: pristine_def on_log_def)

lemma pristine_init:
  "pristine (daemon_new cfg fd lg fs w)" "pristine (init_warnings I d) = pristine d" "pristine (init_rauc I d) = pristine d"
  "pristine (init_probes I d) = pristine d" "pristine d \<Longrightarrow> pristine (init_bus I d)"
  by (simp add: pristine_def daemon_new_def)
    (simp_all add: init_warnings_def prepare_state_dir_def init_bus_def init_rauc_def init_probes_def Let_def split: option.split)

lemma pristine_journal: "init_journal A d = Some d' \<Longrightarrow> pristine d' = pristine d"
  by (auto simp: init_journal_def Let_def split: if_splits)

lemma wakeup_fd_init [simp]:
  "d_wakeup_fd (on_log f d) = d_wakeup_fd d" "d_wakeup_fd (daemon_new cfg fd lg fs w) = fd"
  "d_wakeup_fd (init_warnings I d) = d_wakeup_fd d" "d_wakeup_fd (init_rauc I d) = d_wakeup_fd d"
  "d_wakeup_fd (init_bus I d) = d_wakeup_fd d" "d_wakeup_fd (init_probes I d) = d_wakeup_fd d"
  by (simp_all add: on_log_def daemon_new_def init_warnings_def prepare_state_dir_def init_bus_def init_rauc_def init_probes_def
      Let_def split: option.split)

lemma initialize_pristine:
  assumes "initialize A I (daemon_new cfg fd lg fs w) = Some (None, d)"
  shows "pristine d"
proof -
  let ?d = "\<lambda>M. init_rauc I (init_bus I ((init_warnings I (daemon_new cfg fd lg fs w))\<lparr>d_nl_monitor := Some M\<rparr>))"
  obtain M d1 where "init_journal A (?d M) = Some d1" "d = init_probes I d1"
    using assms by (auto simp: initialize_def Let_def split: prod.splits if_splits)
  then show ?thesis using pristine_journal [of A "?d M" d1] by (simp add: pristine_init)
qed

lemma run_begin_state:
  assumes "run_begin J A E R d = Some (Inr d')" and "pristine d"
  shows "\<not> d_crash_ack_pending d' \<and> \<not> d_rauc_update_pending d' \<and> \<not> d_trigger_requested d' \<and> g_wakeup_fd d' = d_wakeup_fd d'
    \<and> \<not> d_shutdown_requested d' \<and> \<not> g_shutdown_signal d'"
  using run_begin_links [OF assms(1)] assms(2) by (auto simp: links_def pristine_def)

text \<open>What the stores of a callback do to the requests.\<close>

definition stores_effect :: "bool \<Rightarrow> 'w daemon \<Rightarrow> 'w daemon \<Rightarrow> bool" where
  "stores_effect ok d d' \<longleftrightarrow> links d' = links d \<and> (ok \<or> d_crash_ack_pending d' = d_crash_ack_pending d \<and>
     d_rauc_update_pending d' = d_rauc_update_pending d \<and> d_trigger_requested d' = d_trigger_requested d)"

lemma on_trigger_store_effect: "on_trigger_store now d = (ok, d') \<Longrightarrow> stores_effect ok d d'"
  by (cases ok) (auto simp: on_trigger_store_def stores_effect_def links_def on_log_def Let_def split: if_splits)

lemma on_acknowledge_write_cases:
  assumes "on_acknowledge_write J S pid now fp d = Some (Inr (ok, d'))"
  obtains (written) fs' where "ok" "d' = d\<lparr>sy_fs := fs', d_crash_ack_pending := True, d_trigger_requested := True\<rparr>"
  | (failed) fs' lg where "\<not> ok" "d' = d\<lparr>sy_fs := fs', sy_log := lg\<rparr>"
proof -
  obtain content where dump: "jl_dump J 2 (ack_json fp) = Inr content"
    using assms by (cases "jl_dump J 2 (ack_json fp)") (auto simp: on_acknowledge_write_def)
  obtain tr fs' r where w: "atomic_write_file S pid (crash_state_path (state_dir (d_config d))) content (sy_fs d) = (tr, fs', r)"
    by (metis prod_cases3)
  obtain x where r: "r = Some x" using assms dump w by (cases r) (auto simp: on_acknowledge_write_def)
  show thesis
    using assms dump w r by (cases x) (auto simp: on_acknowledge_write_def on_log_def intro: written failed)
qed

lemma on_acknowledge_write_effect: "on_acknowledge_write J S pid now fp d = Some (Inr (ok, d')) \<Longrightarrow> stores_effect ok d d'"
  by (erule on_acknowledge_write_cases) (simp_all add: stores_effect_def links_def)

lemma on_rauc_completed_store_effect: "stores_effect True d (on_rauc_completed_store result d)"
  by (simp add: stores_effect_def links_def on_rauc_completed_store_def on_log_def)

text \<open>What a step of another thread does: the stores of a callback, a write to the descriptor, or the store of the handler.\<close>

lemma other_moves_cases:
  assumes "other_moves J m m'"
  obtains (stores) ok d b where "stores_effect ok (m_daemon m) d" "m_bus m \<noteq> Bus_Owes" "ok \<Longrightarrow> b = Bus_Owes" "b = Bus_Owes \<Longrightarrow> ok"
      "m' = m\<lparr>m_bus := b, m_daemon := d\<rparr>"
  | (bus_wake) "m_bus m = Bus_Owes" "m' = m\<lparr>m_bus := Bus_Idle, m_daemon := wake (m_daemon m)\<rparr>"
  | (signal) "m' = m\<lparr>m_sig_owes := True, m_daemon := handle_shutdown_signal_store (m_daemon m)\<rparr>"
  | (signal_write) "m_sig_owes m" "m' = m\<lparr>m_sig_owes := False, m_daemon := handle_shutdown_signal_write (m_daemon m)\<rparr>"
  using assms
proof (cases rule: other_moves.cases)
  case (trigger now ok d)
  show thesis
    by (rule stores [of ok d "if ok then Bus_Owes else Bus_Idle"]) (use trigger on_trigger_store_effect in \<open>auto split: if_splits\<close>)
next
  case (ack_check fp)
  have "stores_effect False (m_daemon m) (m_daemon m)" by (simp add: stores_effect_def)
  with ack_check show thesis
    by (intro stores [of False "m_daemon m" "if on_acknowledge_check fp (m_daemon m) then Bus_Acking fp else Bus_Idle"]) (auto split: if_splits)
next
  case (ack_write fp S pid now ok d)
  show thesis
    by (rule stores [of ok d "if ok then Bus_Owes else Bus_Idle"]) (use ack_write on_acknowledge_write_effect in \<open>auto split: if_splits\<close>)
next
  case (ack_throw fp S pid now ex)
  have "stores_effect False (m_daemon m) (m_daemon m)" by (simp add: stores_effect_def)
  with ack_throw show thesis by (intro stores [of False "m_daemon m" Bus_Idle]) auto
next
  case (rauc result)
  then show thesis by (intro stores [of True _ Bus_Owes, OF on_rauc_completed_store_effect]) auto
qed

lemma loop_inv_other:
  assumes "other_moves J m m'" "loop_inv m"
  shows "loop_inv m'"
  using assms(1)
proof (cases rule: other_moves_cases)
  case (stores ok d b)
  then show ?thesis using assms(2) by (auto simp: loop_inv_def stores_effect_def links_def Let_def)
qed (use assms(2) in \<open>auto simp: loop_inv_def wake_def handle_shutdown_signal_store_def handle_shutdown_signal_write_def Let_def\<close>)

lemma loop_inv_main: "main_moves J A m m' \<Longrightarrow> loop_inv m \<Longrightarrow> loop_inv m'"
proof (induction m m' rule: main_moves.induct)
  case (main out E m pc d)
  note step = main.hyps and inv = main.prems
  show ?case
  proof (cases "m_pc m")
    case (At_Cycle E' k)
    show ?thesis
    proof (cases "k < 18")
      case True
      show ?thesis
      proof (cases "(cycle_phases J A E' ! k) (m_daemon m)")
        case (Some x)
        show ?thesis
        proof (cases x)
          case (Inr d1)
          with step At_Cycle True Some have "pc = At_Cycle E' (Suc k)" "d = d1"
            by (simp_all add: cycle_step_def cycle_length)
          then show ?thesis
            using phase_effect_at [OF True, of J A E' "m_daemon m" d1] Some Inr inv At_Cycle
            by (auto simp: loop_inv_def links_def Let_def less_Suc_eq)
        qed (use step At_Cycle True Some inv in \<open>auto simp: cycle_step_def cycle_length loop_inv_def Let_def\<close>)
      qed (use step At_Cycle True in \<open>simp add: cycle_step_def cycle_length\<close>)
    qed (use step At_Cycle inv in \<open>auto simp: cycle_step_def cycle_length loop_inv_def Let_def\<close>)
  qed (use step inv in \<open>auto simp: loop_inv_def wait_wakeup_fd_def request_shutdown_def wake_def run_end_def
      notify_stopping_def on_log_def stop_watchdog_thread_def Let_def split: if_splits poll_outcome.splits\<close>)
qed

lemma loop_inv_reachable: "reachable J A m \<Longrightarrow> loop_inv m"
proof (induction rule: reachable.induct)
  case (start I cfg fd lg fs w d E R d')
  then show ?case using run_begin_state [OF start(2) initialize_pristine [OF start(1)]]
    by (simp add: loop_inv_def machine_start_def Let_def)
qed (auto intro: loop_inv_main loop_inv_other)

section \<open>Stopping\<close>

text \<open>The number of steps the main thread has left once a signal has come.\<close>

fun steps_left :: "loop_pc \<Rightarrow> nat" where
  "steps_left (At_Cycle E k) = (18 - k) + 4"
| "steps_left At_Wait = 4"
| "steps_left At_Clear = 3"
| "steps_left At_Test = 3"
| "steps_left At_Signal = 2"
| "steps_left At_Recheck = 2"
| "steps_left At_Stop = 1"
| "steps_left pc = 0"

text \<open>Runs with the number of steps of the main thread.\<close>

inductive run_from :: "json_lib \<Rightarrow> 'w sd_api \<Rightarrow> nat \<Rightarrow> 'w machine \<Rightarrow> 'w machine \<Rightarrow> bool" for J A where
  finish: "run_from J A 0 m m"
| main: "main_moves J A m m' \<Longrightarrow> run_from J A n m' m'' \<Longrightarrow> run_from J A (Suc n) m m''"
| other: "other_moves J m m' \<Longrightarrow> run_from J A n m' m'' \<Longrightarrow> run_from J A n m m''"

lemma other_keeps_signal:
  assumes "other_moves J m m'"
  shows "m_pc m' = m_pc m \<and> (g_shutdown_signal (m_daemon m) \<longrightarrow> g_shutdown_signal (m_daemon m'))"
  using assms
proof (cases rule: other_moves_cases)
  case (stores ok d b)
  then show ?thesis by (simp add: stores_effect_def links_def)
qed (simp_all add: handle_shutdown_signal_store_def handle_shutdown_signal_write_def)

lemma main_after_signal:
  assumes "main_moves J A m m'" and "g_shutdown_signal (m_daemon m)"
  shows "steps_left (m_pc m') < steps_left (m_pc m) \<and> g_shutdown_signal (m_daemon m')
    \<and> (\<forall>E k. m_pc m' = At_Cycle E k \<longrightarrow> (\<exists>k0. m_pc m = At_Cycle E k0))"
  using assms
proof (induction m m' rule: main_moves.induct)
  case (main out E m pc d)
  note step = main.hyps and sig = main.prems
  show ?case
  proof (cases "m_pc m")
    case (At_Cycle E' k)
    show ?thesis
    proof (cases "k < 18 \<and> (\<exists>d1. (cycle_phases J A E' ! k) (m_daemon m) = Some (Inr d1))")
      case True
      then obtain d1 where d1: "(cycle_phases J A E' ! k) (m_daemon m) = Some (Inr d1)" by blast
      with step At_Cycle True have "pc = At_Cycle E' (Suc k)" "d = d1" by (simp_all add: cycle_step_def cycle_length)
      then show ?thesis using phase_effect_at(3) [OF conjunct1 [OF True] d1] sig At_Cycle True by (auto simp: links_def)
    next
      case False
      then show ?thesis using step At_Cycle sig
        by (auto simp: cycle_step_def cycle_length split: if_splits option.splits sum.splits)
    qed
  qed (use step sig in \<open>auto simp: wait_wakeup_fd_def request_shutdown_def run_end_def notify_stopping_def on_log_def
      stop_watchdog_thread_def Let_def split: if_splits poll_outcome.splits\<close>)
qed

lemma run_after_signal:
  assumes "run_from J A n m m'" and "g_shutdown_signal (m_daemon m)"
  shows "n + steps_left (m_pc m') \<le> steps_left (m_pc m) \<and> g_shutdown_signal (m_daemon m')
    \<and> (\<forall>E k. m_pc m' = At_Cycle E k \<longrightarrow> (\<exists>k0. m_pc m = At_Cycle E k0))"
  using assms
proof (induction rule: run_from.induct)
  case (main m m' n m'')
  then show ?case using main_after_signal [OF main.hyps(1) main.prems] by fastforce
next
  case (other m m' n m'')
  then show ?case using other_keeps_signal [OF other.hyps(1)] by simp
qed simp

lemma reachable_run: "run_from J A n m m' \<Longrightarrow> reachable J A m \<Longrightarrow> reachable J A m'"
  by (induction rule: run_from.induct) (auto intro: reachable.intros)

lemma steps_left_bound: "steps_left pc \<le> 22"
  by (cases pc) simp_all

text \<open>The main thread stands still only at the end, after an exception, or in a phase that does not return.\<close>

lemma main_progress:
  assumes "\<And>m'. \<not> main_moves J A m m'"
  shows "m_pc m = Exited \<or> (\<exists>ex. m_pc m = Thrown ex) \<or>
    (\<exists>E k. m_pc m = At_Cycle E k \<and> k < 18 \<and> (cycle_phases J A E ! k) (m_daemon m) = None)"
proof -
  have stuck: "main_step J A out E (m_pc m) (m_daemon m) = None" for out E
    using assms main_moves.main by (metis not_None_eq prod.collapse)
  show ?thesis
  proof (cases "m_pc m")
    case At_Wait
    then show ?thesis using stuck [of Poll_Interrupted] by simp
  next
    case (At_Cycle E k)
    then show ?thesis using stuck
      by (auto simp: cycle_step_def cycle_length split: if_splits option.splits sum.splits)
  qed (use stuck in auto)
qed

text \<open>The watchdog is fed exactly while the daemon is alive: until a stop is requested, each time the
  thread wakes it sends a ping if and only if the last heartbeat is at most the timeout old; so a
  cycle that hangs gets no ping later than the timeout after its heartbeat.\<close>

lemma watchdog_only_when_alive:
  assumes "\<forall>w\<in>set ws. fst (snd w) = beat" and "\<forall>w\<in>set ws. \<not> fst w"
  shows "length (watchdog_loop timeout ws) = length (filter (\<lambda>w. snd (snd w) \<le> beat + timeout) ws)
    \<and> (list_all (\<lambda>w. beat + timeout < snd (snd w)) ws \<longrightarrow> watchdog_loop timeout ws = [])"
proof -
  have len: "length (watchdog_loop timeout ws) = length (filter (\<lambda>w. snd (snd w) \<le> beat + timeout) ws)"
    using assms by (induction ws) (auto simp: algebra_simps)
  moreover have "filter (\<lambda>w. snd (snd w) \<le> beat + timeout) ws = []" if "list_all (\<lambda>w. beat + timeout < snd (snd w)) ws"
    using that by (auto simp: list_all_iff filter_empty_conv)
  ultimately show ?thesis by auto
qed

section \<open>A sample run\<close>

definition sample_run_env :: run_env where
  "sample_run_env = \<lparr>rn_boot = sample_boot_env ''b1'' None, rn_log_now = 0, rn_managed = False, rn_watchdog = None, rn_now_us = 0\<rparr>"

lemma sample_run_begin: "\<exists>d'. run_begin sample_cycle_lib empty_sd sample_cycle_env sample_run_env d = Some (Inr d')"
proof -
  let ?d = "on_log (daemon_starting (ce_version sample_cycle_env)) (setup_signal_handlers (d\<lparr>d_running := True\<rparr>))"
  obtain d1 where c: "collection_cycle sample_cycle_lib empty_sd sample_cycle_env ?d = Some (Inr d1)"
    using sample_cycle_completes by blast
  let ?d2 = "on_log daemon_ready (notify_ready d1)" and ?boot = "sample_boot_env ''b1'' None"
  have "snd (snd (atomic_write_file (be_sys ?boot) 7 (boot_state_path (state_dir (d_config ?d2))) ''{}'' (sy_fs ?d2))) \<noteq> None"
    by (intro atomic_write_returns) (simp add: sample_boot_env_def)
  then obtain tr fs' x where "atomic_write_file (be_sys ?boot) 7 (boot_state_path (state_dir (d_config ?d2))) ''{}'' (sy_fs ?d2)
      = (tr, fs', Some x)"
    by (metis not_None_eq prod.collapse)
  moreover have "jl_dump sample_cycle_lib 2 (boot_state_json st) = Inr ''{}''" for st
    by (simp add: sample_cycle_lib_def boot_state_not_ack)
  moreover have "be_mkdir ?boot = None" "be_pid ?boot = 7" by (simp_all add: sample_boot_env_def)
  ultimately have "\<exists>msgs. mark_boot_success sample_cycle_lib (state_dir (d_config ?d2)) ?boot (sy_fs ?d2) = (tr, fs', Some (Inr msgs))"
    by (simp add: mark_boot_success_def save_boot_state_def Let_def)
  then show ?thesis by (auto simp: run_begin_def c Let_def sample_run_env_def)
qed

text \<open>The machine at its start, and with a signal handled there.\<close>

lemma sample_initialized:
  obtains d :: "int daemon" where "initialize empty_sd sample_init (daemon_new config_defaults 5 log_state_new empty_fs 0) = Some (None, d)"
    "d_wakeup_fd d = 5"
proof -
  have "fst (nl_init (ie_netlink sample_init) nl_monitor_new)"
    by (simp add: nl_init_def sample_init_def split: prod.splits)
  moreover have "init_journal empty_sd d = Some (d\<lparr>d_journal_reader := Some \<lparr>jr_open = True, jr_buffer = []\<rparr>, sy_journal := 1\<rparr>)"
    if "sy_journal d = 0" for d :: "int daemon"
    using that by (simp add: init_journal_def empty_sd_init)
  moreover have "sy_journal (init_rauc sample_init (init_bus sample_init ((init_warnings sample_init
      (daemon_new config_defaults 5 log_state_new empty_fs 0))\<lparr>d_nl_monitor := M\<rparr>))) = (0 :: int)" for M
    by (simp add: init_rauc_def init_bus_def init_warnings_def prepare_state_dir_def sample_init_def on_log_def daemon_new_def Let_def)
  ultimately obtain d :: "int daemon" where
    d: "initialize empty_sd sample_init (daemon_new config_defaults 5 log_state_new empty_fs 0) = Some (None, d)"
    by (cases "nl_init (ie_netlink sample_init) nl_monitor_new") (auto simp: initialize_def Let_def)
  moreover have "d_wakeup_fd d = 5"
    using d by (auto simp: initialize_def init_journal_def Let_def split: prod.splits if_splits)
  ultimately show thesis by (rule that)
qed

lemma sample_machine:
  obtains d where "reachable sample_cycle_lib empty_sd \<lparr>m_pc = At_Test, m_bus = Bus_Idle, m_sig_owes = False, m_daemon = d\<rparr>"
    "d_wakeup_fd d = 5" "\<not> d_shutdown_requested d" "\<not> g_shutdown_signal d"
proof -
  obtain d0 :: "int daemon" where
    i: "initialize empty_sd sample_init (daemon_new config_defaults 5 log_state_new empty_fs 0) = Some (None, d0)" "d_wakeup_fd d0 = 5"
    by (rule sample_initialized)
  obtain d where r: "run_begin sample_cycle_lib empty_sd sample_cycle_env sample_run_env d0 = Some (Inr d)"
    using sample_run_begin by blast
  show thesis
    by (rule that [OF reachable.start [OF i(1) r, unfolded machine_start_def]])
      (use run_begin_links(1) [OF r] run_begin_state [OF r initialize_pristine [OF i(1)]] i(2) in \<open>auto simp: links_def\<close>)
qed

section \<open>Properties\<close>

text \<open>C4: no wake-up is lost: in every interleaving of the main loop with the bus callbacks and the signal
  handler, store by store, when the loop is about to wait and a shutdown signal, a trigger, an
  acknowledgement or an update notification is outstanding with its callback finished, the
  wake-up descriptor is readable, so the wait does not run into its timeout.\<close>

theorem no_lost_wakeup:
  assumes "reachable J A m" and "m_pc m = At_Wait" and "m_bus m \<noteq> Bus_Owes" and "\<not> m_sig_owes m"
    and "0 \<le> d_wakeup_fd (m_daemon m)"
    and "g_shutdown_signal (m_daemon m) \<or> d_trigger_requested (m_daemon m) \<or> d_crash_ack_pending (m_daemon m)
      \<or> d_rauc_update_pending (m_daemon m)"
  shows "poll_may (m_daemon m) Poll_Ready \<and> \<not> poll_may (m_daemon m) Poll_Timeout"
  using loop_inv_reachable [OF assms(1)] assms(2-) by (auto simp: loop_inv_def readable_def Let_def)

theorem no_lost_wakeup_witness:
  "\<exists>m :: int machine. reachable sample_cycle_lib empty_sd m \<and> m_pc m = At_Wait \<and> \<not> poll_may (m_daemon m) Poll_Timeout"
proof -
  let ?J = sample_cycle_lib and ?A = empty_sd
  obtain d where r: "reachable ?J ?A \<lparr>m_pc = At_Test, m_bus = Bus_Idle, m_sig_owes = False, m_daemon = d\<rparr>"
      and d: "d_wakeup_fd d = 5" "\<not> d_shutdown_requested d" "\<not> g_shutdown_signal d"
    by (rule sample_machine)
  let ?m = "\<lambda>pc s d. \<lparr>m_pc = pc, m_bus = Bus_Idle, m_sig_owes = s, m_daemon = d\<rparr>"
  have "reachable ?J ?A (?m At_Signal False d)"
    using reachable.main [OF r main_moves.main [of ?J ?A Poll_Timeout sample_cycle_env]] d by simp
  then have "reachable ?J ?A (?m At_Wait False d)"
    using reachable.main [OF _ main_moves.main [of ?J ?A Poll_Timeout sample_cycle_env "?m At_Signal False d"]] d by simp
  then have "reachable ?J ?A (?m At_Wait True (handle_shutdown_signal_store d))"
    using reachable.other [OF _ other_moves.signal [of "?m At_Wait False d"]] by simp
  then have w: "reachable ?J ?A (?m At_Wait False (handle_shutdown_signal d))"
    using reachable.other [OF _ other_moves.signal_write [of "?m At_Wait True (handle_shutdown_signal_store d)"]]
    by (simp add: handle_shutdown_signal_def)
  have "g_shutdown_signal (handle_shutdown_signal d)" "d_wakeup_fd (handle_shutdown_signal d) = 5"
    using d by (simp_all add: handle_shutdown_signal_def handle_shutdown_signal_store_def handle_shutdown_signal_write_def)
  with no_lost_wakeup [OF w] w show ?thesis by fastforce
qed

text \<open>C5: shutdown is prompt: once the signal handler has run, in any interleaving, the main thread takes at
  most 22 further steps, the 18 phases of a cycle under way included, and starts no new cycle; it
  does not sleep in the wait; and it stands still only when it has left the loop, an exception
  has left it, or a phase under way does not return.\<close>

theorem shutdown_prompt:
  assumes "reachable J A m" and "g_shutdown_signal (m_daemon m)" and "run_from J A n m m'"
  shows "n \<le> 22
    \<and> (\<forall>E k. m_pc m' = At_Cycle E k \<longrightarrow> (\<exists>k0. m_pc m = At_Cycle E k0))
    \<and> (m_pc m' = At_Wait \<and> \<not> m_sig_owes m' \<and> 0 \<le> d_wakeup_fd (m_daemon m') \<longrightarrow> \<not> poll_may (m_daemon m') Poll_Timeout)
    \<and> ((\<forall>m''. \<not> main_moves J A m' m'') \<longrightarrow> m_pc m' = Exited \<or> (\<exists>ex. m_pc m' = Thrown ex)
         \<or> (\<exists>E k. m_pc m' = At_Cycle E k \<and> (cycle_phases J A E ! k) (m_daemon m') = None))"
proof -
  have r: "n + steps_left (m_pc m') \<le> steps_left (m_pc m)" "g_shutdown_signal (m_daemon m')"
      "\<forall>E k. m_pc m' = At_Cycle E k \<longrightarrow> (\<exists>k0. m_pc m = At_Cycle E k0)"
    using run_after_signal [OF assms(3,2)] by auto
  have "n \<le> 22" using r(1) steps_left_bound [of "m_pc m"] by linarith
  moreover have "m_pc m' = At_Wait \<and> \<not> m_sig_owes m' \<and> 0 \<le> d_wakeup_fd (m_daemon m') \<longrightarrow> \<not> poll_may (m_daemon m') Poll_Timeout"
    using loop_inv_reachable [OF reachable_run [OF assms(3,1)]] r(2) by (auto simp: loop_inv_def readable_def Let_def)
  ultimately show ?thesis using r(3) main_progress [of J A m'] by auto
qed

theorem shutdown_prompt_witness:
  "\<exists>(m :: int machine) m' n. g_shutdown_signal (m_daemon m) \<and> run_from sample_cycle_lib empty_sd n m m' \<and> m_pc m' = Exited \<and> n \<le> 22"
proof -
  let ?J = sample_cycle_lib and ?A = empty_sd
  obtain d where r: "reachable ?J ?A \<lparr>m_pc = At_Test, m_bus = Bus_Idle, m_sig_owes = False, m_daemon = d\<rparr>"
      and d: "d_wakeup_fd d = 5" "\<not> d_shutdown_requested d" "\<not> g_shutdown_signal d"
    by (rule sample_machine)
  let ?m = "\<lambda>pc d. \<lparr>m_pc = pc, m_bus = Bus_Idle, m_sig_owes = True, m_daemon = d\<rparr>" and ?d = "handle_shutdown_signal_store d"
  have m: "reachable ?J ?A (?m At_Test ?d)"
    using reachable.other [OF r other_moves.signal] by simp
  have sig: "g_shutdown_signal ?d" "\<not> d_shutdown_requested ?d" using d by (simp_all add: handle_shutdown_signal_store_def)
  have "main_moves ?J ?A (?m At_Test ?d) (?m At_Signal ?d)"
    using main_moves.main [of ?J ?A Poll_Timeout sample_cycle_env "?m At_Test ?d"] sig by simp
  moreover have "main_moves ?J ?A (?m At_Signal ?d) (?m At_Stop (request_shutdown ?d))"
    using main_moves.main [of ?J ?A Poll_Timeout sample_cycle_env "?m At_Signal ?d"] sig by simp
  moreover have "main_moves ?J ?A (?m At_Stop (request_shutdown ?d)) (?m Exited (run_end (request_shutdown ?d)))"
    using main_moves.main [of ?J ?A Poll_Timeout sample_cycle_env "?m At_Stop (request_shutdown ?d)"] by simp
  ultimately have run: "run_from ?J ?A (Suc (Suc (Suc 0))) (?m At_Test ?d) (?m Exited (run_end (request_shutdown ?d)))"
    by (blast intro: run_from.intros)
  have "Suc (Suc (Suc 0)) \<le> 22" using shutdown_prompt [OF m _ run] sig by simp
  with run sig show ?thesis by (metis (no_types, lifting) machine.select_convs(1,4))
qed

end
