(* ===== verification/Main_Entry.thy ===== *)
theory Main_Entry
  imports Daemon_Run
begin

text \<open>
  The command line, \<^verbatim>\<open>src/main.cpp\<close>: arguments, the choice of the configuration, and the exit code.
  The version strings come from the build and are arguments.
\<close>

section \<open>Arguments\<close>

record args =
  ar_config_file :: string
  ar_foreground :: bool
  ar_verbose :: bool
  ar_once :: bool
  ar_dump_config :: bool
  ar_help :: bool
  ar_version :: bool

definition args_default :: args where
  "args_default = \<lparr>ar_config_file = ''/etc/edge/healthd.conf'', ar_foreground = False, ar_verbose = False,
     ar_once = False, ar_dump_config = False, ar_help = False, ar_version = False\<rparr>"

definition parse_log_level :: "string \<Rightarrow> log_level" where
  "parse_log_level level =
     (if level = ''debug'' then L_Debug else if level = ''warn'' then L_Warn
      else if level = ''error'' then L_Error else L_Info)"

fun parse_args_loop :: "string list \<Rightarrow> args \<Rightarrow> args" where
  "parse_args_loop [] a = a"
| "parse_args_loop (arg # rest) a =
     (if arg = ''-h'' \<or> arg = ''--help'' then parse_args_loop rest (a\<lparr>ar_help := True\<rparr>)
      else if arg = ''--version'' then parse_args_loop rest (a\<lparr>ar_version := True\<rparr>)
      else if arg = ''-f'' \<or> arg = ''--foreground'' then parse_args_loop rest (a\<lparr>ar_foreground := True\<rparr>)
      else if arg = ''-v'' \<or> arg = ''--verbose'' then parse_args_loop rest (a\<lparr>ar_verbose := True\<rparr>)
      else if arg = ''--once'' then parse_args_loop rest (a\<lparr>ar_once := True\<rparr>)
      else if arg = ''--dump-config'' then parse_args_loop rest (a\<lparr>ar_dump_config := True\<rparr>)
      else if arg = ''-c'' \<or> arg = ''--config'' then
        (case rest of [] \<Rightarrow> a | f # rest' \<Rightarrow> parse_args_loop rest' (a\<lparr>ar_config_file := f\<rparr>))
      else parse_args_loop rest a)"

text \<open>The list holds the arguments after the name of the program.\<close>

definition parse_args :: "string list \<Rightarrow> args" where
  "parse_args argv = parse_args_loop argv args_default"

section \<open>Help\<close>

record help_colors =
  hc_bold :: string
  hc_dim :: string
  hc_cyan :: string
  hc_byellow :: string
  hc_ul :: string
  hc_reset :: string

definition help_colors_for :: "bool \<Rightarrow> help_colors" where
  "help_colors_for tty =
     (if tty then \<lparr>hc_bold = esc ''1'', hc_dim = esc ''2'', hc_cyan = esc ''36'', hc_byellow = esc ''1;33'',
        hc_ul = esc ''4'', hc_reset = esc ''0''\<rparr>
      else \<lparr>hc_bold = [], hc_dim = [], hc_cyan = [], hc_byellow = [], hc_ul = [], hc_reset = []\<rparr>)"

definition paint :: "string \<Rightarrow> help_colors \<Rightarrow> string \<Rightarrow> string" where
  "paint on c s = on @ s @ hc_reset c"

definition newline :: string where
  "newline = [CHR 0x0A]"

definition print_usage :: "bool \<Rightarrow> string \<Rightarrow> string" where
  "print_usage tty version =
     (let c = help_colors_for tty; flag = paint (hc_cyan c) c; bold = paint (hc_bold c) c; dim = paint (hc_dim c) c;
          title = paint (hc_byellow c) c
      in bold ''edge-healthd'' @ '' '' @ dim version @ newline @
         dim ''Edge device health monitoring daemon'' @ newline @ newline @
         title ''USAGE:'' @ newline @
         ''    '' @ bold ''edge-healthd'' @ '' '' @ flag ''[OPTIONS]'' @ newline @ newline @
         title ''OPTIONS:'' @ newline @
         ''    '' @ flag ''-h'' @ '', '' @ flag ''--help'' @ ''              Show this help message and exit'' @ newline @
         ''    '' @ flag ''--version'' @ ''               Show version information'' @ newline @
         ''    '' @ flag ''-f'' @ '', '' @ flag ''--foreground'' @ ''        Run in foreground (don'' @ [CHR 0x27] @ ''t daemonize)'' @ newline @
         ''    '' @ flag ''-v'' @ '', '' @ flag ''--verbose'' @ ''           Enable debug logging'' @ newline @
         ''    '' @ flag ''-c'' @ '', '' @ flag ''--config'' @ '' '' @ paint (hc_ul c) c ''FILE'' @ ''      Configuration file '' @
           dim ''[default: /etc/edge/healthd.conf]'' @ newline @
         ''    '' @ flag ''--dump-config'' @ ''           Print effective configuration and exit'' @ newline @
         ''    '' @ flag ''--once'' @ ''                  Collect a single snapshot and exit'' @ newline)"

definition print_version :: "bool \<Rightarrow> string \<Rightarrow> string" where
  "print_version tty detailed =
     (let c = help_colors_for tty in paint (hc_bold c) c ''edge-healthd'' @ '' '' @ paint (hc_dim c) c detailed @ newline)"

section \<open>Main\<close>

text \<open>
  What the process finds: whether the configuration file exists (\<open>Inl\<close>: the question fails), its
  content, the wake-up descriptor, files and journal, what initialisation, the first cycle and
  the start of the loop read, and the moves of the main loop and of the other threads.
\<close>

record 'w main_env =
  mn_tty :: bool
  mn_version :: string
  mn_version_detailed :: string
  mn_exists :: "string + bool"
  mn_content :: "string option"
  mn_fd :: int
  mn_fs :: fsys
  mn_journal :: 'w
  mn_init :: init_env
  mn_cycle :: cycle_env
  mn_run :: run_env
  mn_moves :: "move list"

text \<open>An exception outside the last \<^verbatim>\<open>try\<close> ends the process by \<^verbatim>\<open>std::terminate\<close>.\<close>

datatype main_end = Exit int | Aborted string

record main_result =
  mr_end :: main_end
  mr_out :: string
  mr_err :: string

definition EXIT_SUCCESS :: int where
  "EXIT_SUCCESS = 0"

definition EXIT_FAILURE :: int where
  "EXIT_FAILURE = 1"

definition main_config :: "json_lib \<Rightarrow> path \<Rightarrow> bool \<Rightarrow> string option \<Rightarrow> config \<times> string option" where
  "main_config J p path_exists file =
     (if path_exists then
        (case config_load J p file of
           Inr c \<Rightarrow> (c, None)
         | Inl ex \<Rightarrow> (config_defaults, Some (''Failed to load config file: '' @ p @ '' ('' @ ex @ ''); using defaults'')))
      else (config_defaults, Some (''Config file not found: '' @ p @ ''; using defaults'')))"

definition effective_config :: "args \<Rightarrow> config \<Rightarrow> config" where
  "effective_config a c =
     (let c1 = c\<lparr>foreground := ar_foreground a, verbose := ar_verbose a\<rparr>
      in if ar_verbose a then c1\<lparr>log_level := ''debug''\<rparr> else c1)"

definition warning_text :: "string option \<Rightarrow> string" where
  "warning_text w = (case w of Some m \<Rightarrow> ''Warning: '' @ m @ newline | None \<Rightarrow> [])"

definition log_warning :: "string option \<Rightarrow> log_state \<Rightarrow> log_state" where
  "log_warning w lg = (case w of Some m \<Rightarrow> log_warn m lg | None \<Rightarrow> lg)"

definition finish_daemon :: "string \<Rightarrow> 'w daemon outcome \<Rightarrow> main_result option" where
  "finish_daemon err r =
     map_option (\<lambda>x. case x of
        Inr d \<Rightarrow> \<lparr>mr_end = Exit EXIT_SUCCESS, mr_out = [], mr_err = err\<rparr>
      | Inl ex \<Rightarrow> \<lparr>mr_end = Exit EXIT_FAILURE, mr_out = [],
          mr_err = err @ ''Fatal: unhandled exception: '' @ ex @ newline\<rparr>) r"

definition run_daemon :: "json_lib \<Rightarrow> 'w sd_api \<Rightarrow> 'w main_env \<Rightarrow> args \<Rightarrow> config \<Rightarrow> log_state \<Rightarrow> string \<Rightarrow> main_result option" where
  "run_daemon J A M a cfg lg err =
     (case initialize A (mn_init M) (daemon_new cfg (mn_fd M) lg (mn_fs M) (mn_journal M)) of
        None \<Rightarrow> None
      | Some (Some m, d) \<Rightarrow> Some \<lparr>mr_end = Exit EXIT_FAILURE, mr_out = [],
          mr_err = err @ ''Initialization failed: '' @ m @ newline\<rparr>
      | Some (None, d) \<Rightarrow> finish_daemon err
          (if ar_once a then collect_now J A (mn_cycle M) d
           else daemon_run J A (mn_cycle M) (mn_run M) (mn_moves M) d))"

definition main :: "json_lib \<Rightarrow> 'w sd_api \<Rightarrow> 'w main_env \<Rightarrow> string list \<Rightarrow> main_result option" where
  "main J A M argv =
     (let a = parse_args argv in
      if ar_help a then Some \<lparr>mr_end = Exit EXIT_SUCCESS, mr_out = print_usage (mn_tty M) (mn_version M), mr_err = []\<rparr>
      else if ar_version a then
        Some \<lparr>mr_end = Exit EXIT_SUCCESS, mr_out = print_version (mn_tty M) (mn_version_detailed M), mr_err = []\<rparr>
      else case mn_exists M of
        Inl ex \<Rightarrow> Some \<lparr>mr_end = Aborted ex, mr_out = [], mr_err = []\<rparr>
      | Inr e \<Rightarrow>
          let (c, w) = main_config J (ar_config_file a) e (mn_content M); cfg = effective_config a c; err = warning_text w;
              lg = log_warning w (set_level (parse_log_level (log_level cfg)) log_state_new)
          in case validate cfg of
               Some m \<Rightarrow> Some \<lparr>mr_end = Exit EXIT_FAILURE, mr_out = [], mr_err = err @ ''Configuration error: '' @ m @ newline\<rparr>
             | None \<Rightarrow>
                 if ar_dump_config a then
                   (case to_json_string J 2 cfg of
                      Inl ex \<Rightarrow> Some \<lparr>mr_end = Aborted ex, mr_out = [], mr_err = err\<rparr>
                    | Inr t \<Rightarrow> Some \<lparr>mr_end = Exit EXIT_SUCCESS, mr_out = t @ newline, mr_err = err\<rparr>)
                 else run_daemon J A M a cfg lg err)"

section \<open>The arguments\<close>

lemma parse_args_loop_flags:
  assumes "''-c'' \<notin> set argv" and "''--config'' \<notin> set argv"
  shows "parse_args_loop argv a = \<lparr>ar_config_file = ar_config_file a,
    ar_foreground = (ar_foreground a \<or> ''-f'' \<in> set argv \<or> ''--foreground'' \<in> set argv),
    ar_verbose = (ar_verbose a \<or> ''-v'' \<in> set argv \<or> ''--verbose'' \<in> set argv),
    ar_once = (ar_once a \<or> ''--once'' \<in> set argv),
    ar_dump_config = (ar_dump_config a \<or> ''--dump-config'' \<in> set argv),
    ar_help = (ar_help a \<or> ''-h'' \<in> set argv \<or> ''--help'' \<in> set argv),
    ar_version = (ar_version a \<or> ''--version'' \<in> set argv)\<rparr>"
  using assms by (induction argv arbitrary: a) auto

section \<open>Ends of the process\<close>

lemma effective_defaults_valid: "validate (effective_config a config_defaults) = None"
  by (simp add: effective_config_def validate_def config_defaults_def log_excerpt_default_def thresholds_default_def
      is_valid_log_level_def Let_def)

lemma finish_daemon_ends: "finish_daemon err r = Some x \<Longrightarrow> mr_end x \<in> {Exit EXIT_SUCCESS, Exit EXIT_FAILURE}"
  by (cases r; cases "the r") (auto simp: finish_daemon_def)

lemma run_daemon_ends: "run_daemon J A M a cfg lg err = Some x \<Longrightarrow> mr_end x \<in> {Exit EXIT_SUCCESS, Exit EXIT_FAILURE}"
  unfolding run_daemon_def using finish_daemon_ends
  by (fastforce split: option.splits prod.splits)

section \<open>Properties\<close>


definition sample_main_env :: "int main_env" where
  "sample_main_env = \<lparr>mn_tty = False, mn_version = ''1.0'', mn_version_detailed = ''1.0'', mn_exists = Inr False,
     mn_content = None, mn_fd = 5, mn_fs = empty_fs, mn_journal = 0,
     mn_init = sample_init\<lparr>ie_netlink := (ie_netlink sample_init)\<lparr>ne_open := None\<rparr>\<rparr>,
     mn_cycle = sample_cycle_env, mn_run = sample_run_env, mn_moves = []\<rparr>"

lemma sample_args: "parse_args [''-v''] = args_default\<lparr>ar_verbose := True\<rparr>"
  by (simp add: parse_args_def)

lemma sample_run_daemon:
  "\<exists>r. run_daemon J A sample_main_env a cfg lg err = Some r \<and> mr_end r = Exit EXIT_FAILURE"
  by (simp add: run_daemon_def initialize_def sample_main_env_def nl_init_def Let_def)


text \<open>The process ends with exit code 0 or 1, whatever exception the daemon throws; it is aborted only
  when the existence of the configuration file cannot be determined or the dump cannot be printed.\<close>

theorem main_exit_codes:
  assumes "main J A M argv = Some r"
  shows "mr_end r = Exit EXIT_SUCCESS \<or> mr_end r = Exit EXIT_FAILURE
    \<or> (\<exists>ex. mr_end r = Aborted ex \<and> (mn_exists M = Inl ex \<or> ar_dump_config (parse_args argv) \<and>
         (\<exists>c. to_json_string J 2 (effective_config (parse_args argv) c) = Inl ex)))"
  using assms run_daemon_ends
  by (fastforce simp: main_def Let_def split: if_splits sum.splits option.splits prod.splits)

theorem main_exit_codes_witness:
  "\<exists>r. main sample_cycle_lib empty_sd sample_main_env [''--version''] = Some r
     \<and> mr_end r \<in> {Exit EXIT_SUCCESS, Exit EXIT_FAILURE}"
proof -
  obtain r where r: "main sample_cycle_lib empty_sd sample_main_env [''--version''] = Some r"
    by (simp add: main_def parse_args_def args_default_def Let_def)
  from main_exit_codes [OF this] r show ?thesis
    by (auto simp: sample_main_env_def parse_args_def args_default_def)
qed

end
