(* ===== verification/Monitor.thy ===== *)
theory Monitor
  imports Daemon_Run
begin

text \<open>
  What the daemon promises, as a small machine: a growing history of published snapshots, a
  shutdown that is requested by a signal, lets at most one more snapshot out and then stops.  The
  interleaved machine of \<open>Daemon_Run\<close> implements it: what clients of the bus, systemd and
  \<open>current_state\<close> see is at every moment a function of the history.
\<close>

section \<open>Simulation\<close>

text \<open>Every step of the implementation is matched by steps of the specification.\<close>

locale forward_simulation =
  fixes spec_step :: "'a \<Rightarrow> 'a \<Rightarrow> bool"
    and impl_step :: "'c \<Rightarrow> 'c \<Rightarrow> bool"
    and rel :: "'c \<Rightarrow> 'a \<Rightarrow> bool"
  assumes matched: "rel c a \<Longrightarrow> impl_step c c' \<Longrightarrow> \<exists>a'. spec_step\<^sup>*\<^sup>* a a' \<and> rel c' a'"
begin

lemma run_matched: "impl_step\<^sup>*\<^sup>* c c' \<Longrightarrow> rel c a \<Longrightarrow> \<exists>a'. spec_step\<^sup>*\<^sup>* a a' \<and> rel c' a'"
proof (induction rule: rtranclp_induct)
  case (step c1 c2)
  obtain a1 where "spec_step\<^sup>*\<^sup>* a a1" "rel c1 a1" using step.IH step.prems by blast
  then show ?case using matched [OF _ step.hyps(2)] by (meson rtranclp_trans)
qed blast

end

section \<open>The specification\<close>

record monitor =
  mo_history :: "snapshot_state list"
  mo_stopping :: bool
  mo_late :: nat
  mo_stopped :: bool

definition monitor_init :: monitor where
  "monitor_init = \<lparr>mo_history = [], mo_stopping = False, mo_late = 0, mo_stopped = False\<rparr>"

text \<open>The \<open>n\<close>-th snapshot is numbered and its severity is the worst of its domains.\<close>

definition good_snapshot :: "nat \<Rightarrow> snapshot_state \<Rightarrow> bool" where
  "good_snapshot n x \<longleftrightarrow> snap_cycle x = of_nat n
     \<and> sum_severity (snap_summary x) = Max (snd ` set (domain_list (sum_domains (snap_summary x))))"

inductive monitor_step :: "monitor \<Rightarrow> monitor \<Rightarrow> bool" where
  publish: "\<not> mo_stopped s \<Longrightarrow> mo_stopping s \<longrightarrow> mo_late s = 0 \<Longrightarrow> good_snapshot (Suc (length (mo_history s))) x \<Longrightarrow>
    monitor_step s (s\<lparr>mo_history := mo_history s @ [x], mo_late := mo_late s + (if mo_stopping s then 1 else 0)\<rparr>)"
| signal: "monitor_step s (s\<lparr>mo_stopping := True\<rparr>)"
| stop: "mo_stopping s \<Longrightarrow> \<not> mo_stopped s \<Longrightarrow> monitor_step s (s\<lparr>mo_stopped := True\<rparr>)"

definition monitor_inv :: "monitor \<Rightarrow> bool" where
  "monitor_inv s \<longleftrightarrow> mo_late s \<le> 1 \<and> (mo_stopped s \<longrightarrow> mo_stopping s) \<and> (mo_late s > 0 \<longrightarrow> mo_stopping s)
     \<and> mo_late s \<le> length (mo_history s)
     \<and> (\<forall>i<length (mo_history s). good_snapshot (Suc i) (mo_history s ! i))"

lemma monitor_inv_step: "monitor_step s s' \<Longrightarrow> monitor_inv s \<Longrightarrow> monitor_inv s'"
  by (induction rule: monitor_step.induct) (auto simp: monitor_inv_def nth_append less_Suc_eq)

lemma monitor_inv_reachable: "monitor_step\<^sup>*\<^sup>* monitor_init s \<Longrightarrow> monitor_inv s"
  by (induction rule: rtranclp_induct) (simp add: monitor_inv_def monitor_init_def, rule monitor_inv_step)

text \<open>What clients of the bus are sent for a history.\<close>

definition published_last :: "snapshot_state list \<Rightarrow> snapshot_state" where
  "published_last H = last (snapshot_state_default # H)"

definition overall_severity_of :: "snapshot_state list \<Rightarrow> severity" where
  "overall_severity_of H = sum_severity (snap_summary (published_last H))"

definition overall_alarms :: "snapshot_state list \<Rightarrow> bus_signal list" where
  "overall_alarms H = map (\<lambda>(a, b). Health_Alarm ''overall'' (alarm_message a b) (severity_string b))
     (rises Sev_Unknown (map (\<lambda>x. sum_severity (snap_summary x)) H))"

definition crash_alarms :: "snapshot_state list \<Rightarrow> bus_signal list" where
  "crash_alarms H = concat (map (\<lambda>(a, b). new_panic_alarms (snap_crash a) (snap_crash b)) (zip (snapshot_state_default # H) H))"

lemma zip_shift_snoc: "zip (a # xs @ [x]) (xs @ [x]) = zip (a # xs) xs @ [(last (a # xs), x)]"
  by (induction xs arbitrary: a) simp_all

lemma published_last_simps [simp]: "published_last [] = snapshot_state_default" "published_last (H @ [x]) = x"
  by (simp_all add: published_last_def)

lemma overall_severity_of_snoc [simp]: "overall_severity_of (H @ [x]) = sum_severity (snap_summary x)"
  by (simp add: overall_severity_of_def)

lemma last_severity: "last (Sev_Unknown # map (\<lambda>x. sum_severity (snap_summary x)) H) = overall_severity_of H"
  by (cases H rule: rev_cases)
    (simp_all add: overall_severity_of_def snapshot_state_default_def snapshot_summary_default_def)

lemma overall_alarms_snoc:
  "overall_alarms (H @ [x]) = overall_alarms H @
     (let a = overall_severity_of H; b = sum_severity (snap_summary x)
      in if a < b then [Health_Alarm ''overall'' (alarm_message a b) (severity_string b)] else [])"
  by (simp add: overall_alarms_def rises_def zip_shift_snoc last_severity Let_def del: last.simps)

lemma crash_alarms_snoc:
  "crash_alarms (H @ [x]) = crash_alarms H @ new_panic_alarms (snap_crash (published_last H)) (snap_crash x)"
  by (simp add: crash_alarms_def zip_shift_snoc published_last_def)

section \<open>What is seen of the implementation\<close>

definition is_overall_alarm :: "bus_signal \<Rightarrow> bool" where
  "is_overall_alarm g = (case g of Health_Alarm c _ _ \<Rightarrow> c = ''overall'' | Properties_Changed _ \<Rightarrow> False)"

text \<open>The messages to systemd about its life.\<close>

definition life_notes :: "'w daemon \<Rightarrow> string list" where
  "life_notes d = filter (\<lambda>n. n = ''READY=1'' \<or> n = ''STOPPING=1'') (sy_notify d)"

text \<open>Between the store of a snapshot and the report to the bus the clients see the snapshots before it.\<close>

fun reporting :: "loop_pc \<Rightarrow> bool" where
  "reporting (At_Cycle E k) = (k = 15 \<or> k = 16)"
| "reporting pc = False"

fun storing :: "loop_pc \<Rightarrow> bool" where
  "storing (At_Cycle E k) = (k = 15)"
| "storing pc = False"

definition bus_view :: "'w daemon \<Rightarrow> snapshot_state list \<Rightarrow> bool" where
  "bus_view d H \<longleftrightarrow> (case d_health_manager d of
     None \<Rightarrow> sy_signals d = []
   | Some hm \<Rightarrow> OverallSeverity hm = severity_string (overall_severity_of H)
       \<and> filter is_overall_alarm (sy_signals d) = overall_alarms H
       \<and> filter is_crash_alarm (sy_signals d) = crash_alarms H)"

definition monitor_view :: "'w machine \<Rightarrow> monitor \<Rightarrow> bool" where
  "monitor_view m s \<longleftrightarrow> (let d = m_daemon m; H = mo_history s in
     current_state d = published_last H \<and> d_cycle_count d = of_nat (length H)
     \<and> d_last_severity d = overall_severity_of H
     \<and> bus_view d (if reporting (m_pc m) then butlast H else H)
     \<and> d_current_panic_fingerprint d = panic_fingerprint (snap_crash (published_last (if storing (m_pc m) then butlast H else H)))
     \<and> (mo_stopping s \<longleftrightarrow> g_shutdown_signal d)
     \<and> (mo_stopped s \<longleftrightarrow> m_pc m = Exited)
     \<and> life_notes d = (if mo_stopped s then [''READY=1'', ''STOPPING=1''] else [''READY=1'']))"

text \<open>The relation adds what the implementation keeps to itself.\<close>

fun may_publish :: "loop_pc \<Rightarrow> bool" where
  "may_publish (At_Cycle E k) = (k \<le> 14)"
| "may_publish pc = False"

definition monitor_rel :: "'w machine \<Rightarrow> monitor \<Rightarrow> bool" where
  "monitor_rel m s \<longleftrightarrow> monitor_view m s \<and> (let d = m_daemon m; H = mo_history s; B = (if reporting (m_pc m) then butlast H else H) in
     (reporting (m_pc m) \<longrightarrow> H \<noteq> [] \<and> d_prev_sev d = overall_severity_of B)
     \<and> (d_health_manager d \<noteq> None \<longrightarrow> d_last_alarmed_crash_fp d = alarmed_fp (snap_crash (published_last B)))
     \<and> (d_shutdown_requested d \<or> m_pc m = At_Stop \<longrightarrow> g_shutdown_signal d)
     \<and> (may_publish (m_pc m) \<longrightarrow> mo_late s = 0)
     \<and> (mo_late s > 0 \<longrightarrow> mo_stopping s))"

text \<open>Everything the relation looks at in the daemon.\<close>

definition seen :: "'w daemon \<Rightarrow> _" where
  "seen d = (d_health_manager d, d_cycle_count d, d_current_state d, d_last_severity d, d_prev_sev d, d_last_alarmed_crash_fp d,
     d_current_panic_fingerprint d, sy_signals d, life_notes d)"

lemma status_is_no_note [simp]: "''STATUS=v'' @ x \<noteq> ''READY=1''" "''STATUS=v'' @ x \<noteq> ''STOPPING=1''"
  by simp_all

definition keeps_seen :: "('w daemon \<Rightarrow> 'w daemon outcome) \<Rightarrow> bool" where
  "keeps_seen f \<longleftrightarrow> (\<forall>d d'. f d = Some (Inr d') \<longrightarrow> seen d' = seen d)"

lemma seen_slot [simp]: "seen (collect_slot sl E r d) = seen d"
proof -
  have "d_prev_sev (collect_slot sl E r d) = d_prev_sev d" by (simp add: collect_slot_def split: prod.splits)
  then show ?thesis by (simp add: seen_def life_notes_def)
qed

lemma seen_plain_phases:
  "keeps_seen (total_phase (update_watchdog_heartbeat us))" "keeps_seen (total_phase (collect_device E))"
  "keeps_seen (total_phase (collect_services E))" "keeps_seen (total_phase (collect_time_sync E))"
  "keeps_seen (total_phase (collect_update J E))" "keeps_seen (total_phase (collect_journal E))"
  "keeps_seen (total_phase (collect_crash J E))"
  "keeps_seen (total_phase (take_rauc_pending E))" "keeps_seen (total_phase (take_ack_pending E))"
  by (simp_all add: keeps_seen_def collect_device_def collect_services_def collect_time_sync_def collect_update_def
      collect_journal_def collect_crash_def) (simp_all add: seen_def life_notes_def plain_phase_defs)

lemma seen_other_phases:
  "keeps_seen (total_phase (mark_sections E))" "keeps_seen (total_phase (log_snapshot E))"
  "keeps_seen (total_phase (drain_netlink E))"
  by (auto simp: keeps_seen_def seen_def life_notes_def mark_sections_def log_snapshot_def notify_status_def on_log_def
      update_watchdog_heartbeat_def drain_netlink_def Let_def split: option.splits prod.splits)

lemma seen_ingest: "keeps_seen (ingest_journal A)"
  by (auto simp: keeps_seen_def ingest_journal_def seen_def life_notes_def split: option.splits)

lemma seen_resources: "keeps_seen (collect_resources E)"
  unfolding keeps_seen_def
  by (intro allI impI) (auto simp: collect_resources_def split: if_splits, simp add: seen_def life_notes_def)

lemma seen_boot: "keeps_seen (collect_boot J E)"
  unfolding keeps_seen_def
  by (intro allI impI, erule collect_boot_cases) (simp, simp, simp add: seen_def life_notes_def on_log_def)

lemma phases_seen:
  "list_all2 (\<lambda>k f. k \<in> {14, 15, 16} \<or> keeps_seen f) [0..<18] (cycle_phases J A E)"
  by (simp add: cycle_phases_def refresh_phases_def collect_phases_def publish_phases_def upt_rec [of _ 18]
      seen_plain_phases seen_other_phases seen_ingest seen_resources seen_boot)

lemma phase_seen_at:
  assumes "k < 18" "k \<notin> {14, 15, 16}" "(cycle_phases J A E ! k) d = Some (Inr d')"
  shows "seen d' = seen d"
  using list_all2_nthD [OF phases_seen [of J A E], of k] assms by (auto simp: keeps_seen_def)

lemma publish_phases_nth:
  "cycle_phases J A E ! 14 = write_snapshot J E" "cycle_phases J A E ! 15 = total_phase publish_fingerprint"
  "cycle_phases J A E ! 16 = total_phase report_bus"
  by (simp_all add: cycle_phases_def refresh_phases_def collect_phases_def publish_phases_def)

section \<open>The three phases that publish\<close>

lemma write_snapshot_seen:
  assumes "write_snapshot J E d = Some (Inr d')"
  shows "seen d' = (d_health_manager d, d_cycle_count d + 1, aggregate_known_good E d,
    sum_severity (snap_summary (aggregate_known_good E d)), d_last_severity d, d_last_alarmed_crash_fp d,
    d_current_panic_fingerprint d, sy_signals d, life_notes d)"
  using assms by (auto simp: write_snapshot_def seen_def life_notes_def Let_def split: prod.splits)

lemma good_aggregate:
  assumes "d_cycle_count d = of_nat n"
  shows "good_snapshot (Suc n) (aggregate_known_good E d)"
  using assms aggregate_severity worst_of_domains by (simp add: good_snapshot_def aggregate_known_good_def Let_def add.commute)

lemma report_bus_overall:
  assumes "d_health_manager d = Some hm"
  shows "\<exists>sigs. sy_signals (report_bus d) = sy_signals d @ sigs \<and> filter is_overall_alarm sigs =
    (let a = d_prev_sev d; b = d_last_severity d
     in if a < b then [Health_Alarm ''overall'' (alarm_message a b) (severity_string b)] else [])"
proof -
  obtain hm1 sigs1 lg1 where u: "update_severity (d_last_severity d) (d_prev_sev d) hm (sy_log d) = (hm1, sigs1, lg1)"
    by (metis prod_cases3)
  obtain sigs2 latch lg2 where a: "crash_alarm (snap_crash (d_current_state d)) (d_last_alarmed_crash_fp d) lg1 = (sigs2, latch, lg2)"
    by (metis prod_cases3)
  have "filter is_overall_alarm sigs1 = (let a = d_prev_sev d; b = d_last_severity d
      in if a < b then [Health_Alarm ''overall'' (alarm_message a b) (severity_string b)] else [])"
    using u by (auto simp: update_severity_def is_degradation_def dbus.rank_less_iff is_overall_alarm_def Let_def split: if_splits)
  moreover have "filter is_overall_alarm sigs2 = []"
    using a by (auto simp: crash_alarm_def emit_alarm_def is_overall_alarm_def split: if_splits)
  ultimately show ?thesis by (simp add: report_bus_def assms u a)
qed

lemma report_bus_seen:
  "d_cycle_count (report_bus d) = d_cycle_count d" "d_prev_sev (report_bus d) = d_prev_sev d" "life_notes (report_bus d) = life_notes d"
  "d_health_manager (report_bus d) = None \<longleftrightarrow> d_health_manager d = None"
  "d_health_manager d = None \<Longrightarrow> report_bus d = d"
  by (simp_all add: life_notes_def) (simp_all add: report_bus_def split: option.splits prod.splits)

lemma report_bus_view:
  assumes "bus_view d H" and "d_health_manager d \<noteq> None \<longrightarrow> d_last_alarmed_crash_fp d = alarmed_fp (snap_crash (published_last H))"
    and "d_prev_sev d = overall_severity_of H" and "d_last_severity d = sum_severity (snap_summary (d_current_state d))"
  shows "bus_view (report_bus d) (H @ [d_current_state d])
    \<and> (d_health_manager d \<noteq> None \<longrightarrow> d_last_alarmed_crash_fp (report_bus d) = alarmed_fp (snap_crash (d_current_state d)))"
proof (cases "d_health_manager d")
  case None
  then show ?thesis using assms(1) by (simp add: report_bus_seen bus_view_def)
next
  case (Some hm)
  obtain hm' where hm': "d_health_manager (report_bus d) = Some hm'" "hm_severity_str hm' = severity_string (d_last_severity d)"
    using report_bus_severity [OF Some] by blast
  obtain sigs where o: "sy_signals (report_bus d) = sy_signals d @ sigs" "filter is_overall_alarm sigs =
      (let a = d_prev_sev d; b = d_last_severity d
       in if a < b then [Health_Alarm ''overall'' (alarm_message a b) (severity_string b)] else [])"
    using report_bus_overall [OF Some] by blast
  have c: "d_last_alarmed_crash_fp (report_bus d) = alarmed_fp (snap_crash (d_current_state d))"
    "filter is_crash_alarm sigs = new_panic_alarms (snap_crash (published_last H)) (snap_crash (d_current_state d))"
    using report_bus_alarms [OF Some, of "snap_crash (published_last H)"] assms(2) Some o(1) by auto
  show ?thesis
    using assms(1,3,4) Some hm' o c
    by (simp add: bus_view_def OverallSeverity_def overall_alarms_snoc crash_alarms_snoc)
qed

section \<open>The simulation\<close>

lemma monitor_rel_other_parts [simp]:
  "monitor_rel (m\<lparr>m_bus := b\<rparr>) s = monitor_rel m s" "monitor_rel (m\<lparr>m_sig_owes := c\<rparr>) s = monitor_rel m s"
  by (simp_all add: monitor_rel_def monitor_view_def)

lemma bus_view_cong: "d_health_manager d = d_health_manager d' \<Longrightarrow> sy_signals d = sy_signals d' \<Longrightarrow> bus_view d = bus_view d'"
  by (cases "d_health_manager d'") (auto simp: fun_eq_iff bus_view_def)

lemma bus_view_seen: "seen d = seen d' \<Longrightarrow> bus_view d = bus_view d'"
  by (rule bus_view_cong) (simp_all add: seen_def)

text \<open>Steps that are not seen.\<close>

lemma monitor_rel_unseen:
  assumes "monitor_rel m s" and "seen d = seen (m_daemon m)" and "g_shutdown_signal d = g_shutdown_signal (m_daemon m)"
    and "d_shutdown_requested d \<or> pc = At_Stop \<longrightarrow> g_shutdown_signal d"
    and "reporting pc = reporting (m_pc m)" "storing pc = storing (m_pc m)" "(pc = Exited) = (m_pc m = Exited)"
    and "may_publish pc \<longrightarrow> mo_late s = 0"
  shows "monitor_rel (m\<lparr>m_pc := pc, m_daemon := d\<rparr>) s"
  using assms bus_view_seen [OF assms(2)] by (auto simp: monitor_rel_def monitor_view_def seen_def current_state_def Let_def)

lemma monitor_rel_shutdown:
  "monitor_rel m s \<Longrightarrow> d_shutdown_requested (m_daemon m) \<or> m_pc m = At_Stop \<Longrightarrow> g_shutdown_signal (m_daemon m)"
  "monitor_rel m s \<Longrightarrow> may_publish (m_pc m) \<Longrightarrow> mo_late s = 0"
  "monitor_rel m s \<Longrightarrow> \<not> g_shutdown_signal (m_daemon m) \<Longrightarrow> mo_late s = 0"
  by (auto simp: monitor_rel_def monitor_view_def Let_def)

lemma seen_requests:
  "seen (wake d) = seen d" "seen (request_shutdown d) = seen d" "seen (snd (wait_wakeup_fd out d)) = seen d"
  "seen (handle_shutdown_signal_store d) = seen d" "seen (handle_shutdown_signal_write d) = seen d"
  "seen (d\<lparr>d_trigger_requested := b\<rparr>) = seen d" "seen (on_rauc_completed_store result d) = seen d"
  "seen (d\<lparr>sy_eventfd := n\<rparr>) = seen d"
  by (simp_all add: seen_def life_notes_def wake_def eventfd_write_def request_shutdown_def wait_wakeup_fd_def on_log_def
      handle_shutdown_signal_store_def handle_shutdown_signal_write_def on_rauc_completed_store_def Let_def split: poll_outcome.split)

lemma request_shutdown_signal [simp]: "g_shutdown_signal (request_shutdown d) = g_shutdown_signal d"
  by (simp add: request_shutdown_def Let_def)

lemma seen_trigger: "on_trigger_store now d = (ok, d') \<Longrightarrow> seen d' = seen d"
  by (auto simp: on_trigger_store_def seen_def life_notes_def on_log_def Let_def split: if_splits)

lemma seen_acknowledge: "on_acknowledge_write J S pid now fp d = Some (Inr (ok, d')) \<Longrightarrow> seen d' = seen d"
  by (erule on_acknowledge_write_cases) (simp_all add: seen_def life_notes_def)

lemma other_moves_seen:
  assumes "other_moves J m m'"
  shows "seen (m_daemon m') = seen (m_daemon m) \<and> m_pc m' = m_pc m \<and> d_shutdown_requested (m_daemon m') = d_shutdown_requested (m_daemon m)
    \<and> (g_shutdown_signal (m_daemon m') = g_shutdown_signal (m_daemon m) \<or> g_shutdown_signal (m_daemon m'))"
proof -
  have "seen (m_daemon m') = seen (m_daemon m)"
    using assms by (induction m m' rule: other_moves.induct) (auto simp: seen_requests intro: seen_trigger seen_acknowledge)
  moreover have "m_pc m' = m_pc m \<and> d_shutdown_requested (m_daemon m') = d_shutdown_requested (m_daemon m)
    \<and> (g_shutdown_signal (m_daemon m') = g_shutdown_signal (m_daemon m) \<or> g_shutdown_signal (m_daemon m'))"
    using assms
  proof (cases rule: other_moves_cases)
    case (stores ok d b)
    then show ?thesis by (simp add: stores_effect_def links_def)
  qed (simp_all add: handle_shutdown_signal_store_def handle_shutdown_signal_write_def eventfd_write_def)
  ultimately show ?thesis by simp
qed

lemma other_moves_matched:
  assumes "monitor_rel m s" "other_moves J m m'"
  shows "\<exists>s'. monitor_step\<^sup>*\<^sup>* s s' \<and> monitor_rel m' s'"
proof (cases "g_shutdown_signal (m_daemon m') = g_shutdown_signal (m_daemon m)")
  case True
  have "monitor_rel m' s"
    using assms(1) other_moves_seen [OF assms(2)] bus_view_seen [of "m_daemon m'" "m_daemon m"] True
    by (auto simp: monitor_rel_def monitor_view_def seen_def current_state_def Let_def)
  then show ?thesis by blast
next
  case False
  then have "monitor_rel m' (s\<lparr>mo_stopping := True\<rparr>)"
    using assms(1) other_moves_seen [OF assms(2)] bus_view_seen [of "m_daemon m'" "m_daemon m"]
    by (auto simp: monitor_rel_def monitor_view_def seen_def current_state_def Let_def)
  then show ?thesis using monitor_step.signal by blast
qed

text \<open>The phases of a cycle.\<close>

lemma snapshot_matched:
  assumes "monitor_rel m s" "m_pc m = At_Cycle E 14" "write_snapshot J E (m_daemon m) = Some (Inr d)"
  shows "\<exists>s'. monitor_step\<^sup>*\<^sup>* s s' \<and> monitor_rel (m\<lparr>m_pc := At_Cycle E 15, m_daemon := d\<rparr>) s'"
proof -
  let ?x = "aggregate_known_good E (m_daemon m)"
  let ?s = "s\<lparr>mo_history := mo_history s @ [?x], mo_late := mo_late s + (if mo_stopping s then 1 else 0)\<rparr>"
  have links: "g_shutdown_signal d = g_shutdown_signal (m_daemon m)" "d_shutdown_requested d = d_shutdown_requested (m_daemon m)"
    using assms(3) by (auto simp: write_snapshot_def Let_def split: prod.splits)
  have "good_snapshot (Suc (length (mo_history s))) ?x"
    by (rule good_aggregate) (use assms(1) in \<open>simp add: monitor_rel_def monitor_view_def Let_def\<close>)
  moreover have "mo_late s = 0" using monitor_rel_shutdown(2) [OF assms(1)] assms(2) by simp
  moreover have "\<not> mo_stopped s" using assms(1,2) by (simp add: monitor_rel_def monitor_view_def Let_def)
  ultimately have "monitor_step s ?s" by (intro monitor_step.publish) auto
  moreover have "bus_view d = bus_view (m_daemon m)"
    using write_snapshot_seen [OF assms(3)] by (intro bus_view_cong) (simp_all add: seen_def)
  then have "monitor_rel (m\<lparr>m_pc := At_Cycle E 15, m_daemon := d\<rparr>) ?s"
    using assms(1,2) links write_snapshot_seen [OF assms(3)]
    by (auto simp: monitor_rel_def monitor_view_def seen_def current_state_def Let_def add.commute)
  ultimately show ?thesis by blast
qed

lemma fingerprint_matched:
  assumes "monitor_rel m s" "m_pc m = At_Cycle E 15"
  shows "monitor_rel (m\<lparr>m_pc := At_Cycle E 16, m_daemon := publish_fingerprint (m_daemon m)\<rparr>) s"
proof -
  have "bus_view (publish_fingerprint (m_daemon m)) = bus_view (m_daemon m)"
    by (rule bus_view_cong) (simp_all add: publish_fingerprint_def)
  then show ?thesis
    using assms by (simp add: monitor_rel_def monitor_view_def Let_def)
      (auto simp: current_state_def publish_fingerprint_def life_notes_def)
qed

lemma report_matched:
  assumes "monitor_rel m s" "m_pc m = At_Cycle E 16"
  shows "monitor_rel (m\<lparr>m_pc := At_Cycle E 17, m_daemon := report_bus (m_daemon m)\<rparr>) s"
proof -
  have links: "g_shutdown_signal (report_bus d) = g_shutdown_signal d" "d_shutdown_requested (report_bus d) = d_shutdown_requested d"
    for d :: "'a daemon"
    by (simp_all add: report_bus_def split: option.splits prod.splits)
  have rel: "mo_history s \<noteq> []" "d_current_state (m_daemon m) = last (mo_history s)"
    "bus_view (m_daemon m) (butlast (mo_history s))" "d_prev_sev (m_daemon m) = overall_severity_of (butlast (mo_history s))"
    "d_health_manager (m_daemon m) \<noteq> None \<longrightarrow>
      d_last_alarmed_crash_fp (m_daemon m) = alarmed_fp (snap_crash (published_last (butlast (mo_history s))))"
    "d_last_severity (m_daemon m) = sum_severity (snap_summary (d_current_state (m_daemon m)))"
    using assms
    by (auto simp: monitor_rel_def monitor_view_def current_state_def published_last_def overall_severity_of_def Let_def)
  have last: "published_last (mo_history s) = last (mo_history s)" using rel(1) by (simp add: published_last_def)
  show ?thesis
    using report_bus_view [OF rel(3,5,4,6)] report_bus_seen(4) [of "m_daemon m"] rel(1,2) assms
    by (auto simp: monitor_rel_def monitor_view_def current_state_def report_bus_seen last links Let_def)
qed

lemma phase_matched:
  assumes "monitor_rel m s" "m_pc m = At_Cycle E k" "k < 18" "(cycle_phases J A E ! k) (m_daemon m) = Some (Inr d)"
  shows "\<exists>s'. monitor_step\<^sup>*\<^sup>* s s' \<and> monitor_rel (m\<lparr>m_pc := At_Cycle E (Suc k), m_daemon := d\<rparr>) s'"
proof -
  have links: "g_shutdown_signal d = g_shutdown_signal (m_daemon m)" "d_shutdown_requested d = d_shutdown_requested (m_daemon m)"
    using phase_effect_at(3) [OF assms(3,4)] by (simp_all add: links_def)
  consider (snapshot) "k = 14" | (store) "k = 15" | (report) "k = 16" | (quiet) "k \<notin> {14, 15, 16}" by blast
  then show ?thesis
  proof cases
    case snapshot
    then show ?thesis using snapshot_matched [OF assms(1)] assms(2,4) by (simp add: publish_phases_nth)
  next
    case store
    then show ?thesis using fingerprint_matched [OF assms(1)] assms(2,4) by (auto simp: publish_phases_nth)
  next
    case report
    then show ?thesis using report_matched [OF assms(1)] assms(2,4) by (auto simp: publish_phases_nth)
  next
    case quiet
    then have "monitor_rel (m\<lparr>m_pc := At_Cycle E (Suc k), m_daemon := d\<rparr>) s"
      using phase_seen_at [OF assms(3) quiet assms(4)] links monitor_rel_shutdown(1,2) [OF assms(1)] assms(2)
      by (intro monitor_rel_unseen [OF assms(1)]) auto
    then show ?thesis by blast
  qed
qed

lemma main_moves_matched:
  assumes "monitor_rel m s" "main_moves J A m m'"
  shows "\<exists>s'. monitor_step\<^sup>*\<^sup>* s s' \<and> monitor_rel m' s'"
proof -
  obtain out E pc d where step: "main_step J A out E (m_pc m) (m_daemon m) = Some (pc, d)"
    and m': "m' = m\<lparr>m_pc := pc, m_daemon := d\<rparr>"
    using assms(2) by (rule main_movesE)
  note shut = monitor_rel_shutdown [OF assms(1)]
  show ?thesis
  proof (cases "m_pc m")
    case (At_Cycle E' k)
    show ?thesis
    proof (cases "k < 18 \<and> (\<exists>d1. (cycle_phases J A E' ! k) (m_daemon m) = Some (Inr d1))")
      case True
      then obtain d1 where d1: "(cycle_phases J A E' ! k) (m_daemon m) = Some (Inr d1)" by blast
      with step At_Cycle True have "pc = At_Cycle E' (Suc k)" "d = d1" by (simp_all add: cycle_step_def cycle_length)
      then show ?thesis using phase_matched [OF assms(1) At_Cycle _ d1] True m' by simp
    next
      case False
      have "monitor_rel m' s"
        unfolding m'
        by (rule monitor_rel_unseen [OF assms(1)])
          (use step At_Cycle False shut in \<open>auto simp: cycle_step_def cycle_length publish_phases_nth split: if_splits option.splits sum.splits\<close>)
      then show ?thesis by blast
    qed
  next
    case At_Stop
    have "d = run_end (m_daemon m)" "pc = Exited" using step At_Stop by simp_all
    moreover have "bus_view (run_end (m_daemon m)) = bus_view (m_daemon m)"
      by (rule bus_view_cong) (simp_all add: run_end_def notify_stopping_def on_log_def stop_watchdog_thread_def)
    ultimately have "monitor_rel m' (s\<lparr>mo_stopped := True\<rparr>)"
      using assms(1) At_Stop shut(1)
      by (simp add: m' monitor_rel_def monitor_view_def Let_def)
        (auto simp: current_state_def life_notes_def run_end_def notify_stopping_def on_log_def stop_watchdog_thread_def)
    moreover have "monitor_step s (s\<lparr>mo_stopped := True\<rparr>)"
      using assms(1) At_Stop shut(1) by (intro monitor_step.stop) (auto simp: monitor_rel_def monitor_view_def Let_def)
    ultimately show ?thesis by blast
  next
    case At_Recheck
    have "monitor_rel m' s"
      unfolding m' by (rule monitor_rel_unseen [OF assms(1)])
        (use step At_Recheck shut in \<open>auto simp: seen_requests split: if_splits\<close>)
    then show ?thesis by blast
  qed (use step shut in \<open>auto simp: m' seen_requests wait_wakeup_fd_def
      intro!: exI [of _ s] monitor_rel_unseen [OF assms(1)] split: if_splits poll_outcome.splits\<close>)
qed

interpretation mon: forward_simulation monitor_step "\<lambda>m m'. main_moves J A m m' \<or> other_moves J m m'" monitor_rel for J A
  by unfold_locales (auto intro: main_moves_matched other_moves_matched)

section \<open>The start\<close>

lemma first_cycle_view:
  assumes "collection_cycle J A E d = Some (Inr d')" and "pristine d"
  shows "bus_view d' [current_state d']" and "good_snapshot (Suc 0) (current_state d')"
    and "d_health_manager d' \<noteq> None \<longrightarrow> d_last_alarmed_crash_fp d' = alarmed_fp (snap_crash (current_state d'))"
    and "life_notes d' = []"
proof -
  obtain d1 where c: "run_phases (refresh_phases A E @ collect_phases J E) d = Some (Inr d1)"
    and p: "run_phases (publish_phases J E) d1 = Some (Inr d')"
    using assms(1) by (rule collection_cycle_split)
  have k: "published d1 = published d" by (rule collecting_keeps_published [OF c])
  obtain fs' lg where w: "d' = log_snapshot E (report_bus (publish_fingerprint ((mark_sections E d1)\<lparr>d_cycle_count := d_cycle_count d1 + 1,
       sy_fs := fs', sy_log := lg, d_prev_sev := d_last_severity d1,
       d_current_state := aggregate_known_good E (mark_sections E d1),
       d_last_severity := sum_severity (snap_summary (aggregate_known_good E (mark_sections E d1)))\<rparr>)))"
    (is "_ = log_snapshot E (report_bus ?X)")
    using p by (rule publish_phases_run)
  have X: "d_health_manager ?X \<in> {None, Some health_manager_new}" "sy_signals ?X = []" "d_last_alarmed_crash_fp ?X = None"
      "d_prev_sev ?X = Sev_Unknown" "d_last_severity ?X = sum_severity (snap_summary (d_current_state ?X))"
      "sy_notify ?X = []" "d_cycle_count ?X = 1" "d_current_state ?X = aggregate_known_good E (mark_sections E d1)"
    using k assms(2) by (simp_all add: publish_fingerprint_def mark_sections_def published_def pristine_def Let_def)
  have none: "overall_severity_of [] = Sev_Unknown" "alarmed_fp (snap_crash (published_last [])) = None"
    by (simp_all add: overall_severity_of_def alarmed_fp_def active_panic_def default_simps)
  have "bus_view ?X []"
    using X(1,2) by (auto simp: bus_view_def OverallSeverity_def health_manager_new_def none overall_alarms_def crash_alarms_def rises_def)
  note r = report_bus_view [OF this, unfolded none, OF _ X(4,5)]
  have st: "current_state d' = d_current_state ?X" by (simp add: w current_state_def)
  have "bus_view d' = bus_view (report_bus ?X)" by (rule bus_view_cong) (simp_all add: w)
  then show "bus_view d' [current_state d']" using r X(3) by (simp add: st)
  show "d_health_manager d' \<noteq> None \<longrightarrow> d_last_alarmed_crash_fp d' = alarmed_fp (snap_crash (current_state d'))"
    unfolding st using r X(3) report_bus_seen(4) [of ?X] by (auto simp: w)
  show "life_notes d' = []" using X(6) by (simp add: w life_notes_def)
  show "good_snapshot (Suc 0) (current_state d')"
    unfolding st X(8) by (rule good_aggregate) (use k assms(2) in \<open>simp add: mark_sections_def published_def pristine_def Let_def\<close>)
qed

lemma start_related:
  assumes "initialize A I (daemon_new cfg fd lg fs w) = Some (None, d)" and "run_begin J A E R d = Some (Inr d')"
  shows "\<exists>s. monitor_step\<^sup>*\<^sup>* monitor_init s \<and> monitor_rel (machine_start d') s"
proof -
  have pr: "pristine d" by (rule initialize_pristine [OF assms(1)])
  obtain d1 fs' lg where c: "collection_cycle J A E (before_first_cycle E d) = Some (Inr d1)"
    and d': "d' = enter_event_loop (start_watchdog_thread (rn_managed R) (rn_watchdog R) (rn_now_us R) ((notify_ready d1)\<lparr>sy_fs := fs', sy_log := lg\<rparr>))"
    using assms(2) by (rule run_begin_cases)
  have p: "pristine (before_first_cycle E d)" using pr by (simp add: before_first_cycle_def setup_signal_handlers_def pristine_def on_log_def)
  note f = first_cycle_view [OF c p] cycle_facts [OF c]
  let ?s = "monitor_init\<lparr>mo_history := [current_state d1]\<rparr>"
  have "d_health_manager d' = d_health_manager d1" "sy_signals d' = sy_signals d1" "current_state d' = current_state d1"
      "d_cycle_count d' = d_cycle_count d1" "d_last_severity d' = d_last_severity d1" "d_last_alarmed_crash_fp d' = d_last_alarmed_crash_fp d1"
      "d_current_panic_fingerprint d' = d_current_panic_fingerprint d1" "life_notes d' = life_notes d1 @ [''READY=1'']"
    by (simp_all add: d' enter_event_loop_def start_watchdog_thread_def notify_ready_def on_log_def update_watchdog_heartbeat_def
        current_state_def life_notes_def Let_def)
  moreover have "\<not> g_shutdown_signal d'" "\<not> d_shutdown_requested d'" using run_begin_state [OF assms(2) pr] by simp_all
  moreover have "bus_view d' = bus_view d1" using calculation by (intro bus_view_cong) simp_all
  moreover have "d_cycle_count (before_first_cycle E d) = 0" using p by (simp add: pristine_def)
  ultimately have "monitor_rel (machine_start d') ?s"
    using f by (auto simp: monitor_rel_def monitor_view_def machine_start_def monitor_init_def overall_severity_of_def published_last_def Let_def)
  moreover have "monitor_step monitor_init ?s"
    using monitor_step.publish [of monitor_init "current_state d1"] f(2) by (simp add: monitor_init_def)
  ultimately show ?thesis by blast
qed

lemma reachable_related: "reachable J A m \<Longrightarrow> \<exists>s. monitor_step\<^sup>*\<^sup>* monitor_init s \<and> monitor_rel m s"
proof (induction rule: reachable.induct)
  case (main m m')
  then show ?case using mon.matched [of m _ J A m'] by (meson rtranclp_trans)
next
  case (other m m')
  then show ?case using mon.matched [of m _ J A m'] by (meson rtranclp_trans)
qed (rule start_related)

section \<open>The end\<close>

definition life :: "'w daemon \<Rightarrow> bool \<times> bool \<times> bool \<times> bool \<times> bool" where
  "life d = (d_running d, d_dbus_connection d, d_bus_loop d, d_watchdog_thread d, d_watchdog_stop d)"

definition quit_inv :: "'w machine \<Rightarrow> bool" where
  "quit_inv m \<longleftrightarrow> (let d = m_daemon m in
     (d_shutdown_requested d \<longleftrightarrow> m_pc m \<in> {At_Stop, Exited}) \<and>
     (d_shutdown_requested d \<and> d_dbus_connection d \<longrightarrow> \<not> d_bus_loop d) \<and>
     (m_pc m = Exited \<longrightarrow> \<not> d_running d \<and> (d_watchdog_thread d \<longrightarrow> d_watchdog_stop d)))"

lemma life_other: "other_moves J m m' \<Longrightarrow> life (m_daemon m') = life (m_daemon m)"
proof (induction m m' rule: other_moves.induct)
  case (trigger m now ok d)
  then show ?case by (auto simp: on_trigger_store_def life_def on_log_def Let_def split: if_splits)
next
  case (ack_write m fp S pid now ok d)
  then show ?case by (auto elim!: on_acknowledge_write_cases simp: life_def)
qed (simp_all add: life_def on_rauc_completed_store_def on_log_def wake_def eventfd_write_def handle_shutdown_signal_store_def
    handle_shutdown_signal_write_def)

lemma quit_inv_main:
  assumes "main_moves J A m m'" "quit_inv m"
  shows "quit_inv m'"
proof -
  obtain out E pc d where step: "main_step J A out E (m_pc m) (m_daemon m) = Some (pc, d)"
    and m': "m' = m\<lparr>m_pc := pc, m_daemon := d\<rparr>"
    using assms(1) by (rule main_movesE)
  show ?thesis
  proof (cases "m_pc m")
    case (At_Cycle E' k)
    have "\<not> d_shutdown_requested (m_daemon m)" using assms(2) At_Cycle by (simp add: quit_inv_def Let_def)
    moreover have "d_shutdown_requested d = d_shutdown_requested (m_daemon m)" and pc: "pc \<notin> {At_Stop, Exited}"
      using step At_Cycle phase_effect_at(3) [of k J A E' "m_daemon m" d]
      by (auto simp: cycle_step_def cycle_length links_def split: if_splits option.splits sum.splits)
    ultimately show ?thesis by (auto simp: m' quit_inv_def Let_def)
  next
    case At_Stop
    then show ?thesis using step assms(2)
      by (auto simp: m' quit_inv_def run_end_def notify_stopping_def on_log_def stop_watchdog_thread_def Let_def split: if_splits)
  qed (use step assms(2) in \<open>auto simp: m' quit_inv_def request_shutdown_def wait_wakeup_fd_def Let_def
      split: if_splits poll_outcome.splits\<close>)
qed

lemma quit_inv_reachable: "reachable J A m \<Longrightarrow> quit_inv m"
proof (induction rule: reachable.induct)
  case (start I cfg fd lg fs w d E R d')
  then show ?case using run_begin_state [OF start(2) initialize_pristine [OF start(1)]] by (simp add: quit_inv_def machine_start_def Let_def)
next
  case (other m m')
  then show ?case using life_other [OF other.hyps(2)] other_moves_seen [OF other.hyps(2)]
    by (auto simp: quit_inv_def life_def Let_def)
qed (rule quit_inv_main)

section \<open>Properties\<close>

text \<open>C3: the daemon implements its specification: every reachable state of the interleaved machine is a view
  of a state of the monitor.  So in every interleaving the snapshots are numbered without gaps, each
  rated by the worst of its domains; \<open>current_state\<close>, the severity property, the alarms sent so
  far and the fingerprint that can be acknowledged are those of the history, up to the report
  that is under way; at most one snapshot is published after a shutdown signal; the loop ends
  only after a signal; and systemd is told \<open>READY\<close> once and \<open>STOPPING\<close> at the end.\<close>

theorem machine_refines_monitor:
  assumes "reachable J A m"
  shows "\<exists>s. monitor_step\<^sup>*\<^sup>* monitor_init s \<and> monitor_view m s \<and> mo_late s \<le> 1 \<and> (mo_stopped s \<longrightarrow> mo_stopping s)
    \<and> (\<forall>i<length (mo_history s). good_snapshot (Suc i) (mo_history s ! i))"
proof -
  obtain s where s: "monitor_step\<^sup>*\<^sup>* monitor_init s" "monitor_rel m s" using reachable_related [OF assms] by blast
  then have "monitor_view m s" by (simp add: monitor_rel_def)
  then show ?thesis using s monitor_inv_reachable [OF s(1)] by (auto simp: monitor_inv_def)
qed

theorem machine_refines_monitor_witness:
  "\<exists>(m :: int machine) s. reachable sample_cycle_lib empty_sd m \<and> monitor_view m s \<and> life_notes (m_daemon m) = [''READY=1'']"
proof -
  obtain d where r: "reachable sample_cycle_lib empty_sd \<lparr>m_pc = At_Test, m_bus = Bus_Idle, m_sig_owes = False, m_daemon = d\<rparr>"
    by (rule sample_machine)
  obtain s where "monitor_view \<lparr>m_pc = At_Test, m_bus = Bus_Idle, m_sig_owes = False, m_daemon = d\<rparr> s"
    using machine_refines_monitor [OF r] by blast
  with r show ?thesis by (intro exI conjI) (auto simp: monitor_view_def Let_def)
qed

text \<open>C15: the life of the process: when \<open>run\<close> returns, whatever the threads did, a shutdown signal has come, the
  watchdog thread, if there is one, was told to stop, the event loop of the bus has been left,
  and systemd has been told \<open>READY\<close> and then \<open>STOPPING\<close>, each once.\<close>

theorem run_life_cycle:
  assumes "initialize A I (daemon_new cfg fd lg fs w) = Some (None, d)" and "daemon_run J A E R mvs d = Some (Inr d')"
  shows "g_shutdown_signal d' \<and> life_notes d' = [''READY=1'', ''STOPPING=1''] \<and> \<not> d_running d'
    \<and> (d_dbus_connection d' \<longrightarrow> \<not> d_bus_loop d') \<and> (d_watchdog_thread d' \<longrightarrow> d_watchdog_stop d')"
proof -
  obtain d1 m where b: "run_begin J A E R d = Some (Inr d1)" and r: "run_moves J A mvs (machine_start d1) = Some m"
    and m: "m_pc m = Exited" "m_daemon m = d'"
    using assms(2) by (auto simp: daemon_run_def run_loop_def split: option.splits sum.splits loop_pc.splits)
  have "reachable J A m" by (rule run_moves_reachable [OF r reachable.start [OF assms(1) b]])
  then obtain s where s: "monitor_step\<^sup>*\<^sup>* monitor_init s" "monitor_rel m s" using reachable_related by blast
  have "quit_inv m" by (rule quit_inv_reachable [OF \<open>reachable J A m\<close>])
  then show ?thesis using s m monitor_inv_reachable [OF s(1)]
    by (auto simp: quit_inv_def monitor_rel_def monitor_view_def monitor_inv_def Let_def)
qed

theorem run_life_cycle_witness:
  "\<exists>d' :: int daemon. daemon_run sample_cycle_lib empty_sd sample_cycle_env sample_run_env
      (Signal_Store # replicate 3 (Main_Move Poll_Timeout sample_cycle_env)) (the (map_option snd
        (initialize empty_sd sample_init (daemon_new config_defaults 5 log_state_new empty_fs 0)))) = Some (Inr d')
    \<and> life_notes d' = [''READY=1'', ''STOPPING=1'']"
proof -
  obtain d :: "int daemon" where
    i: "initialize empty_sd sample_init (daemon_new config_defaults 5 log_state_new empty_fs 0) = Some (None, d)"
    by (rule sample_initialized)
  obtain d1 where b: "run_begin sample_cycle_lib empty_sd sample_cycle_env sample_run_env d = Some (Inr d1)"
    using sample_run_begin by blast
  have "\<not> d_shutdown_requested d1" using run_begin_state [OF b initialize_pristine [OF i]] by simp
  then obtain d' where "daemon_run sample_cycle_lib empty_sd sample_cycle_env sample_run_env
      (Signal_Store # replicate 3 (Main_Move Poll_Timeout sample_cycle_env)) d = Some (Inr d')"
    by (simp add: daemon_run_def b run_loop_def machine_start_def numeral_3_eq_3 handle_shutdown_signal_store_def)
  with run_life_cycle [OF i this] show ?thesis by (simp add: i)
qed

end
