(* ===== verification/Update_Signal.thy ===== *)
theory Update_Signal
  imports Daemon_Cycle
begin

text \<open>
  The way of RAUC's \<^verbatim>\<open>Completed\<close> signal through the daemon: the callback sets a flag and wakes the loop,
  and the next cycle makes the update probe due, however long its interval is.
\<close>

section \<open>Before the probe\<close>

definition before_rauc :: "json_lib \<Rightarrow> cycle_env \<Rightarrow> ('w daemon \<Rightarrow> 'w daemon outcome) list" where
  "before_rauc J E = take 5 (collect_phases J E)"

text \<open>What the phases before the flag is taken leave alone.\<close>

definition update_ready :: "config \<Rightarrow> bool \<Rightarrow> probe_schedule \<Rightarrow> string option \<Rightarrow> 'w daemon \<Rightarrow> bool" where
  "update_ready cfg bus s content d \<longleftrightarrow> d_config d = cfg \<and> d_dbus_connection d = bus \<and> d_rauc_update_pending d
     \<and> sch_update (d_schedules d) = s \<and> file_kept update_state_path (state_dir cfg) content d"

lemma sch_update_other [simp]:
  "sch_update (d_schedules (collect_slot device_slot E r1 d)) = sch_update (d_schedules d)"
  "sch_update (d_schedules (collect_slot boot_slot E r2 d)) = sch_update (d_schedules d)"
  "sch_update (d_schedules (collect_slot services_slot E r3 d)) = sch_update (d_schedules d)"
  "sch_update (d_schedules (collect_slot resources_slot E r4 d)) = sch_update (d_schedules d)"
  "sch_update (d_schedules (collect_slot time_sync_slot E r5 d)) = sch_update (d_schedules d)"
  "sch_update (d_schedules (collect_slot journal_slot E r6 d)) = sch_update (d_schedules d)"
  "sch_update (d_schedules (collect_slot crash_slot E r7 d)) = sch_update (d_schedules d)"
  by (simp_all add: collect_slot_def slot_defs split: prod.splits)

lemma update_ready_collect_boot:
  assumes "other_file update_state_path (state_dir cfg) E" "update_ready cfg bus s c d" "collect_boot J E d = Some (Inr d')"
  shows "update_ready cfg bus s c d'"
proof -
  have f: "file_kept update_state_path (state_dir cfg) c d'"
    using file_kept_collect_boot [OF assms(1) _ assms(3)] assms(2) by (simp add: update_ready_def)
  from assms(3) show ?thesis
    by (cases rule: collect_boot_cases) (use assms(2) f in \<open>simp_all add: update_ready_def on_log_def\<close>)
qed

lemma update_ready_until:
  assumes "other_file update_state_path (state_dir cfg) E"
    and "run_phases (refresh_phases A E @ before_rauc J E) d = Some (Inr d')" and "update_ready cfg bus s c d"
  shows "update_ready cfg bus s c d'"
proof (rule run_phases_invariant [where I = "update_ready cfg bus s c", OF _ assms(2,3)])
  define keeps where "keeps f \<longleftrightarrow> (\<forall>d d'. update_ready cfg bus s c d \<longrightarrow> f d = Some (Inr d') \<longrightarrow> update_ready cfg bus s c d')"
    for f :: "'a daemon \<Rightarrow> 'a daemon outcome"
  have "keeps (collect_resources E)"
    by (auto simp: keeps_def collect_resources_def update_ready_def file_kept_def split: if_splits prod.splits)
  moreover have "keeps (ingest_journal A)"
    by (auto simp: keeps_def ingest_journal_def update_ready_def file_kept_def split: option.splits)
  moreover have "keeps (total_phase (drain_netlink E))"
    by (auto simp: keeps_def drain_netlink_def update_ready_def file_kept_def split: option.splits prod.splits)
  moreover have "keeps (collect_boot J E)"
    using update_ready_collect_boot [OF assms(1)] by (auto simp: keeps_def)
  moreover have "keeps (total_phase f)"
    if "f \<in> {collect_device E, collect_services E, collect_time_sync E, update_watchdog_heartbeat (ce_heartbeat_first E)}" for f
    using that by (auto simp: keeps_def update_ready_def file_kept_def plain_phase_defs)
  ultimately have "list_all keeps (refresh_phases A E @ before_rauc J E)"
    by (simp add: refresh_phases_def before_rauc_def collect_phases_def)
  then show "list_all (\<lambda>f. \<forall>d d'. update_ready cfg bus s c d \<longrightarrow> f d = Some (Inr d') \<longrightarrow> update_ready cfg bus s c d')
      (refresh_phases A E @ before_rauc J E)"
    by (simp only: keeps_def [abs_def])
qed

section \<open>After the probe\<close>

definition after_update :: "json_lib \<Rightarrow> cycle_env \<Rightarrow> 'w daemon \<Rightarrow> 'w daemon" where
  "after_update J E d = collect_crash J E (take_ack_pending E (collect_journal E d))"

lemma collection_cycle_at_rauc:
  assumes "collection_cycle J A E d = Some (Inr d')"
  obtains d1 where "run_phases (refresh_phases A E @ before_rauc J E) d = Some (Inr d1)"
    "run_phases (publish_phases J E) (after_update J E (collect_update J E (take_rauc_pending E d1))) = Some (Inr d')"
proof -
  have "cycle_phases J A E = (refresh_phases A E @ before_rauc J E) @
      [total_phase (take_rauc_pending E), total_phase (collect_update J E), total_phase (collect_journal E),
       total_phase (take_ack_pending E), total_phase (collect_crash J E)] @ publish_phases J E"
    by (simp add: cycle_phases_def before_rauc_def collect_phases_def)
  then show thesis
    using assms that
    by (auto simp: collection_cycle_def run_phases_append total_phase_def after_update_def simp del: append_assoc
        split: option.splits sum.splits)
qed

lemma after_update_keeps:
  "snap_update (d_last_known_good (after_update J E d)) = snap_update (d_last_known_good d)"
  "sch_update (d_schedules (after_update J E d)) = sch_update (d_schedules d)"
  "d_rauc_update_pending (after_update J E d) = d_rauc_update_pending d" "d_config (after_update J E d) = d_config d"
proof -
  have "snap_update (d_last_known_good (collect_slot journal_slot E r d)) = snap_update (d_last_known_good d)"
    "snap_update (d_last_known_good (collect_slot crash_slot E r' d)) = snap_update (d_last_known_good d)" for r r' and d :: "'a daemon"
    by (simp_all add: collect_slot_def slot_defs split: prod.splits)
  then show "snap_update (d_last_known_good (after_update J E d)) = snap_update (d_last_known_good d)"
    "sch_update (d_schedules (after_update J E d)) = sch_update (d_schedules d)"
    "d_rauc_update_pending (after_update J E d) = d_rauc_update_pending d" "d_config (after_update J E d) = d_config d"
    by (simp_all add: after_update_def collect_crash_def collect_journal_def take_ack_pending_def)
qed

text \<open>A cycle that starts with the flag set publishes an update section collected in that cycle.\<close>

lemma forced_update_collected:
  assumes "collection_cycle J A E d = Some (Inr d')" and "update_ready cfg bus s content d" and "0 < ps_interval s"
    and "other_file update_state_path (state_dir cfg) E"
    and "update_collect J cfg (if bus then ce_slots E else None) content = Inr st"
  shows "snap_update (current_state d') = put_update \<lparr>collected_at = Some (ce_wall E ''update''), fr_stale = False\<rparr> st
    \<and> \<not> d_rauc_update_pending d'"
proof -
  obtain d1 where pre: "run_phases (refresh_phases A E @ before_rauc J E) d = Some (Inr d1)"
    and post: "run_phases (publish_phases J E) (after_update J E (collect_update J E (take_rauc_pending E d1))) = Some (Inr d')"
    using assms(1) by (rule collection_cycle_at_rauc)
  have r: "update_ready cfg bus s content d1" by (rule update_ready_until [OF assms(4) pre assms(2)])
  let ?d2 = "take_rauc_pending E d1"
  have due: "slot_due update_slot E ?d2" and interval: "0 < ps_interval (sch_update (d_schedules ?d2))"
    using r assms(3) by (simp_all add: slot_due_def update_slot_def is_due_def take_rauc_pending_def update_ready_def)
  have c: "collect_update J E ?d2 = collect_slot update_slot E (Inr st) ?d2"
    using r assms(5) by (simp add: collect_update_def take_rauc_pending_def update_ready_def file_kept_def)
  let ?d3 = "after_update J E (collect_update J E ?d2)"
  have "snap_update (d_last_known_good ?d3) = put_update \<lparr>collected_at = Some (ce_wall E ''update''), fr_stale = False\<rparr> st"
    "sch_update (d_schedules ?d3) = schedule_done (ce_now E) (sch_update (d_schedules ?d2))"
    unfolding after_update_keeps c collect_slot_due [OF due] by (simp_all add: update_slot_def fresh_stamp_def)
  then have "snap_update (aggregate_known_good E (mark_sections E ?d3)) =
      put_update \<lparr>collected_at = Some (ce_wall E ''update''), fr_stale = False\<rparr> st"
    using mark_fresh [OF interval, of update_freshness put_update "ce_now E"]
    by (simp add: aggregate_known_good_def mark_sections_def Let_def frame_simps put_update_def)
  moreover have "\<not> d_rauc_update_pending ?d3"
    using r by (simp add: after_update_keeps c) (simp add: take_rauc_pending_def)
  ultimately show ?thesis using publish_state [OF post] by simp
qed

section \<open>Properties\<close>

text \<open>C8: when RAUC reports a completed installation, the next cycle shows it although the update probe is not
  due: the published section is what the probe reads in that cycle, from RAUC or from its state
  file, it is marked fresh and rated as the probe rates it, and no request is left pending.\<close>

theorem update_reflected:
  assumes "collection_cycle J A E (on_rauc_completed result d) = Some (Inr d')"
    and "fs_unlinked (sy_fs d)" and "0 < ps_interval (sch_update (d_schedules d))"
    and "other_file update_state_path (state_dir (d_config d)) E"
    and "update_collect J (d_config d) (if d_dbus_connection d then ce_slots E else None) (fs_read (sy_fs d) update_state_path) = Inr st"
  shows "snap_update (current_state d') = put_update \<lparr>collected_at = Some (ce_wall E ''update''), fr_stale = False\<rparr> st
    \<and> dom_update (sum_domains (snap_summary (current_state d'))) = update_overall st \<and> \<not> d_rauc_update_pending d'"
proof -
  let ?d = "on_rauc_completed result d"
  have cfg: "d_config ?d = d_config d" by (simp add: on_rauc_completed_def on_rauc_completed_store_def on_log_def)
  have "update_ready (d_config d) (d_dbus_connection d) (sch_update (d_schedules d)) (fs_read (sy_fs d) update_state_path) ?d"
    using assms(2) by (simp add: update_ready_def file_kept_def on_rauc_completed_def on_rauc_completed_store_def on_log_def)
  from forced_update_collected [OF assms(1) this assms(3-5)]
  have u: "snap_update (current_state d') = put_update \<lparr>collected_at = Some (ce_wall E ''update''), fr_stale = False\<rparr> st"
    "\<not> d_rauc_update_pending d'" by auto
  have "snap_update (current_state d') = snap_update (d_last_known_good d')"
    using cycle_facts(2) [OF assms(1)] by (simp add: Let_def frame_simps)
  then have "dom_update (sum_domains (snap_summary (current_state d'))) = update_overall st"
    using cycle_facts(2) [OF assms(1)] u(1)
    by (simp add: Let_def aggregate_domains raise_stale_def evaluate_update_def put_update_def)
  with u show ?thesis by blast
qed

theorem update_reflected_witness:
  "\<exists>d'. collection_cycle sample_cycle_lib empty_sd sample_cycle_env (on_rauc_completed 0 sample_daemon) = Some (Inr d')
     \<and> dom_update (sum_domains (snap_summary (current_state d'))) = Sev_Unknown"
proof -
  obtain d' where c: "collection_cycle sample_cycle_lib empty_sd sample_cycle_env (on_rauc_completed 0 sample_daemon) = Some (Inr d')"
    using sample_cycle_completes by blast
  have s: "sch_update (d_schedules sample_daemon) = schedule_every 1800" "ce_slots sample_cycle_env = None"
    by (simp_all add: sample_daemon_def init_probes_def config_defaults_def init_bus_def sample_init_def on_log_def daemon_new_def Let_def
        sample_cycle_env_def)
  have "fs_read empty_fs update_state_path = None" by (simp add: empty_fs_def fs_read_def)
  then have u: "update_collect sample_cycle_lib config_defaults None (fs_read empty_fs update_state_path) =
      Inr (update_status_default\<lparr>update_overall := Sev_Unknown\<rparr>)"
    by (simp add: update_collect_def config_defaults_def collect_rauc_update_def load_last_update_def update_status_default_def)
  have o: "other_file update_state_path (state_dir config_defaults) sample_cycle_env"
    by (simp add: other_file_def update_state_path_def boot_state_path_def temp_path_for_def path_join_def config_defaults_def)
  show ?thesis
    using update_reflected [OF c, of "update_status_default\<lparr>update_overall := Sev_Unknown\<rparr>"] c u o s
    by (auto simp: sample_daemon_fs empty_fs_unlinked schedule_every_def)
qed

end
