(* ===== verification/Bus_Adaptor.thy ===== *)
theory Bus_Adaptor
  imports Daemon_Cycle
begin

text \<open>
  The adaptor of \<^verbatim>\<open>inc/generated/HealthManagerAdaptor.hpp\<close>: the table of methods, signals and properties
  it registers, and a call of a client on its way through the table and the health manager to
  the callbacks of the daemon.  Which calls the bus library hands to the table is the parameter
  \<open>bus_dispatch\<close>, with what it documents in \<open>dispatch_checks\<close>; marshalling is not modelled.
\<close>

section \<open>The table\<close>

datatype bus_type = T_Bool | T_U32 | T_String | T_Strings

datatype bus_value = B_Bool bool | B_U32 u32 | B_String string | B_Strings "string list"

fun type_of :: "bus_value \<Rightarrow> bus_type" where
  "type_of (B_Bool b) = T_Bool"
| "type_of (B_U32 n) = T_U32"
| "type_of (B_String s) = T_String"
| "type_of (B_Strings ss) = T_Strings"

record vtable_method =
  vm_name :: string
  vm_in :: "(string \<times> bus_type) list"
  vm_out :: "(string \<times> bus_type) list"

record vtable_signal =
  vs_name :: string
  vs_params :: "(string \<times> bus_type) list"

record vtable_property =
  vp_name :: string
  vp_type :: bus_type
  vp_emits_change :: bool

record vtable =
  vt_interface :: string
  vt_methods :: "vtable_method list"
  vt_signals :: "vtable_signal list"
  vt_properties :: "vtable_property list"

definition INTERFACE_NAME :: string where
  "INTERFACE_NAME = ''edge.health.Manager''"

definition registerAdaptor :: vtable where
  "registerAdaptor = \<lparr>vt_interface = INTERFACE_NAME,
     vt_methods =
       [\<lparr>vm_name = ''TriggerSnapshot'', vm_in = [], vm_out = [(''success'', T_Bool)]\<rparr>,
        \<lparr>vm_name = ''GetRecentLogs'', vm_in = [(''max_lines'', T_U32)], vm_out = [(''logs'', T_Strings)]\<rparr>,
        \<lparr>vm_name = ''AcknowledgeCrash'', vm_in = [(''fingerprint'', T_String)], vm_out = [(''success'', T_Bool)]\<rparr>],
     vt_signals = [\<lparr>vs_name = ''HealthAlarm'',
        vs_params = [(''component'', T_String), (''message'', T_String), (''severity'', T_String)]\<rparr>],
     vt_properties = [\<lparr>vp_name = ''OverallSeverity'', vp_type = T_String, vp_emits_change = True\<rparr>]\<rparr>"

text \<open>A signal as it goes over the bus: interface, name and arguments.\<close>

definition emitHealthAlarm :: "string \<Rightarrow> string \<Rightarrow> string \<Rightarrow> string \<times> string \<times> bus_value list" where
  "emitHealthAlarm component message sev = (INTERFACE_NAME, ''HealthAlarm'', [B_String component, B_String message, B_String sev])"

section \<open>Calls\<close>

text \<open>What a call reads: the clocks of the trigger and of the log, the outcomes of the write, the process.\<close>

record call_env =
  bc_now :: int
  bc_log_now :: int
  bc_sys :: sys_outcomes
  bc_pid :: nat

text \<open>
  The library refuses a call with an error; otherwise the callback returns values or throws, and
  the exception goes to the library.
\<close>

datatype bus_reply = Reply "bus_value list" | Refused string | Threw string

text \<open>The lambdas of \<^verbatim>\<open>implementedAs\<close>, with the overrides of the health manager behind them.\<close>

definition call_trigger :: "call_env \<Rightarrow> 'w daemon \<Rightarrow> bus_reply \<times> 'w daemon" where
  "call_trigger C d = (case TriggerSnapshot (Some (on_trigger (bc_now C))) d of (ok, d') \<Rightarrow> (Reply [B_Bool ok], d'))"

definition call_recent_logs :: "u32 \<Rightarrow> health_manager \<Rightarrow> bus_reply" where
  "call_recent_logs n hm = Reply [B_Strings (GetRecentLogs n hm)]"

definition call_acknowledge :: "json_lib \<Rightarrow> call_env \<Rightarrow> string \<Rightarrow> 'w daemon \<Rightarrow> (bus_reply \<times> 'w daemon) option" where
  "call_acknowledge J C fp d =
     map_option (\<lambda>x. case x of Inl ex \<Rightarrow> (Threw ex, d) | Inr (ok, d') \<Rightarrow> (Reply [B_Bool ok], d'))
       (AcknowledgeCrash (Some (on_acknowledge J (bc_sys C) (bc_pid C) (bc_log_now C))) on_log fp d)"

text \<open>The lambda that is registered under a name, applied; \<open>None\<close> when there is none for these arguments.\<close>

definition implementation ::
  "json_lib \<Rightarrow> call_env \<Rightarrow> string \<Rightarrow> bus_value list \<Rightarrow> health_manager \<Rightarrow> 'w daemon \<Rightarrow> (bus_reply \<times> 'w daemon) option option" where
  "implementation J C name args hm d =
     (case args of
        [] \<Rightarrow> if name = ''TriggerSnapshot'' then Some (Some (call_trigger C d)) else None
      | [B_U32 n] \<Rightarrow> if name = ''GetRecentLogs'' then Some (Some (call_recent_logs n hm, d)) else None
      | [B_String fp] \<Rightarrow> if name = ''AcknowledgeCrash'' then Some (call_acknowledge J C fp d) else None
      | _ \<Rightarrow> None)"

text \<open>
  The library, given the tables that are registered and a call: the error with which it refuses, or
  \<open>None\<close> when it invokes the implementation.
\<close>

type_synonym bus_dispatch = "vtable list \<Rightarrow> string \<Rightarrow> bus_value list \<Rightarrow> string option"

definition registered :: "'w daemon \<Rightarrow> vtable list" where
  "registered d = (case d_health_manager d of None \<Rightarrow> [] | Some hm \<Rightarrow> [registerAdaptor])"

text \<open>\<open>None\<close> when the file of an acknowledgement is never written completely.\<close>

definition bus_call ::
  "json_lib \<Rightarrow> bus_dispatch \<Rightarrow> call_env \<Rightarrow> string \<Rightarrow> bus_value list \<Rightarrow> 'w daemon \<Rightarrow> (bus_reply \<times> 'w daemon) option" where
  "bus_call J D C name args d =
     (case D (registered d) name args of
        Some e \<Rightarrow> Some (Refused e, d)
      | None \<Rightarrow>
          (case Option.bind (d_health_manager d) (\<lambda>hm. implementation J C name args hm d) of
             None \<Rightarrow> Some (Refused [], d)
           | Some r \<Rightarrow> r))"

definition get_property :: "string \<Rightarrow> 'w daemon \<Rightarrow> bus_value option" where
  "get_property name d =
     (case d_health_manager d of
        None \<Rightarrow> None
      | Some hm \<Rightarrow> if name \<in> set (map vp_name (vt_properties registerAdaptor)) then Some (B_String (OverallSeverity hm)) else None)"

section \<open>Calls that conform\<close>

definition conforms :: "vtable \<Rightarrow> string \<Rightarrow> bus_value list \<Rightarrow> bool" where
  "conforms t name args \<longleftrightarrow> list_ex (\<lambda>v. name = vm_name v \<and> map type_of args = map snd (vm_in v)) (vt_methods t)"

text \<open>What the library documents: it invokes a method exactly when it is registered with this signature.\<close>

definition dispatch_checks :: "bus_dispatch \<Rightarrow> bool" where
  "dispatch_checks D \<longleftrightarrow> (\<forall>ts name args. D ts name args = None \<longleftrightarrow> list_ex (\<lambda>t. conforms t name args) ts)"

lemma type_of_inv:
  "type_of v = T_U32 \<longleftrightarrow> (\<exists>n. v = B_U32 n)" "type_of v = T_String \<longleftrightarrow> (\<exists>s. v = B_String s)"
  by (cases v; simp)+

lemma methods_simps:
  "vt_methods registerAdaptor = [\<lparr>vm_name = ''TriggerSnapshot'', vm_in = [], vm_out = [(''success'', T_Bool)]\<rparr>,
     \<lparr>vm_name = ''GetRecentLogs'', vm_in = [(''max_lines'', T_U32)], vm_out = [(''logs'', T_Strings)]\<rparr>,
     \<lparr>vm_name = ''AcknowledgeCrash'', vm_in = [(''fingerprint'', T_String)], vm_out = [(''success'', T_Bool)]\<rparr>]"
  by (simp add: registerAdaptor_def)

lemma conforms_iff:
  "conforms registerAdaptor name args \<longleftrightarrow> name = ''TriggerSnapshot'' \<and> args = []
     \<or> name = ''GetRecentLogs'' \<and> (\<exists>n. args = [B_U32 n]) \<or> name = ''AcknowledgeCrash'' \<and> (\<exists>fp. args = [B_String fp])"
proof -
  have "map type_of args = [T_U32] \<longleftrightarrow> (\<exists>n. args = [B_U32 n])" "map type_of args = [T_String] \<longleftrightarrow> (\<exists>fp. args = [B_String fp])"
    by (auto simp: map_eq_Cons_conv type_of_inv)
  then have "map type_of args = map snd [(x, T_U32)] \<longleftrightarrow> (\<exists>n. args = [B_U32 n])"
    "map type_of args = map snd [(x, T_String)] \<longleftrightarrow> (\<exists>fp. args = [B_String fp])" "map type_of args = map snd ([] :: (string \<times> bus_type) list) \<longleftrightarrow> args = []" for x :: string
    by simp_all
  then show ?thesis
    unfolding conforms_def methods_simps list_ex_Nil_iff list_ex_Cons_iff vtable_method.select_convs
    by (simp only: simp_thms)
qed

lemma bus_call_invokes:
  assumes "dispatch_checks D" "d_health_manager d = Some hm" "implementation J C name args hm d = Some r"
    and "conforms registerAdaptor name args"
  shows "bus_call J D C name args d = r"
proof -
  have "D (registered d) name args = None" using assms by (simp add: dispatch_checks_def registered_def)
  then show ?thesis using assms(2,3) by (simp add: bus_call_def)
qed

lemma bus_call_conforms:
  assumes "dispatch_checks D" "d_health_manager d = Some hm"
  shows "bus_call J D C ''TriggerSnapshot'' [] d = Some (call_trigger C d)"
    and "bus_call J D C ''GetRecentLogs'' [B_U32 n] d = Some (call_recent_logs n hm, d)"
    and "bus_call J D C ''AcknowledgeCrash'' [B_String fp] d = call_acknowledge J C fp d"
  by (rule bus_call_invokes [OF assms]; simp add: implementation_def conforms_iff)+

lemma bus_call_rejects:
  assumes "dispatch_checks D" and "\<not> conforms registerAdaptor name args"
  shows "\<exists>e. bus_call J D C name args d = Some (Refused e, d)"
proof -
  have "D (registered d) name args \<noteq> None" using assms by (auto simp: dispatch_checks_def registered_def split: option.split)
  then show ?thesis by (auto simp: bus_call_def)
qed

definition typed_reply :: "string \<Rightarrow> bus_reply \<Rightarrow> bool" where
  "typed_reply name r = (case r of
     Reply vs \<Rightarrow> list_ex (\<lambda>v. vm_name v = name \<and> map type_of vs = map snd (vm_out v)) (vt_methods registerAdaptor)
   | _ \<Rightarrow> False)"

lemma typed_replyI:
  "typed_reply ''TriggerSnapshot'' (Reply [B_Bool b])" "typed_reply ''GetRecentLogs'' (Reply [B_Strings ss])"
  "typed_reply ''AcknowledgeCrash'' (Reply [B_Bool b])"
  by (simp_all add: typed_reply_def methods_simps)

lemma call_acknowledge_cases:
  assumes "call_acknowledge J C fp d = Some (r, d')"
  shows "(\<exists>ex. r = Threw ex \<and> d' = d) \<or> typed_reply ''AcknowledgeCrash'' r"
proof -
  obtain x where "AcknowledgeCrash (Some (on_acknowledge J (bc_sys C) (bc_pid C) (bc_log_now C))) on_log fp d = Some x"
    and r: "(r, d') = (case x of Inl ex \<Rightarrow> (Threw ex, d) | Inr (ok, d') \<Rightarrow> (Reply [B_Bool ok], d'))"
    using assms by (auto simp: call_acknowledge_def)
  show ?thesis using r typed_replyI(3) by (cases x) (auto split: prod.splits)
qed

definition sample_call_env :: call_env where
  "sample_call_env = \<lparr>bc_now = 0, bc_log_now = 0, bc_sys = sample_sys, bc_pid = 7\<rparr>"

definition sample_dispatch :: bus_dispatch where
  "sample_dispatch ts name args =
     (if list_ex (\<lambda>t. conforms t name args) ts then None else Some ''org.freedesktop.DBus.Error.UnknownMethod'')"

section \<open>Properties\<close>



end
