(* ===== verification/Spec2Isabelle.thy ===== *)
theory Spec2Isabelle
  imports Main_Entry Monitor Update_Signal Bus_Adaptor
begin

text \<open>
  \<^bold>\<open>A model of edge-healthd.\<close>

  The daemon watches the health of an edge device.  Once per interval it runs a collection cycle:
  eight probes read the device, the boot, the units of systemd, the resources, the clock, the
  updates, the journal and the kernel's crash records; an aggregator rates each section and takes
  the worst rating; a writer replaces the snapshot file atomically; and clients on the system bus
  see the severity, alarms and recent lines.  A bus client may ask for a cycle or acknowledge a
  crash, RAUC reports installed updates, and signals end the process.

  \<^bold>\<open>Theories and sources.\<close>

  \<^item> \<open>Prelude\<close>, \<open>Float64\<close>, \<open>Std_Map\<close>: characters and numbers as the C++ library prints and scans them, IEEE
    doubles as far as the source computes with them (rounding of a quotient and a product), and
    \<^verbatim>\<open>std::map\<close> as a sorted association list.
  \<^item> \<open>Types\<close>: \<^verbatim>\<open>inc/types.hpp\<close>; one record per struct with its default, the severities with their order.
  \<^item> \<open>Json_Value\<close>: values and the operations of the JSON library the source uses.  The library itself
    (parser, printer, conversions) is the parameter \<open>json_lib\<close>; what it documents is the
    hypotheses \<open>json_conversions\<close> and \<open>json_reparse\<close>.
  \<^item> \<open>Config\<close>: \<^verbatim>\<open>src/config.cpp\<close>; loading, validating, printing, and the round trip.
  \<^item> \<open>Aggregator\<close>: \<^verbatim>\<open>src/aggregator.cpp\<close>; evaluations, roll-up, reasons.  The loops are shown to compute
    maxima in the documented order (locale \<open>severity_ranking\<close>).
  \<^item> \<open>Utf8\<close>, \<open>Journal\<close>, \<open>Journal_Reader\<close>: \<^verbatim>\<open>src/journal.cpp\<close> and \<^verbatim>\<open>src/journal_reader.cpp\<close>; the sanitiser, the
    excerpt, the buffer (locale \<open>bounded_log\<close>) and the reader over a parameter for \<^verbatim>\<open>sd_journal\<close>.
  \<^item> \<open>Atomic_File\<close>, \<open>Writer\<close>: \<^verbatim>\<open>src/atomic_file.cpp\<close> and \<^verbatim>\<open>src/writer.cpp\<close> over a file system with a volatile
    and a durable side; every state a write passes is kept, so loss of power is covered at each
    system call (locale \<open>crash_safe_store\<close>).
  \<^item> \<open>Time_Format\<close>, \<open>Json_Serialize\<close>: \<^verbatim>\<open>src/json.cpp\<close>; every member of the document, times and their parsing.
  \<^item> \<open>Probe_Base\<close>, \<open>Device_Probe\<close>, \<open>Boot_Probe\<close>, \<open>Resources_Probe\<close>, \<open>Dbus_Probes\<close>, \<open>Crash_Probe\<close>:
    \<^verbatim>\<open>src/probes.cpp\<close> and \<^verbatim>\<open>src/probes_dbus.cpp\<close>; what the kernel, files and bus return are records of
    parameters, errors included.
  \<^item> \<open>Netlink_Monitor\<close>, \<open>Ethtool_Link\<close>: \<^verbatim>\<open>src/netlink_monitor.cpp\<close> and \<^verbatim>\<open>src/ethtool_link.cpp\<close>; the cache and its
    invariant, the querier and its recovery.
  \<^item> \<open>Log\<close>: \<^verbatim>\<open>inc/log.hpp\<close>; levels, lines, rate limiters (locale \<open>throttle\<close>).
  \<^item> \<open>Dbus_Manager\<close>: \<^verbatim>\<open>src/dbus_manager.cpp\<close>; the property, the alarms, the methods.
  \<^item> \<open>Probe_Schedule\<close>: the two lambdas of the cycle and the schedules (locale \<open>fresh_section\<close>).
  \<^item> \<open>Daemon\<close>: \<^verbatim>\<open>src/daemon.cpp\<close>; the state \<open>daemon\<close>, construction, \<open>initialize\<close>, the callbacks and
    \<open>collection_cycle\<close>, a list of eighteen phases in the order of the source.
  \<^item> \<open>Daemon_Cycle\<close>: what a cycle publishes, when it returns, what can leave it as an exception, alarms
    over sequences of cycles, acknowledgement, and the snapshot file.
  \<^item> \<open>Update_Signal\<close>: the way of RAUC's signal through the callback and the next cycle to the published section.
  \<^item> \<open>Bus_Adaptor\<close>: \<^verbatim>\<open>inc/generated/HealthManagerAdaptor.hpp\<close>; the table it registers, and a client's call from
    the table to the callback and back, errors included.
  \<^item> \<open>Daemon_Run\<close>: \<open>run\<close>, the watchdog thread, the messages to systemd; the main loop as a machine whose
    steps are interleaved with the thread of the bus and the signal handler, as relations for the
    invariants (no lost wake-up, prompt shutdown) and as \<open>move_step\<close>, a function of the
    scheduler's choice, which \<open>daemon_run\<close> folds over a list of moves.
  \<^item> \<open>Monitor\<close>: the specification of the daemon, a history of snapshots with a shutdown, and the proof that the
    interleaved machine implements it (locale \<open>forward_simulation\<close>); the life cycle of the process.
  \<^item> \<open>Main_Entry\<close>: \<^verbatim>\<open>src/main.cpp\<close>; arguments, choice of the configuration, exit codes.

  \<^bold>\<open>Conventions.\<close>  Structs are records, enums datatypes, integers of the source that can wrap are words,
  durations and clocks integers (seconds, or nanoseconds for time points).  An operation that
  throws returns a sum with the message on the left; one that may never return is an option
  with \<open>None\<close>, through \<open>partial_function\<close> for the refill of the journal buffer, through the list of outcomes
  of the system calls for the write loop, through the list of moves for \<open>run\<close>.  That these return is proved: the refill when the clock
  advances (\<open>clock_advances\<close>), an ethtool exchange when the kernel ends it (\<open>exchange_ends\<close>), a write
  when the calls offered take the content, and a cycle under these hypotheses.  No fuel is used;
  every other loop is structural.

  \<^bold>\<open>Threads.\<close>  The collection thread is cut at the phases, and the stores of a callback and of the signal
  handler are separate from the write to the descriptor that follows them.  An acknowledgement is
  compared under its mutex and written after the mutex is released, so these are two steps.  Within a phase no
  other thread reads what the phase writes before the phase ends, except under the mutexes of
  the source.  The watchdog thread reads one atomic and sends messages; it is modelled by what it
  finds at each wake-up.

  \<^bold>\<open>Not modelled.\<close>  The bus library (its connection, marshalling, and the dispatch beyond finding a method and
  comparing its signature), the JSON text format, the C library's file streams beyond their content, \<^verbatim>\<open>libmnl\<close>'s parsing of message bytes (the one
  loop that reads past a message is modelled over bytes apart), the builds without systemd,
  and the web interface and scripts, which are other programs.
\<close>

section \<open>The snapshot file over the life of the daemon\<close>

text \<open>C19: over any sequence of cycles, with any failures of the system calls of the snapshot and of the boot
  state file, a reader of the snapshot file finds what was there before the first cycle or the
  complete text of a state that one of the cycles published.\<close>

theorem snapshot_file_follows:
  assumes "cycle_trace J A Es d = Some (Inr ds)" and "fs_unlinked (sy_fs d)"
    and "list_all (other_file (output_path (d_writer d)) (state_dir (d_config d))) Es"
  defines "found \<equiv> fs_read (sy_fs (last (d # ds))) (output_path (d_writer d))"
  shows "found = fs_read (sy_fs d) (output_path (d_writer d))
    \<or> (\<exists>a\<in>set ds. \<exists>t. snapshot_text J (d_writer d) (current_state a) = Inr t \<and> found = Some t)"
proof -
  have "file_kept (output_path (d_writer d)) (state_dir (d_config d)) (fs_read (sy_fs d) (output_path (d_writer d))) d"
    using assms(2) by (simp add: file_kept_def)
  from trace_file [OF assms(1) this assms(3)] show ?thesis unfolding found_def file_kept_def by blast
qed

theorem snapshot_file_follows_witness:
  "\<exists>d'. collection_cycle sample_cycle_lib empty_sd sample_cycle_env sample_daemon = Some (Inr d')
     \<and> fs_read (sy_fs d') ''/run/health/state.json'' \<in> {None, Some ''{}''}"
proof -
  obtain d' where c: "collection_cycle sample_cycle_lib empty_sd sample_cycle_env sample_daemon = Some (Inr d')"
    using sample_cycle_completes by blast
  have t: "cycle_trace sample_cycle_lib empty_sd [sample_cycle_env] sample_daemon = Some (Inr [d'])" by (simp add: c)
  have w: "output_path (d_writer sample_daemon) = ''/run/health/state.json''" "\<not> pretty (d_writer sample_daemon)"
    by (simp_all add: sample_daemon_def init_probes_def snapshot_writer_new_def init_bus_def sample_init_def on_log_def
        daemon_new_def config_defaults_def Let_def)
  have o: "list_all (other_file (output_path (d_writer sample_daemon)) (state_dir (d_config sample_daemon))) [sample_cycle_env]"
    by (simp add: w sample_daemon_fs other_file_def boot_state_path_def path_join_def temp_path_for_def config_defaults_def)
  have "fs_read empty_fs p = None" for p by (simp add: empty_fs_def fs_read_def)
  then show ?thesis
    using snapshot_file_follows [OF t _ o] c
    by (auto simp: w sample_daemon_fs empty_fs_unlinked snapshot_text_def sample_cycle_lib_def)
qed

end
